theory Spec2Isabelle
  imports Complex_Main
begin

section \<open>Numbers and rectangles\<close>

text \<open>
  The game of \<^verbatim>\<open>objects.py\<close> keeps two descriptions of where an entity is: the
  position fields \<^verbatim>\<open>x\<close>, \<^verbatim>\<open>y\<close> (Python numbers: the levels pass ints, the diagonal
  keyboard step is a float) and a \<^verbatim>\<open>pygame.Rect\<close>, whose four fields are C ints.
  Position fields and displacements are modelled as reals: an int is embedded exactly,
  and a float is read as the real it denotes. Sums and differences of position fields
  are the exact ones: they are what Python computes on ints, and on floats as long as
  the result is a float again (always so for whole numbers below \<open>2\<^sup>5\<^sup>3\<close>); where a float
  sum rounds, the program's value is the neighbouring float. Sizes, speeds and route
  coordinates are ints, as every constructor call of the source passes them.

  \<^verbatim>\<open>pygame.Rect\<close> is the library's type; it is modelled by what the source uses of it.
  Its fields are 32-bit C ints: \<open>c_int\<close> is the value an int variable takes when it is
  assigned a wider integer, and the sums pygame forms on the fields wrap likewise.
  Where pygame receives a Python number for an int field it converts it with a C cast,
  a float by truncation toward zero (\<open>pg_int\<close>). C leaves the cast of a float beyond
  the range of an int undefined; the model wraps there as well.
\<close>

definition c_int :: "int \<Rightarrow> int" where
  "c_int n = (n + 2147483648) mod 4294967296 - 2147483648"

definition pg_int :: "real \<Rightarrow> int" where
  "pg_int v = c_int (if 0 \<le> v then \<lfloor>v\<rfloor> else \<lceil>v\<rceil>)"

record Rect =
  rect_x :: int
  rect_y :: int
  rect_w :: int
  rect_h :: int

text \<open>\<^verbatim>\<open>pygame.Rect(left, top, width, height)\<close>\<close>

definition Rect_new :: "real \<Rightarrow> real \<Rightarrow> int \<Rightarrow> int \<Rightarrow> Rect" where
  "Rect_new l t w h = \<lparr>rect_x = pg_int l, rect_y = pg_int t, rect_w = c_int w, rect_h = c_int h\<rparr>"

text \<open>\<^verbatim>\<open>rect.center\<close>, read and assigned: the centre is half the size away from the corner,
  the half taken by integer division.\<close>

definition Rect_center :: "Rect \<Rightarrow> int \<times> int" where
  "Rect_center r = (c_int (rect_x r + rect_w r div 2), c_int (rect_y r + rect_h r div 2))"

definition Rect_set_center :: "Rect \<Rightarrow> real \<Rightarrow> real \<Rightarrow> Rect" where
  "Rect_set_center r cx cy =
     r\<lparr>rect_x := c_int (pg_int cx - rect_w r div 2),
       rect_y := c_int (pg_int cy - rect_h r div 2)\<rparr>"

text \<open>\<^verbatim>\<open>rect.move(x, y)\<close>: a new rectangle, shifted.\<close>

definition Rect_move :: "Rect \<Rightarrow> real \<Rightarrow> real \<Rightarrow> Rect" where
  "Rect_move r x y =
     r\<lparr>rect_x := c_int (rect_x r + pg_int x), rect_y := c_int (rect_y r + pg_int y)\<rparr>"

text \<open>\<^verbatim>\<open>a.colliderect(b)\<close>, as pygame 2 computes it: a rectangle of width or height 0
  collides with nothing; otherwise the extents overlap on both axes, strictly
  (rectangles that only share an edge do not collide). The minima and maxima put a
  rectangle of negative size the right way round.\<close>

definition colliderect :: "Rect \<Rightarrow> Rect \<Rightarrow> bool" where
  "colliderect a b \<longleftrightarrow>
     (if rect_w a = 0 \<or> rect_h a = 0 \<or> rect_w b = 0 \<or> rect_h b = 0 then False
      else min (rect_x a) (c_int (rect_x a + rect_w a)) < max (rect_x b) (c_int (rect_x b + rect_w b)) \<and>
           min (rect_y a) (c_int (rect_y a + rect_h a)) < max (rect_y b) (c_int (rect_y b + rect_h b)) \<and>
           max (rect_x a) (c_int (rect_x a + rect_w a)) > min (rect_x b) (c_int (rect_x b + rect_w b)) \<and>
           max (rect_y a) (c_int (rect_y a + rect_h a)) > min (rect_y b) (c_int (rect_y b + rect_h b)))"

text \<open>A rectangle inside the display \<open>[0, W] \<times> [0, H]\<close>.\<close>

definition within_display :: "int \<times> int \<Rightarrow> Rect \<Rightarrow> bool" where
  "within_display res r \<longleftrightarrow>
     0 \<le> rect_x r \<and> 0 \<le> rect_y r \<and>
     rect_x r + rect_w r \<le> fst res \<and> rect_y r + rect_h r \<le> snd res"


section \<open>Routes, signals, entities\<close>

text \<open>
  \<^verbatim>\<open>Route\<close> is a linked node; the levels close the chain into a cycle
  (\<^verbatim>\<open>start_route.next.next = start_route\<close>), so the type is coinductive. The field
  \<^verbatim>\<open>prev\<close> is never assigned and is left out.
\<close>

codatatype Route = Route (route_coords: "int \<times> int") (route_next: "Route option")

text \<open>The exceptions of \<^verbatim>\<open>exceptions.py\<close> that steer the game, and the Python errors
  the modelled code can raise.\<close>

datatype exn = GameOver | NextLevel | Win | SystemExit
  | TypeError | AttributeError | KeyError | IndexError

text \<open>The six entity classes.\<close>

datatype entity_class = Entity | Wall | MovableEntity | Enemy | EnemyTouch | Player

text \<open>
  A frame callback is a Python closure. The source defines four, each inside
  \<^verbatim>\<open>create_entities\<close>; a closure is modelled by its code and the ids of the objects it
  captured:
  \<^item> the key's \<^verbatim>\<open>frame\<close> captures the level (for its player), the door and the opened door;
  \<^item> the graal's \<^verbatim>\<open>frame\<close> captures the level and raises \<^verbatim>\<open>NextLevel\<close> (level 1) or
    \<^verbatim>\<open>Win\<close> (level 2);
  \<^item> the spikes' \<^verbatim>\<open>frame\<close> captures the spikes themselves.
\<close>

datatype callback = KeyFrame nat nat nat | GraalFrame nat exn | SpikesFrame nat

text \<open>
  One record for every entity object; \<open>e_cls\<close> is its class. The fields of
  \<^verbatim>\<open>MovableEntity\<close> (\<open>e_only_on_screen\<close>, \<open>e_route\<close>, \<open>e_on_route\<close>, \<open>e_speed\<close>) are read
  only by the methods of that class and its subclasses. \<open>e_last_active\<close> is the attribute
  \<^verbatim>\<open>_last_active\<close> that level 2 attaches to its spikes (a time in microseconds).
\<close>

record entity =
  e_cls :: entity_class
  e_x :: real
  e_y :: real
  e_width :: int
  e_height :: int
  e_color :: string
  e_id :: nat
  e_frame_callback :: "callback option"
  e_img :: "string option"
  e_rect :: Rect
  e_on_screen :: bool
  e_alive :: bool
  e_only_on_screen :: bool
  e_route :: "Route option"
  e_on_route :: bool
  e_speed :: int
  e_last_active :: "int option"

text \<open>The properties \<^verbatim>\<open>left\<close> and \<^verbatim>\<open>top\<close>: \<^verbatim>\<open>self.x - self.width // 2\<close>.\<close>

definition Entity_left :: "entity \<Rightarrow> real" where
  "Entity_left e = e_x e - of_int (e_width e div 2)"

definition Entity_top :: "entity \<Rightarrow> real" where
  "Entity_top e = e_y e - of_int (e_height e div 2)"

text \<open>\<^verbatim>\<open>Entity.is_collide\<close>: a hidden entity collides with nothing.\<close>

definition is_collide :: "entity \<Rightarrow> entity \<Rightarrow> bool" where
  "is_collide self obj = (if \<not> e_on_screen self then False
                         else colliderect (e_rect self) (e_rect obj))"

text \<open>
  The object part of \<^verbatim>\<open>Entity.__init__\<close>: the fields, then the rectangle, built from
  \<^verbatim>\<open>left\<close>, \<^verbatim>\<open>top\<close> and the size and centred on \<open>(x, y)\<close>. With an image the source
  takes the rectangle of the image scaled to \<open>(width, height)\<close> instead, at the same
  corner and with the same centre assigned: the same rectangle. The class attributes
  give \<open>on_screen\<close>, \<open>alive\<close> and \<open>only_on_screen\<close> their value \<open>True\<close>.
\<close>

definition Entity_new ::
  "entity_class \<Rightarrow> nat \<Rightarrow> real \<Rightarrow> real \<Rightarrow> int \<Rightarrow> int \<Rightarrow> string \<Rightarrow> string option
     \<Rightarrow> callback option \<Rightarrow> entity" where
  "Entity_new c i x y width height color img_path frame_callback =
     (let self = \<lparr>e_cls = c, e_x = x, e_y = y, e_width = width, e_height = height,
                   e_color = color, e_id = i, e_frame_callback = frame_callback,
                   e_img = (if img_path = Some [] then None else img_path),
                   e_rect = \<lparr>rect_x = 0, rect_y = 0, rect_w = 0, rect_h = 0\<rparr>,
                   e_on_screen = True, e_alive = True, e_only_on_screen = True,
                   e_route = None, e_on_route = False, e_speed = 0, e_last_active = None\<rparr>;
          rect = Rect_new (Entity_left self) (Entity_top self) width height
      in self\<lparr>e_rect := Rect_set_center rect x y\<rparr>)"

text \<open>The object part of \<^verbatim>\<open>MovableEntity.__init__\<close>.\<close>

definition MovableEntity_new ::
  "entity_class \<Rightarrow> nat \<Rightarrow> real \<Rightarrow> real \<Rightarrow> int \<Rightarrow> int \<Rightarrow> string \<Rightarrow> string option
     \<Rightarrow> callback option \<Rightarrow> Route option \<Rightarrow> bool \<Rightarrow> int \<Rightarrow> entity" where
  "MovableEntity_new c i x y width height color img_path frame_callback route on_route speed =
     (Entity_new c i x y width height color img_path frame_callback)
       \<lparr>e_route := route, e_on_route := on_route, e_speed := speed\<rparr>"

text \<open>\<^verbatim>\<open>Entity.hide\<close>\<close>

definition Entity_hide :: "entity \<Rightarrow> entity" where
  "Entity_hide e = e\<lparr>e_on_screen := False\<rparr>"


section \<open>The movement resolver: \<^verbatim>\<open>MovableEntity.move\<close>\<close>

text \<open>
  \<^verbatim>\<open>DISPLAY_RESOLUTION\<close> comes from \<^verbatim>\<open>settings.py\<close>, which is not among the sources: it
  is the parameter \<open>res\<close> (width, height). The clamp of the source, lines 271 to 284:
  one correction per axis, computed from the position fields before the move, in exact
  arithmetic (see the first section for where Python's floats depart from it).
\<close>

definition clamp_y :: "int \<times> int \<Rightarrow> entity \<Rightarrow> real \<Rightarrow> real" where
  "clamp_y res self y =
     (let next_top = Entity_top self + y;
          next_bottom = Entity_top self + of_int (e_height self) + y
      in if next_top < 0 then y + \<bar>next_top\<bar>
         else if next_bottom > of_int (snd res) then y - (next_bottom - of_int (snd res))
         else y)"

definition clamp_x :: "int \<times> int \<Rightarrow> entity \<Rightarrow> real \<Rightarrow> real" where
  "clamp_x res self x =
     (let next_left = Entity_left self + x;
          next_right = Entity_left self + of_int (e_width self) + x
      in if next_left < 0 then x + \<bar>next_left\<bar>
         else if next_right > of_int (fst res) then x - (next_right - of_int (fst res))
         else x)"

definition clamped :: "int \<times> int \<Rightarrow> entity \<Rightarrow> real \<Rightarrow> real \<Rightarrow> real \<times> real" where
  "clamped res self x y =
     (if e_only_on_screen self then (clamp_x res self x, clamp_y res self y) else (x, y))"

text \<open>The rectangle the move tries: \<^verbatim>\<open>self.rect.move(x, y)\<close> after the clamp.\<close>

definition trial_rect :: "int \<times> int \<Rightarrow> entity \<Rightarrow> real \<Rightarrow> real \<Rightarrow> Rect" where
  "trial_rect res self x y =
     Rect_move (e_rect self) (fst (clamped res self x y)) (snd (clamped res self x y))"

text \<open>The loop over \<^verbatim>\<open>Wall.walls_by_id.values()\<close>: it stops at the first wall whose
  \<^verbatim>\<open>is_collide\<close> answers true.\<close>

fun hits_wall :: "entity list \<Rightarrow> entity \<Rightarrow> bool" where
  "hits_wall [] self = False"
| "hits_wall (wall # walls) self = (if is_collide wall self then True else hits_wall walls self)"

text \<open>The second half of \<^verbatim>\<open>MovableEntity.move\<close>, lines 286 to 294: the rectangle is
  shifted by the displacement the clamp arrived at; a wall that collides puts the old
  rectangle back, otherwise the position fields follow. \<open>walls\<close> are the values of the
  wall registry, in its order.\<close>

definition try_move :: "entity list \<Rightarrow> entity \<Rightarrow> real \<Rightarrow> real \<Rightarrow> entity" where
  "try_move walls self x y =
     (let old_rect = e_rect self;
          moved = self\<lparr>e_rect := Rect_move (e_rect self) x y\<rparr>
      in if hits_wall walls moved then moved\<lparr>e_rect := old_rect\<rparr>
         else moved\<lparr>e_x := e_x self + x, e_y := e_y self + y\<rparr>)"

text \<open>\<^verbatim>\<open>MovableEntity.move\<close>\<close>

definition MovableEntity_move :: "int \<times> int \<Rightarrow> entity list \<Rightarrow> entity \<Rightarrow> real \<Rightarrow> real \<Rightarrow> entity" where
  "MovableEntity_move res walls self x y =
     (if \<not> e_on_screen self then self
      else let (x', y') = clamped res self x y
           in try_move walls self x' y')"

text \<open>The step of the route logic in \<^verbatim>\<open>MovableEntity.frame\<close>, one axis:
  \<^verbatim>\<open>min(self.speed, dist) if dist >= 0 else max(-self.speed, dist)\<close>.\<close>

definition route_step :: "int \<Rightarrow> real \<Rightarrow> real" where
  "route_step speed d =
     (if d \<ge> 0 then min (of_int speed) d else max (- of_int speed) d)"

text \<open>The pressed keys, as \<^verbatim>\<open>pygame.key.get_pressed()\<close> reports the four the game reads.\<close>

record keys =
  K_UP :: bool
  K_DOWN :: bool
  K_LEFT :: bool
  K_RIGHT :: bool

text \<open>The displacement \<^verbatim>\<open>Player.handle_keyboard\<close> hands to \<^verbatim>\<open>move\<close>. Left wins over
  right (\<^verbatim>\<open>elif\<close>); up and down together cancel. \<^verbatim>\<open>(speed**2 / 2) ** (1 / 2)\<close> is the
  square root.\<close>

definition keyboard_step :: "int \<Rightarrow> keys \<Rightarrow> real \<times> real" where
  "keyboard_step speed ks =
     (let y0 = (0::real);
          x0 = (0::real);
          y1 = (if K_UP ks then y0 + - of_int speed else y0);
          y2 = (if K_DOWN ks then y1 + of_int speed else y1);
          x1 = (if K_LEFT ks then x0 + - of_int speed
                else if K_RIGHT ks then x0 + of_int speed else x0)
      in if x1 \<noteq> 0 \<and> y2 \<noteq> 0
         then let new_speed = sqrt (of_int (speed ^ 2) / 2)
              in (if x1 > 0 then new_speed else - new_speed,
                  if y2 > 0 then new_speed else - new_speed)
         else (x1, y2))"

text \<open>The route logic at the head of \<^verbatim>\<open>MovableEntity.frame\<close> (lines 297 to 305): step
  towards the current node, or, once the centre of the rectangle is on it, take the
  next node. A \<^verbatim>\<open>Route\<close> object is always truthy, so \<^verbatim>\<open>and self.route\<close> asks for a
  route that is not \<^verbatim>\<open>None\<close>.\<close>

definition follow_route :: "int \<times> int \<Rightarrow> entity list \<Rightarrow> entity \<Rightarrow> entity" where
  "follow_route res walls self =
     (case e_route self of
        None \<Rightarrow> self
      | Some route \<Rightarrow>
          if e_on_screen self \<and> e_on_route self then
            if Rect_center (e_rect self) \<noteq> route_coords route then
              let x_dist = of_int (fst (route_coords route)) - e_x self;
                  y_dist = of_int (snd (route_coords route)) - e_y self;
                  x_move = route_step (e_speed self) x_dist;
                  y_move = route_step (e_speed self) y_dist
              in MovableEntity_move res walls self x_move y_move
            else self\<lparr>e_route := route_next route\<rparr>
          else self)"


section \<open>The world: objects and the class-level registries\<close>

text \<open>
  Entities are Python objects, shared between the registries, the lists of their level
  and the closures that captured them: a store \<open>objs\<close> from an entity's id to its
  state. Ids are never reused (\<^verbatim>\<open>Entity.__next_id\<close> only grows), so the id is the
  address. The four registries are the class attributes \<^verbatim>\<open>entities_by_id\<close>,
  \<^verbatim>\<open>walls_by_id\<close>, \<^verbatim>\<open>movable_entities_by_id\<close> and \<^verbatim>\<open>players_by_id\<close>: Python dicts,
  kept as the list of their keys in insertion order, the value of a key being its object
  in the store.

  \<^verbatim>\<open>datetime.datetime.now()\<close> is read from \<open>clock\<close>, the sequence of the instants that
  successive reads return (microseconds); \<open>clock_reads\<close> counts the reads made.
\<close>

record world =
  objs :: "nat \<rightharpoonup> entity"
  entities_by_id :: "nat list"
  walls_by_id :: "nat list"
  movable_entities_by_id :: "nat list"
  players_by_id :: "nat list"
  next_id :: nat
  DISPLAY_RESOLUTION :: "int \<times> int"
  clock :: "nat \<Rightarrow> int"
  clock_reads :: nat

text \<open>The outcome of a piece of code: it finishes, or it raises. Either way the state
  it leaves is kept, since \<^verbatim>\<open>Game.start\<close> carries on after a signal.\<close>

datatype 's outcome = Done 's | Raised exn 's

definition and_then :: "'s outcome \<Rightarrow> ('s \<Rightarrow> 's outcome) \<Rightarrow> 's outcome" where
  "and_then m f = (case m of Done s \<Rightarrow> f s | Raised e s \<Rightarrow> Raised e s)"

text \<open>\<^verbatim>\<open>d[k] = v\<close> and \<^verbatim>\<open>d.pop(k)\<close> on the keys of a dict.\<close>

definition dict_set :: "nat \<Rightarrow> nat list \<Rightarrow> nat list" where
  "dict_set k ks = (if k \<in> set ks then ks else ks @ [k])"

definition dict_pop :: "nat \<Rightarrow> nat list \<Rightarrow> nat list option" where
  "dict_pop k ks = (if k \<in> set ks then Some (removeAll k ks) else None)"

text \<open>\<^verbatim>\<open>d.values()\<close>: the objects of the keys.\<close>

definition dict_values :: "world \<Rightarrow> nat list \<Rightarrow> entity list" where
  "dict_values w ks = List.map_filter (objs w) ks"

definition now :: "world \<Rightarrow> int \<times> world" where
  "now w = (clock w (clock_reads w), w\<lparr>clock_reads := Suc (clock_reads w)\<rparr>)"

text \<open>An assignment to fields of the object \<open>i\<close>. Every id the code holds is the id of
  an object; on any other id the operations below do nothing.\<close>

definition modify :: "nat \<Rightarrow> (entity \<Rightarrow> entity) \<Rightarrow> world \<Rightarrow> world" where
  "modify i f w = (case objs w i of None \<Rightarrow> w | Some self \<Rightarrow> w\<lparr>objs := (objs w)(i \<mapsto> f self)\<rparr>)"

subsection \<open>Constructors\<close>

text \<open>\<^verbatim>\<open>Entity.__init__\<close>: the next id, the registration, the object.\<close>

definition Entity_init ::
  "entity_class \<Rightarrow> real \<Rightarrow> real \<Rightarrow> int \<Rightarrow> int \<Rightarrow> string \<Rightarrow> string option \<Rightarrow> callback option
     \<Rightarrow> world \<Rightarrow> nat \<times> world" where
  "Entity_init c x y width height color img_path frame_callback w =
     (let i = next_id w
      in (i, w\<lparr>objs := (objs w)(i \<mapsto> Entity_new c i x y width height color img_path frame_callback),
               entities_by_id := dict_set i (entities_by_id w),
               next_id := next_id w + 1\<rparr>))"

text \<open>\<^verbatim>\<open>Wall.__init__\<close>\<close>

definition Wall_init ::
  "real \<Rightarrow> real \<Rightarrow> int \<Rightarrow> int \<Rightarrow> string \<Rightarrow> string option \<Rightarrow> callback option
     \<Rightarrow> world \<Rightarrow> nat \<times> world" where
  "Wall_init x y width height color img_path frame_callback w =
     (let (i, w1) = Entity_init Wall x y width height color img_path frame_callback w
      in (i, w1\<lparr>walls_by_id := dict_set i (walls_by_id w1)\<rparr>))"

text \<open>\<^verbatim>\<open>MovableEntity.__init__\<close>, also run for \<^verbatim>\<open>Enemy\<close> and \<^verbatim>\<open>EnemyTouch\<close>, which add
  nothing to it.\<close>

definition MovableEntity_init ::
  "entity_class \<Rightarrow> real \<Rightarrow> real \<Rightarrow> int \<Rightarrow> int \<Rightarrow> string \<Rightarrow> string option \<Rightarrow> callback option
     \<Rightarrow> Route option \<Rightarrow> bool \<Rightarrow> int \<Rightarrow> world \<Rightarrow> nat \<times> world" where
  "MovableEntity_init c x y width height color img_path frame_callback route on_route speed w =
     (let (i, w1) = Entity_init c x y width height color img_path frame_callback w
      in (i, (modify i (\<lambda>self. self\<lparr>e_route := route, e_on_route := on_route, e_speed := speed\<rparr>) w1)
               \<lparr>movable_entities_by_id := dict_set i (movable_entities_by_id w1)\<rparr>))"

text \<open>\<^verbatim>\<open>Player.__init__\<close>: no route, the default speed 10. (The source names the
  first two parameters \<^verbatim>\<open>left\<close> and \<^verbatim>\<open>top\<close> and passes them on as \<open>x\<close> and \<open>y\<close>.)\<close>

definition Player_init ::
  "real \<Rightarrow> real \<Rightarrow> int \<Rightarrow> int \<Rightarrow> string \<Rightarrow> string option \<Rightarrow> callback option
     \<Rightarrow> world \<Rightarrow> nat \<times> world" where
  "Player_init x y width height color img_path frame_callback w =
     (let (i, w1) = MovableEntity_init Player x y width height color img_path frame_callback
                      None False 10 w
      in (i, w1\<lparr>players_by_id := dict_set i (players_by_id w1)\<rparr>))"

subsection \<open>\<^verbatim>\<open>clear\<close>\<close>

text \<open>\<^verbatim>\<open>Entity.clear\<close>: \<^verbatim>\<open>pop\<close> raises \<^verbatim>\<open>KeyError\<close> on an id that is not registered.\<close>

definition Entity_clear :: "entity \<Rightarrow> world \<Rightarrow> world outcome" where
  "Entity_clear self w =
     (case dict_pop (e_id self) (entities_by_id w) of
        None \<Rightarrow> Raised KeyError w
      | Some ks \<Rightarrow> Done (modify (e_id self) (\<lambda>s. s\<lparr>e_alive := False\<rparr>) (w\<lparr>entities_by_id := ks\<rparr>)))"

definition Wall_clear :: "entity \<Rightarrow> world \<Rightarrow> world outcome" where
  "Wall_clear self w =
     (case dict_pop (e_id self) (walls_by_id w) of
        None \<Rightarrow> Raised KeyError w
      | Some ks \<Rightarrow> Entity_clear self (w\<lparr>walls_by_id := ks\<rparr>))"

definition MovableEntity_clear :: "entity \<Rightarrow> world \<Rightarrow> world outcome" where
  "MovableEntity_clear self w =
     (case dict_pop (e_id self) (movable_entities_by_id w) of
        None \<Rightarrow> Raised KeyError w
      | Some ks \<Rightarrow> Entity_clear self (w\<lparr>movable_entities_by_id := ks\<rparr>))"

definition Player_clear :: "entity \<Rightarrow> world \<Rightarrow> world outcome" where
  "Player_clear self w =
     (case dict_pop (e_id self) (players_by_id w) of
        None \<Rightarrow> Raised KeyError w
      | Some ks \<Rightarrow> MovableEntity_clear self (w\<lparr>players_by_id := ks\<rparr>))"

text \<open>\<^verbatim>\<open>obj.clear()\<close> on the object \<open>i\<close>: the method of its class.\<close>

definition clear :: "nat \<Rightarrow> world \<Rightarrow> world outcome" where
  "clear i w =
     (case objs w i of
        None \<Rightarrow> Raised AttributeError w
      | Some self \<Rightarrow>
          (case e_cls self of
             Entity \<Rightarrow> Entity_clear self w
           | Wall \<Rightarrow> Wall_clear self w
           | Player \<Rightarrow> Player_clear self w
           | _ \<Rightarrow> MovableEntity_clear self w))"

text \<open>\<^verbatim>\<open>for obj in objs: obj.clear()\<close>\<close>

fun clear_each :: "nat list \<Rightarrow> world \<Rightarrow> world outcome" where
  "clear_each [] w = Done w"
| "clear_each (i # is) w = and_then (clear i w) (clear_each is)"


section \<open>Levels\<close>

datatype level_class = Level1 | Level2 | WinMap

text \<open>A level object: its player, its walls, its other entities (ids) and its
  \<^verbatim>\<open>on_screen\<close> flag; the win map has a title only.\<close>

datatype level =
    Level1_obj (l_player: nat) (l_walls: "nat list") (l_entities: "nat list") (l_on_screen: bool)
  | Level2_obj (l_player: nat) (l_walls: "nat list") (l_entities: "nat list") (l_on_screen: bool)
  | WinMap_obj (l_title: nat) (l_on_screen: bool)

text \<open>The ids of the entities a level owns, in the order \<^verbatim>\<open>clear\<close> visits them.\<close>

fun level_ids :: "level \<Rightarrow> nat list" where
  "level_ids (Level1_obj player walls entities _) = player # walls @ entities"
| "level_ids (Level2_obj player walls entities _) = player # walls @ entities"
| "level_ids (WinMap_obj title _) = [title]"

text \<open>The patrol of the enemy: \<open>(810, 202)\<close>, then \<open>(810, 500)\<close>, then the first node
  again. \<open>patrol False\<close> is \<^verbatim>\<open>start_route\<close>.\<close>

primcorec patrol :: "bool \<Rightarrow> Route" where
  "patrol far = Route (if far then (810, 500) else (810, 202)) (Some (patrol (\<not> far)))"

text \<open>A list display of \<^verbatim>\<open>Wall(x, y, width, height, color)\<close> calls, evaluated from the
  left.\<close>

fun Wall_list :: "(real \<times> real \<times> int \<times> int \<times> string) list \<Rightarrow> world \<Rightarrow> nat list \<times> world" where
  "Wall_list [] w = ([], w)"
| "Wall_list ((x, y, width, height, color) # rest) w =
     (let (i, w1) = Wall_init x y width height color None None w;
          (ids, w2) = Wall_list rest w1
      in (i # ids, w2))"

text \<open>\<^verbatim>\<open>create_walls\<close> and \<^verbatim>\<open>create_player\<close> are the same code in both levels.\<close>

definition create_walls :: "world \<Rightarrow> nat list \<times> world" where
  "create_walls w =
     Wall_list [(102, 250, 5, 400, ''black''), (500, 602, 800, 5, ''black''),
                (902, 327, 5, 555, ''black''), (500, 52, 800, 5, ''black''),
                (400, 452, 600, 5, ''black''), (702, 125, 5, 150, ''black''),
                (702, 402, 5, 105, ''black'')] w"

definition create_player :: "world \<Rightarrow> nat \<times> world" where
  "create_player w = Player_init 10 10 40 30 ''black'' (Some ''../assets/red_ball.png'') None w"

definition create_enemy :: "world \<Rightarrow> nat \<times> world" where
  "create_enemy w =
     MovableEntity_init EnemyTouch 810 202 120 105 ''black'' (Some ''../assets/monster_3.png'') None
       (Some (patrol False)) True 5 w"

definition create_key :: "nat \<Rightarrow> nat \<Rightarrow> nat \<Rightarrow> world \<Rightarrow> nat \<times> world" where
  "create_key player door door_opened w =
     Entity_init Entity 795 105 50 50 ''black'' (Some ''../assets/key.png'')
       (Some (KeyFrame player door door_opened)) w"

definition create_graal :: "nat \<Rightarrow> exn \<Rightarrow> world \<Rightarrow> nat \<times> world" where
  "create_graal player signal w =
     Entity_init Entity 400 300 100 100 ''black'' (Some ''../assets/graal.png'')
       (Some (GraalFrame player signal)) w"

text \<open>\<^verbatim>\<open>create_enemy2\<close> of level 2: the spikes, with the default speed and no route,
  stamped with the time and hidden. The closure refers to the spikes by the variable
  that receives the new object, whose id is the next one.\<close>

definition create_enemy2 :: "world \<Rightarrow> nat \<times> world" where
  "create_enemy2 w =
     (let (spikes, w1) = MovableEntity_init EnemyTouch 600 530 200 200 ''black''
                           (Some ''../assets/spikes.png'') (Some (SpikesFrame (next_id w)))
                           None False 10 w;
          (t, w2) = now w1;
          w3 = modify spikes (\<lambda>s. s\<lparr>e_last_active := Some t\<rparr>) w2
      in (spikes, modify spikes Entity_hide w3))"

text \<open>\<^verbatim>\<open>Level1.create_entities\<close>: the two doors are built first, the list display then
  builds the enemy, the key and the graal.\<close>

definition Level1_create_entities :: "nat \<Rightarrow> world \<Rightarrow> nat list \<times> world" where
  "Level1_create_entities player w =
     (let (door, w1) = Wall_init 702 272 5 145 ''brown'' None None w;
          (door_opened, w2) = Wall_init 627 202 145 5 ''brown'' None None w1;
          w3 = modify door_opened Entity_hide w2;
          (enemy, w4) = create_enemy w3;
          (key, w5) = create_key player door door_opened w4;
          (graal, w6) = create_graal player NextLevel w5
      in ([enemy, door, door_opened, key, graal], w6))"

definition Level2_create_entities :: "nat \<Rightarrow> world \<Rightarrow> nat list \<times> world" where
  "Level2_create_entities player w =
     (let (door, w1) = Wall_init 702 272 5 145 ''brown'' None None w;
          (door_opened, w2) = Wall_init 627 202 145 5 ''brown'' None None w1;
          w3 = modify door_opened Entity_hide w2;
          (enemy, w4) = create_enemy w3;
          (enemy2, w5) = create_enemy2 w4;
          (key, w6) = create_key player door door_opened w5;
          (graal, w7) = create_graal player Win w6
      in ([enemy, enemy2, door, door_opened, key, graal], w7))"

text \<open>The constructors of the three level classes. The class attribute \<^verbatim>\<open>on_screen\<close>
  is \<^verbatim>\<open>True\<close> for the two levels and \<^verbatim>\<open>False\<close> for the win map.\<close>

definition Level1_init :: "world \<Rightarrow> level \<times> world" where
  "Level1_init w =
     (let (player, w1) = create_player w;
          (walls, w2) = create_walls w1;
          (entities, w3) = Level1_create_entities player w2
      in (Level1_obj player walls entities True, w3))"

definition Level2_init :: "world \<Rightarrow> level \<times> world" where
  "Level2_init w =
     (let (player, w1) = create_player w;
          (walls, w2) = create_walls w1;
          (entities, w3) = Level2_create_entities player w2
      in (Level2_obj player walls entities True, w3))"

definition WinMap_init :: "world \<Rightarrow> level \<times> world" where
  "WinMap_init w =
     (let (title, w1) = Entity_init Entity (of_int (fst (DISPLAY_RESOLUTION w) div 2))
                          (of_int (snd (DISPLAY_RESOLUTION w) div 2)) 1280 720 ''black''
                          (Some ''../assets/win.png'') None w
      in (WinMap_obj title False, w1))"

fun construct :: "level_class \<Rightarrow> world \<Rightarrow> level \<times> world" where
  "construct Level1 w = Level1_init w"
| "construct Level2 w = Level2_init w"
| "construct WinMap w = WinMap_init w"

text \<open>\<^verbatim>\<open>clear\<close> of a level: the player, every wall, every other entity;
  \<^verbatim>\<open>WinMap.clear\<close>: the title.\<close>

fun Level_clear :: "level \<Rightarrow> world \<Rightarrow> world outcome" where
  "Level_clear (Level1_obj player walls entities _) w =
     and_then (clear player w) (\<lambda>w1. and_then (clear_each walls w1) (clear_each entities))"
| "Level_clear (Level2_obj player walls entities _) w =
     and_then (clear player w) (\<lambda>w1. and_then (clear_each walls w1) (clear_each entities))"
| "Level_clear (WinMap_obj title _) w = clear title w"

fun set_on_screen :: "bool \<Rightarrow> level \<Rightarrow> level" where
  "set_on_screen b (Level1_obj player walls entities _) = Level1_obj player walls entities b"
| "set_on_screen b (Level2_obj player walls entities _) = Level2_obj player walls entities b"
| "set_on_screen b (WinMap_obj title _) = WinMap_obj title b"

text \<open>Drawing. The display surface is the list of what was drawn on it since it was
  last filled: an image blitted at a rectangle, or a rectangle in a colour.\<close>

datatype draw = Blit string Rect | DrawRect string Rect

text \<open>\<^verbatim>\<open>Entity.show\<close>\<close>

definition Entity_show :: "entity \<Rightarrow> draw list \<Rightarrow> draw list" where
  "Entity_show self scr =
     (if \<not> e_on_screen self then scr
      else case e_img self of
             Some img \<Rightarrow> scr @ [Blit img (e_rect self)]
           | None \<Rightarrow> scr @ [DrawRect (e_color self) (e_rect self)])"

fun show_each :: "entity list \<Rightarrow> draw list \<Rightarrow> draw list" where
  "show_each [] scr = scr"
| "show_each (e # es) scr = show_each es (Entity_show e scr)"

text \<open>\<^verbatim>\<open>show\<close> of a level: nothing when the level is hidden; else the player, the
  walls, the other entities.\<close>

fun Level_show :: "level \<Rightarrow> world \<Rightarrow> draw list \<Rightarrow> draw list" where
  "Level_show (Level1_obj player walls entities on) w scr =
     (if \<not> on then scr
      else show_each (dict_values w entities) (show_each (dict_values w walls)
             (show_each (dict_values w [player]) scr)))"
| "Level_show (Level2_obj player walls entities on) w scr =
     (if \<not> on then scr
      else show_each (dict_values w entities) (show_each (dict_values w walls)
             (show_each (dict_values w [player]) scr)))"
| "Level_show (WinMap_obj title on) w scr =
     (if \<not> on then scr else show_each (dict_values w [title]) scr)"


section \<open>The tick of an entity: \<^verbatim>\<open>frame\<close>\<close>

text \<open>The bodies of the four closures. Each reads the clock or the rectangles when it
  runs. The spikes' callback compares \<^verbatim>\<open>now() - enemy._last_active\<close> with two and with
  one second; an object without \<^verbatim>\<open>_last_active\<close> raises \<^verbatim>\<open>AttributeError\<close>.\<close>

definition run_callback :: "callback \<Rightarrow> nat \<Rightarrow> world \<Rightarrow> world outcome" where
  "run_callback cb i w =
     (case cb of
        KeyFrame player door door_opened \<Rightarrow>
          (case (objs w i, objs w player) of
             (Some key, Some pl) \<Rightarrow>
               if colliderect (e_rect key) (e_rect pl)
               then Done (modify door_opened (\<lambda>s. s\<lparr>e_on_screen := True\<rparr>)
                           (modify door Entity_hide (modify i Entity_hide w)))
               else Done w
           | _ \<Rightarrow> Done w)
      | GraalFrame player signal \<Rightarrow>
          (case (objs w i, objs w player) of
             (Some graal, Some pl) \<Rightarrow>
               if colliderect (e_rect graal) (e_rect pl) then Raised signal w else Done w
           | _ \<Rightarrow> Done w)
      | SpikesFrame spikes \<Rightarrow>
          (let (t1, w1) = now w
           in case objs w1 i of
                None \<Rightarrow> Done w1
              | Some enemy \<Rightarrow>
                  (case e_last_active enemy of
                     None \<Rightarrow> Raised AttributeError w1
                   | Some last_active \<Rightarrow>
                       if t1 - last_active > 2000000 then
                         (let w2 = modify spikes Entity_hide w1;
                              (t2, w3) = now w2
                          in Done (modify i (\<lambda>s. s\<lparr>e_last_active := Some t2\<rparr>) w3))
                       else
                         (let (t3, w2) = now w1
                          in if t3 - last_active > 1000000
                             then Done (modify spikes (\<lambda>s. s\<lparr>e_on_screen := True\<rparr>) w2)
                             else Done w2))))"

text \<open>\<^verbatim>\<open>Entity.frame\<close>\<close>

definition Entity_frame :: "nat \<Rightarrow> world \<Rightarrow> world outcome" where
  "Entity_frame i w =
     (case objs w i of
        None \<Rightarrow> Done w
      | Some self \<Rightarrow>
          (case e_frame_callback self of
             Some cb \<Rightarrow> if e_alive self then run_callback cb i w else Done w
           | None \<Rightarrow> Done w))"

text \<open>\<^verbatim>\<open>MovableEntity.frame\<close>: the route logic, with the walls of the registry, then
  \<^verbatim>\<open>Entity.frame\<close>.\<close>

definition MovableEntity_frame :: "nat \<Rightarrow> world \<Rightarrow> world outcome" where
  "MovableEntity_frame i w =
     Entity_frame i
       (modify i (follow_route (DISPLAY_RESOLUTION w) (dict_values w (walls_by_id w))) w)"

text \<open>The loop of \<^verbatim>\<open>EnemyTouch.frame\<close> over the players of the registry.\<close>

fun touches :: "entity \<Rightarrow> entity list \<Rightarrow> bool" where
  "touches self [] = False"
| "touches self (player # players) =
     (if colliderect (e_rect self) (e_rect player) then True else touches self players)"

text \<open>\<^verbatim>\<open>EnemyTouch.frame\<close>\<close>

definition EnemyTouch_frame :: "nat \<Rightarrow> world \<Rightarrow> world outcome" where
  "EnemyTouch_frame i w =
     (case objs w i of
        None \<Rightarrow> Done w
      | Some self \<Rightarrow>
          if e_on_screen self \<and> touches self (dict_values w (players_by_id w))
          then Raised GameOver w
          else MovableEntity_frame i w)"

text \<open>\<^verbatim>\<open>Player.handle_keyboard\<close> and \<^verbatim>\<open>Player.frame\<close>\<close>

definition handle_keyboard :: "keys \<Rightarrow> nat \<Rightarrow> world \<Rightarrow> world" where
  "handle_keyboard ks i w =
     modify i (\<lambda>self. if e_on_screen self
                       then MovableEntity_move (DISPLAY_RESOLUTION w) (dict_values w (walls_by_id w))
                              self (fst (keyboard_step (e_speed self) ks))
                              (snd (keyboard_step (e_speed self) ks))
                       else self) w"

definition Player_frame :: "keys \<Rightarrow> nat \<Rightarrow> world \<Rightarrow> world outcome" where
  "Player_frame ks i w = MovableEntity_frame i (handle_keyboard ks i w)"

text \<open>\<^verbatim>\<open>entity.frame()\<close>: the method of the object's class.\<close>

definition frame :: "keys \<Rightarrow> nat \<Rightarrow> world \<Rightarrow> world outcome" where
  "frame ks i w =
     (case objs w i of
        None \<Rightarrow> Done w
      | Some self \<Rightarrow>
          (case e_cls self of
             Entity \<Rightarrow> Entity_frame i w
           | Wall \<Rightarrow> Entity_frame i w
           | MovableEntity \<Rightarrow> MovableEntity_frame i w
           | Enemy \<Rightarrow> MovableEntity_frame i w
           | EnemyTouch \<Rightarrow> EnemyTouch_frame i w
           | Player \<Rightarrow> Player_frame ks i w))"

text \<open>The loop of \<^verbatim>\<open>Game._handle_entities\<close>: an exception leaves it at once.\<close>

fun frame_each :: "keys \<Rightarrow> nat list \<Rightarrow> world \<Rightarrow> world outcome" where
  "frame_each ks [] w = Done w"
| "frame_each ks (i # ids) w = and_then (frame ks i w) (frame_each ks ids)"

definition handle_entities :: "keys \<Rightarrow> world \<Rightarrow> world outcome" where
  "handle_entities ks w = frame_each ks (entities_by_id w) w"


section \<open>The game\<close>

text \<open>
  What a cell of \<^verbatim>\<open>Game.levels\<close> can hold: a level object, one of the three
  classes, or, since \<^verbatim>\<open>_go_to_level\<close> stores \<^verbatim>\<open>type(...)\<close> of a cell, the metaclass
  \<^verbatim>\<open>ABCMeta\<close> of those classes (they derive from \<^verbatim>\<open>abc.ABC\<close>) or \<^verbatim>\<open>type\<close>, the class
  of \<^verbatim>\<open>ABCMeta\<close>.
\<close>

datatype slot = Instance level | Class level_class | ABCMeta | TypeType

record Game =
  current_level :: nat
  levels :: "slot list"
  screen :: "draw list"
  win_time :: "int option"

fun class_of :: "level \<Rightarrow> level_class" where
  "class_of (Level1_obj _ _ _ _) = Level1"
| "class_of (Level2_obj _ _ _ _) = Level2"
| "class_of (WinMap_obj _ _) = WinMap"

text \<open>Python's \<^verbatim>\<open>type(obj)\<close>\<close>

fun type_of :: "slot \<Rightarrow> slot" where
  "type_of (Instance lv) = Class (class_of lv)"
| "type_of (Class _) = ABCMeta"
| "type_of ABCMeta = TypeType"
| "type_of TypeType = TypeType"

text \<open>\<^verbatim>\<open>xs[n]\<close>, with its \<^verbatim>\<open>IndexError\<close>\<close>

definition getitem :: "'a list \<Rightarrow> nat \<Rightarrow> 'a option" where
  "getitem xs n = (if n < length xs then Some (xs ! n) else None)"

text \<open>\<^verbatim>\<open>Game.__init__\<close>, run in the world \<open>w\<close> (the registries as they are when the
  game is made: empty, for the program of \<^verbatim>\<open>main.py\<close>).\<close>

definition Game_init :: "world \<Rightarrow> world \<times> Game" where
  "Game_init w =
     (let (lv, w1) = Level1_init w
      in (w1, \<lparr>current_level = 1,
                levels = [Instance lv, Class Level2, Class WinMap],
                screen = [],
                win_time = None\<rparr>))"

definition empty_world :: "int \<times> int \<Rightarrow> (nat \<Rightarrow> int) \<Rightarrow> world" where
  "empty_world res clk =
     \<lparr>objs = Map.empty, entities_by_id = [], walls_by_id = [], movable_entities_by_id = [],
      players_by_id = [], next_id = 0, DISPLAY_RESOLUTION = res, clock = clk, clock_reads = 0\<rparr>"

text \<open>The lines of \<^verbatim>\<open>_go_to_level\<close>, one definition each. A method called on a class
  lacks its \<^verbatim>\<open>self\<close> (\<^verbatim>\<open>TypeError\<close>); \<^verbatim>\<open>ABCMeta\<close> and \<^verbatim>\<open>type\<close> have no such method
  (\<^verbatim>\<open>AttributeError\<close>).\<close>

definition clear_current :: "world \<times> Game \<Rightarrow> (world \<times> Game) outcome" where
  "clear_current s =
     (case s of (w, g) \<Rightarrow>
        (case getitem (levels g) (current_level g) of
           None \<Rightarrow> Raised IndexError s
         | Some (Instance lv) \<Rightarrow>
             (case Level_clear lv w of
                Done w1 \<Rightarrow> Done (w1, g)
              | Raised e w1 \<Rightarrow> Raised e (w1, g))
         | Some (Class _) \<Rightarrow> Raised TypeError s
         | Some _ \<Rightarrow> Raised AttributeError s))"

definition hide_current :: "world \<times> Game \<Rightarrow> (world \<times> Game) outcome" where
  "hide_current s =
     (case s of (w, g) \<Rightarrow>
        (case getitem (levels g) (current_level g) of
           None \<Rightarrow> Raised IndexError s
         | Some (Instance lv) \<Rightarrow>
             Done (w, g\<lparr>levels := (levels g)[current_level g := Instance (set_on_screen False lv)]\<rparr>)
         | Some (Class _) \<Rightarrow> Raised TypeError s
         | Some _ \<Rightarrow> Raised AttributeError s))"

text \<open>\<^verbatim>\<open>self.levels[self.current_level] = type(self.levels[level])\<close> and
  \<^verbatim>\<open>self.current_level = level\<close>\<close>

definition retype_current :: "nat \<Rightarrow> world \<times> Game \<Rightarrow> (world \<times> Game) outcome" where
  "retype_current level s =
     (case s of (w, g) \<Rightarrow>
        (case getitem (levels g) level of
           None \<Rightarrow> Raised IndexError s
         | Some sl \<Rightarrow>
             if current_level g < length (levels g)
             then Done (w, g\<lparr>levels := (levels g)[current_level g := type_of sl],
                             current_level := level\<rparr>)
             else Raised IndexError s))"

text \<open>\<^verbatim>\<open>_init_level\<close>: the cell is called. Only a class can be called with no
  argument; an instance is not callable, and \<^verbatim>\<open>ABCMeta()\<close> and \<^verbatim>\<open>type()\<close> want
  arguments.\<close>

definition init_level :: "nat \<Rightarrow> world \<times> Game \<Rightarrow> (world \<times> Game) outcome" where
  "init_level level s =
     (case s of (w, g) \<Rightarrow>
        (case getitem (levels g) level of
           None \<Rightarrow> Raised IndexError s
         | Some (Class c) \<Rightarrow>
             (let (lv, w1) = construct c w
              in Done (w1, g\<lparr>levels := (levels g)[level := Instance lv]\<rparr>))
         | Some _ \<Rightarrow> Raised TypeError s))"

text \<open>\<^verbatim>\<open>self.levels[level].on_screen = True\<close>; the cell holds the object that
  \<^verbatim>\<open>_init_level\<close> has just stored.\<close>

definition show_level :: "nat \<Rightarrow> world \<times> Game \<Rightarrow> (world \<times> Game) outcome" where
  "show_level level s =
     (case s of (w, g) \<Rightarrow>
        (case getitem (levels g) level of
           None \<Rightarrow> Raised IndexError s
         | Some (Instance lv) \<Rightarrow>
             Done (w, g\<lparr>levels := (levels g)[level := Instance (set_on_screen True lv)]\<rparr>)
         | Some _ \<Rightarrow> Done s))"

text \<open>\<^verbatim>\<open>_go_to_level\<close> in two halves: leaving the current level (lines 131 to 134),
  entering the new one (lines 135 and 136).\<close>

definition leave_level :: "nat \<Rightarrow> world \<times> Game \<Rightarrow> (world \<times> Game) outcome" where
  "leave_level level s =
     and_then (clear_current s) (\<lambda>s1. and_then (hide_current s1) (retype_current level))"

definition enter_level :: "world \<times> Game \<Rightarrow> (world \<times> Game) outcome" where
  "enter_level s =
     and_then (init_level (current_level (snd s)) s) (show_level (current_level (snd s)))"

definition go_to_level :: "nat \<Rightarrow> world \<times> Game \<Rightarrow> (world \<times> Game) outcome" where
  "go_to_level level s = and_then (leave_level level s) enter_level"

text \<open>\<^verbatim>\<open>self.levels[self.current_level].show(self.screen)\<close>\<close>

definition show_current :: "world \<times> Game \<Rightarrow> (world \<times> Game) outcome" where
  "show_current s =
     (case s of (w, g) \<Rightarrow>
        (case getitem (levels g) (current_level g) of
           None \<Rightarrow> Raised IndexError s
         | Some (Instance lv) \<Rightarrow> Done (w, g\<lparr>screen := Level_show lv w (screen g)\<rparr>)
         | Some (Class _) \<Rightarrow> Raised TypeError s
         | Some _ \<Rightarrow> Raised AttributeError s))"

text \<open>\<^verbatim>\<open>Game.frame\<close>\<close>

definition Game_frame :: "keys \<Rightarrow> world \<times> Game \<Rightarrow> (world \<times> Game) outcome" where
  "Game_frame ks s =
     (case s of (w, g) \<Rightarrow>
        (case handle_entities ks w of
           Raised e w1 \<Rightarrow> Raised e (w1, g)
         | Done w1 \<Rightarrow> show_current (w1, g)))"

text \<open>The three handlers of \<^verbatim>\<open>Game.start\<close>; any other exception goes on.\<close>

definition handle_signal :: "exn \<Rightarrow> world \<times> Game \<Rightarrow> (world \<times> Game) outcome" where
  "handle_signal e s =
     (case e of
        GameOver \<Rightarrow> go_to_level (current_level (snd s)) s
      | NextLevel \<Rightarrow> go_to_level (current_level (snd s) + 1) s
      | Win \<Rightarrow>
          and_then (go_to_level (length (levels (snd s)) - 1) s)
            (\<lambda>(w, g). let (t, w1) = now w in Done (w1, g\<lparr>win_time := Some t\<rparr>))
      | _ \<Rightarrow> Raised e s)"

text \<open>One pass of the \<^verbatim>\<open>while True\<close> of \<^verbatim>\<open>Game.start\<close>. \<open>quit\<close> says whether the events
  of this pass hold a \<^verbatim>\<open>QUIT\<close>; \<open>ks\<close> are the keys held down. Ten seconds are
  10000000 microseconds. The flips of the display and the waits of the frame clock
  change nothing that the game reads.\<close>

definition start_pass :: "bool \<Rightarrow> keys \<Rightarrow> world \<times> Game \<Rightarrow> (world \<times> Game) outcome" where
  "start_pass quit ks s =
     (if quit then Raised SystemExit s
      else case s of (w, g0) \<Rightarrow>
        (let g = g0\<lparr>screen := []\<rparr>
         in case win_time g of
              Some since \<Rightarrow>
                (let (t, w1) = now w
                 in and_then
                      (if t - since > 10000000
                       then go_to_level 0 (w1, g\<lparr>win_time := None\<rparr>)
                       else Done (w1, g))
                      show_current)
            | None \<Rightarrow>
                (case Game_frame ks (w, g) of
                   Done s1 \<Rightarrow> Done s1
                 | Raised e s1 \<Rightarrow> handle_signal e s1)))"

section \<open>Predicates for stating properties\<close>

text \<open>The cells of \<^verbatim>\<open>Game.levels\<close> that hold a level object, and the invariant of the
  game: the one such cell is the current one.\<close>

fun is_Instance :: "slot \<Rightarrow> bool" where
  "is_Instance (Instance _) = True"
| "is_Instance _ = False"

definition live_indices :: "Game \<Rightarrow> nat list" where
  "live_indices g = filter (\<lambda>n. is_Instance (levels g ! n)) [0..<length (levels g)]"

definition one_live :: "Game \<Rightarrow> bool" where
  "one_live g \<longleftrightarrow> live_indices g = [current_level g]"


text \<open>An entity is gone from the registries of a world: its id is no key of the
  registry of all entities, nor of the registries its class enters it in.\<close>

definition gone :: "world \<Rightarrow> entity \<Rightarrow> bool" where
  "gone w e \<longleftrightarrow>
     e_id e \<notin> set (entities_by_id w) \<and>
     (e_cls e = Wall \<longrightarrow> e_id e \<notin> set (walls_by_id w)) \<and>
     (e_cls e \<in> {MovableEntity, Enemy, EnemyTouch, Player} \<longrightarrow>
        e_id e \<notin> set (movable_entities_by_id w)) \<and>
     (e_cls e = Player \<longrightarrow> e_id e \<notin> set (players_by_id w))"

text \<open>From \<open>w\<close> to \<open>w'\<close> the registries lost keys at most, no id was handed out, and
  every object kept its id and its class.\<close>

definition shrinks :: "world \<Rightarrow> world \<Rightarrow> bool" where
  "shrinks w w' \<longleftrightarrow>
     next_id w' = next_id w \<and>
     set (entities_by_id w') \<subseteq> set (entities_by_id w) \<and>
     set (walls_by_id w') \<subseteq> set (walls_by_id w) \<and>
     set (movable_entities_by_id w') \<subseteq> set (movable_entities_by_id w) \<and>
     set (players_by_id w') \<subseteq> set (players_by_id w) \<and>
     (\<forall>j. map_option e_id (objs w' j) = map_option e_id (objs w j)) \<and>
     (\<forall>j. map_option e_cls (objs w' j) = map_option e_cls (objs w j))"

text \<open>From \<open>w\<close> to \<open>w'\<close> objects were made at most: the objects that existed are as
  they were, the counter of ids did not go back, and every new key of a registry is a
  new id.\<close>

definition grows :: "world \<Rightarrow> world \<Rightarrow> bool" where
  "grows w w' \<longleftrightarrow>
     next_id w \<le> next_id w' \<and>
     (\<forall>j<next_id w. objs w' j = objs w j) \<and>
     set (entities_by_id w') \<subseteq> set (entities_by_id w) \<union> {next_id w..<next_id w'} \<and>
     set (walls_by_id w') \<subseteq> set (walls_by_id w) \<union> {next_id w..<next_id w'} \<and>
     set (movable_entities_by_id w') \<subseteq> set (movable_entities_by_id w) \<union> {next_id w..<next_id w'} \<and>
     set (players_by_id w') \<subseteq> set (players_by_id w) \<union> {next_id w..<next_id w'}"

text \<open>The object \<open>i\<close> is registered: it carries its id, and the id is a key of the
  registry of all entities and of the registries of its class.\<close>

definition registered :: "world \<Rightarrow> nat \<Rightarrow> bool" where
  "registered w i \<longleftrightarrow>
     (case objs w i of
        None \<Rightarrow> False
      | Some e \<Rightarrow>
          e_id e = i \<and> i \<in> set (entities_by_id w) \<and>
          (if e_cls e = Wall then i \<in> set (walls_by_id w) else True) \<and>
          (if e_cls e \<in> {MovableEntity, Enemy, EnemyTouch, Player}
           then i \<in> set (movable_entities_by_id w) else True) \<and>
          (if e_cls e = Player then i \<in> set (players_by_id w) else True))"

text \<open>From \<open>w\<close> to \<open>w'\<close> the objects \<open>ids\<close> were made, all registered in \<open>w'\<close>, and the
  objects registered before still are.\<close>

definition made :: "world \<Rightarrow> nat list \<Rightarrow> world \<Rightarrow> bool" where
  "made w ids w' \<longleftrightarrow>
     next_id w \<le> next_id w' \<and> distinct ids \<and>
     list_all (\<lambda>i. next_id w \<le> i \<and> i < next_id w' \<and> registered w' i) ids \<and>
     (\<forall>j<next_id w. registered w j \<longrightarrow> registered w' j)"

text \<open>The entities a level owns are distinct objects that were handed their ids and are
  registered: the state of a level between its construction and its \<^verbatim>\<open>clear\<close>.\<close>

definition owned_live :: "world \<Rightarrow> level \<Rightarrow> bool" where
  "owned_live w lv \<longleftrightarrow>
     distinct (level_ids lv) \<and>
     list_all (\<lambda>i. i < next_id w \<and> registered w i) (level_ids lv)"


text \<open>A cell that holds a class is the only kind \<^verbatim>\<open>_init_level\<close> can call. What
  \<^verbatim>\<open>Game.__init__\<close> sets up and every pass of the loop keeps: the list has its three
  cells; while the game is at another cell, cell 0 holds no class; and while the win
  hold lasts, the game is at cell 2.\<close>

fun is_Class :: "slot \<Rightarrow> bool" where
  "is_Class (Class _) = True"
| "is_Class _ = False"

definition no_way_back :: "Game \<Rightarrow> bool" where
  "no_way_back g \<longleftrightarrow>
     length (levels g) = 3 \<and>
     (current_level g \<noteq> 0 \<longrightarrow> \<not> is_Class (levels g ! 0)) \<and>
     (win_time g \<noteq> None \<longrightarrow> current_level g = 2)"


section \<open>Facts about the movement resolver\<close>

lemmas entity_eval = Entity_new_def MovableEntity_new_def Entity_left_def Entity_top_def
  Rect_new_def Rect_set_center_def Rect_move_def pg_int_def c_int_def Entity_hide_def
  clamped_def clamp_x_def clamp_y_def trial_rect_def colliderect_def is_collide_def
  within_display_def try_move_def

text \<open>The loop over the walls finds a wall exactly when a visible wall collides.\<close>

lemma hits_wall_iff:
  "hits_wall walls self \<longleftrightarrow>
     (\<exists>wall\<in>set walls. e_on_screen wall \<and> colliderect (e_rect wall) (e_rect self))"
  by (induction walls) (auto simp: is_collide_def)

lemma try_move_rejected:
  assumes "hits_wall walls (self\<lparr>e_rect := Rect_move (e_rect self) x y\<rparr>)"
  shows "try_move walls self x y = self"
  using assms by (simp add: try_move_def Let_def)

lemma try_move_committed:
  assumes "\<not> hits_wall walls (self\<lparr>e_rect := Rect_move (e_rect self) x y\<rparr>)"
  shows "try_move walls self x y =
           self\<lparr>e_rect := Rect_move (e_rect self) x y, e_x := e_x self + x, e_y := e_y self + y\<rparr>"
  using assms by (simp add: try_move_def Let_def)

lemma move_try_move:
  "e_on_screen self \<Longrightarrow>
     MovableEntity_move res walls self x y =
       try_move walls self (fst (clamped res self x y)) (snd (clamped res self x y))"
  by (simp add: MovableEntity_move_def split_beta)

lemma move_hidden: "\<not> e_on_screen self \<Longrightarrow> MovableEntity_move res walls self x y = self"
  by (simp add: MovableEntity_move_def)


section \<open>Claims about movement\<close>

text \<open>
  Claim C1, as stated. For every entity that is on screen and every displacement: if
  the trial rectangle intersects the rectangle of any wall of the wall registry, the
  move is rejected, leaving the rectangle and the position fields as they were. This
  fails on a wall that is registered but hidden: \<^verbatim>\<open>is_collide\<close> of a hidden wall answers
  \<^verbatim>\<open>False\<close>. The instance is the opened door of the levels, \<^verbatim>\<open>Wall(627, 202, 145, 5)\<close>
  after \<^verbatim>\<open>hide()\<close>, and a player of size 40 by 30 at \<open>(627, 180)\<close> stepping 10 down, in
  a display of 1280 by 720: the trial rectangle overlaps the wall, and the player ends
  at \<open>y = 190\<close>.
\<close>

theorem move_through_hidden_wall_counterexample:
  "\<not> (\<forall>res walls self x y.
        e_on_screen self \<longrightarrow>
        (\<exists>wall\<in>set walls. colliderect (e_rect wall) (trial_rect res self x y)) \<longrightarrow>
        e_rect (MovableEntity_move res walls self x y) = e_rect self \<and>
        e_x (MovableEntity_move res walls self x y) = e_x self \<and>
        e_y (MovableEntity_move res walls self x y) = e_y self)"
proof
  assume claim: "\<forall>res walls self x y.
        e_on_screen self \<longrightarrow>
        (\<exists>wall\<in>set walls. colliderect (e_rect wall) (trial_rect res self x y)) \<longrightarrow>
        e_rect (MovableEntity_move res walls self x y) = e_rect self \<and>
        e_x (MovableEntity_move res walls self x y) = e_x self \<and>
        e_y (MovableEntity_move res walls self x y) = e_y self"
  let ?door_opened = "Entity_hide (Entity_new Wall 9 627 202 145 5 ''brown'' None None)"
  let ?player = "MovableEntity_new Player 0 627 180 40 30 ''black''
                   (Some ''../assets/red_ball.png'') None None False 10"
  have visible: "e_on_screen ?player"
    by (simp add: entity_eval)
  have overlap: "\<exists>wall\<in>set [?door_opened].
                   colliderect (e_rect wall) (trial_rect (1280, 720) ?player 0 10)"
    by (simp add: entity_eval Let_def)
  from claim visible overlap
  have "e_y (MovableEntity_move (1280, 720) [?door_opened] ?player 0 10) = e_y ?player"
    by blast
  then show False
    by (simp add: MovableEntity_move_def entity_eval Let_def)
qed

text \<open>
  Claim C1, amended. For every entity that is on screen and every displacement: if the
  trial rectangle (the rectangle shifted by the displacement, clamped when the entity
  is kept on screen) collides with the rectangle of a wall of the registry that is
  itself on screen, then \<^verbatim>\<open>move\<close> leaves the entity as it was: its rectangle, its \<open>x\<close>, its
  \<open>y\<close> and every other field. There is no sliding along one axis. The rejection does
  not depend on how the clamp computed the displacement: \<^verbatim>\<open>move\<close> is its second half
  \<open>try_move\<close> at the clamped displacement, and \<open>try_move\<close> rejects at every displacement
  whose shifted rectangle collides with a visible wall (the clamp is computed in
  exact arithmetic here; where Python's floats round it, the displacement is another,
  and the rejection holds for it all the same). Seen from the result: after \<^verbatim>\<open>move\<close> the
  entity is as it was, or its rectangle collides with no visible wall of the registry.
  To collide is pygame's \<^verbatim>\<open>colliderect\<close>: a wall or an entity of width or height 0
  collides with nothing.
\<close>

theorem move_rejected_by_visible_wall:
  assumes "e_on_screen self"
    and "wall \<in> set walls"
    and "e_on_screen wall"
  shows "(colliderect (e_rect wall) (trial_rect res self x y) \<longrightarrow>
            MovableEntity_move res walls self x y = self) \<and>
         MovableEntity_move res walls self x y =
           try_move walls self (fst (clamped res self x y)) (snd (clamped res self x y)) \<and>
         (\<forall>x' y'. colliderect (e_rect wall) (Rect_move (e_rect self) x' y') \<longrightarrow>
            try_move walls self x' y' = self) \<and>
         (MovableEntity_move res walls self x y = self \<or>
          \<not> colliderect (e_rect wall) (e_rect (MovableEntity_move res walls self x y)))"
proof -
  have rej: "try_move walls self x' y' = self"
    if "colliderect (e_rect wall) (Rect_move (e_rect self) x' y')" for x' y'
  proof -
    have "hits_wall walls (self\<lparr>e_rect := Rect_move (e_rect self) x' y'\<rparr>)"
      using assms(2,3) that by (auto simp: hits_wall_iff)
    then show ?thesis by (rule try_move_rejected)
  qed
  have move: "MovableEntity_move res walls self x y =
           try_move walls self (fst (clamped res self x y)) (snd (clamped res self x y))"
    using assms(1) by (rule move_try_move)
  have stop: "MovableEntity_move res walls self x y = self"
    if "colliderect (e_rect wall) (trial_rect res self x y)"
    unfolding move using that by (simp add: rej trial_rect_def)
  have after: "MovableEntity_move res walls self x y = self \<or>
          \<not> colliderect (e_rect wall) (e_rect (MovableEntity_move res walls self x y))"
  proof (cases "colliderect (e_rect wall) (trial_rect res self x y)")
    case True
    then show ?thesis by (simp add: stop)
  next
    case False
    let ?x = "fst (clamped res self x y)" and ?y = "snd (clamped res self x y)"
    show ?thesis
    proof (cases "hits_wall walls (self\<lparr>e_rect := Rect_move (e_rect self) ?x ?y\<rparr>)")
      case True
      then show ?thesis unfolding move by (simp add: try_move_rejected)
    next
      case no: False
      then have "e_rect (try_move walls self ?x ?y) = trial_rect res self x y"
        by (simp add: try_move_committed trial_rect_def)
      with False show ?thesis unfolding move by simp
    qed
  qed
  from stop move rej after show ?thesis by blast
qed

text \<open>The closed door of the levels, \<^verbatim>\<open>Wall(702, 272, 5, 145)\<close>, stops a player at
  \<open>(680, 272)\<close> who steps 10 to the right.\<close>

theorem move_rejected_by_visible_wall_witness:
  "MovableEntity_move (1280, 720) [Entity_new Wall 8 702 272 5 145 ''brown'' None None]
     (MovableEntity_new Player 0 680 272 40 30 ''black'' (Some ''../assets/red_ball.png'')
        None None False 10) 10 0
   = MovableEntity_new Player 0 680 272 40 30 ''black'' (Some ''../assets/red_ball.png'')
        None None False 10"
proof -
  let ?door = "Entity_new Wall 8 702 272 5 145 ''brown'' None None"
  let ?player = "MovableEntity_new Player 0 680 272 40 30 ''black''
                   (Some ''../assets/red_ball.png'') None None False 10"
  have 1: "e_on_screen ?player" by (simp add: entity_eval)
  have 2: "?door \<in> set [?door]" by simp
  have 3: "e_on_screen ?door" by (simp add: entity_eval)
  have 4: "colliderect (e_rect ?door) (trial_rect (1280, 720) ?player 10 0)"
    by (simp add: entity_eval Let_def)
  from move_rejected_by_visible_wall [OF 1 2 3, of "(1280, 720)" 10 0] 4
  show ?thesis by blast
qed

text \<open>
  Claim C10. A wall that is registered but hidden never causes a rejection: its
  \<^verbatim>\<open>is_collide\<close> answers \<^verbatim>\<open>False\<close>. So a move of an entity that is on screen whose trial
  rectangle collides with no visible wall is committed, however many hidden walls it
  crosses: the rectangle becomes the trial rectangle and the position fields take the
  clamped displacement (computed in exact arithmetic here; the same holds for
  \<open>try_move\<close> at any displacement, so also at the one Python's floats arrive at). \<^verbatim>\<open>move\<close> behaves as
  if the hidden walls were not in the registry. Hiding changes the \<^verbatim>\<open>on_screen\<close> flag
  alone: the wall stays alive, and \<^verbatim>\<open>hide\<close> touches no registry (it is an assignment to
  the object).
\<close>

theorem hidden_wall_never_blocks:
  assumes "e_on_screen self"
    and "\<forall>wall\<in>set walls. e_on_screen wall \<longrightarrow>
           \<not> colliderect (e_rect wall) (trial_rect res self x y)"
  shows "MovableEntity_move res walls self x y =
           self\<lparr>e_rect := trial_rect res self x y,
                e_x := e_x self + fst (clamped res self x y),
                e_y := e_y self + snd (clamped res self x y)\<rparr> \<and>
         ((\<forall>wall\<in>set walls. e_on_screen wall \<longrightarrow>
              \<not> colliderect (e_rect wall) (Rect_move (e_rect self) x' y')) \<longrightarrow>
          try_move walls self x' y' =
            self\<lparr>e_rect := Rect_move (e_rect self) x' y',
                 e_x := e_x self + x', e_y := e_y self + y'\<rparr>) \<and>
         is_collide (Entity_hide wall') obj = False \<and>
         e_alive (Entity_hide wall') = e_alive wall' \<and>
         e_rect (Entity_hide wall') = e_rect wall' \<and>
         walls_by_id (modify i Entity_hide w) = walls_by_id w \<and>
         entities_by_id (modify i Entity_hide w) = entities_by_id w \<and>
         MovableEntity_move res walls self x y =
           MovableEntity_move res (filter e_on_screen walls) self x y \<and>
         MovableEntity_move res (walls1 @ Entity_hide wall' # walls2) self x y =
           MovableEntity_move res (walls1 @ walls2) self x y"
proof -
  have same: "hits_wall ws e = hits_wall (filter e_on_screen ws) e" for ws e
    by (auto simp: hits_wall_iff)
  have "filter e_on_screen (walls1 @ Entity_hide wall' # walls2) =
        filter e_on_screen (walls1 @ walls2)"
    by (simp add: Entity_hide_def)
  then have drop: "hits_wall (walls1 @ Entity_hide wall' # walls2) e = hits_wall (walls1 @ walls2) e"
    for e
    using same [of "walls1 @ Entity_hide wall' # walls2" e] same [of "walls1 @ walls2" e]
    by simp
  have commit: "try_move walls self x' y' =
            self\<lparr>e_rect := Rect_move (e_rect self) x' y',
                 e_x := e_x self + x', e_y := e_y self + y'\<rparr>"
    if "\<forall>wall\<in>set walls. e_on_screen wall \<longrightarrow>
              \<not> colliderect (e_rect wall) (Rect_move (e_rect self) x' y')" for x' y'
  proof -
    have "\<not> hits_wall walls (self\<lparr>e_rect := Rect_move (e_rect self) x' y'\<rparr>)"
      using that by (auto simp: hits_wall_iff)
    then show ?thesis by (rule try_move_committed)
  qed
  have "MovableEntity_move res walls self x y =
           self\<lparr>e_rect := trial_rect res self x y,
                e_x := e_x self + fst (clamped res self x y),
                e_y := e_y self + snd (clamped res self x y)\<rparr>"
    unfolding move_try_move [OF assms(1)] trial_rect_def
    by (rule commit) (use assms(2) in \<open>simp add: trial_rect_def\<close>)
  moreover have "is_collide (Entity_hide wall') obj = False"
    by (simp add: is_collide_def Entity_hide_def)
  moreover have "e_alive (Entity_hide wall') = e_alive wall'"
    "e_rect (Entity_hide wall') = e_rect wall'"
    by (simp_all add: Entity_hide_def)
  moreover have "walls_by_id (modify i Entity_hide w) = walls_by_id w"
    "entities_by_id (modify i Entity_hide w) = entities_by_id w"
    by (simp_all add: modify_def split: option.split)
  moreover have "MovableEntity_move res walls self x y =
     MovableEntity_move res (filter e_on_screen walls) self x y"
    unfolding MovableEntity_move_def try_move_def Let_def split_beta
    using same by simp
  moreover have "MovableEntity_move res (walls1 @ Entity_hide wall' # walls2) self x y =
     MovableEntity_move res (walls1 @ walls2) self x y"
    unfolding MovableEntity_move_def try_move_def Let_def split_beta
    using drop by simp
  ultimately show ?thesis
    using commit by blast
qed

text \<open>The door of the levels, \<^verbatim>\<open>Wall(702, 272, 5, 145)\<close>, hidden as the key's callback
  hides it, beside the first wall of the level, which is visible and out of the way:
  the player at \<open>(680, 272)\<close> who steps 10 to the right, and whom the visible door
  stopped, now goes through it.\<close>

theorem hidden_wall_never_blocks_witness:
  "MovableEntity_move (1280, 720)
     [Entity_new Wall 1 102 250 5 400 ''black'' None None,
      Entity_hide (Entity_new Wall 8 702 272 5 145 ''brown'' None None)]
     (MovableEntity_new Player 0 680 272 40 30 ''black'' (Some ''../assets/red_ball.png'')
        None None False 10) 10 0
   = (MovableEntity_new Player 0 680 272 40 30 ''black'' (Some ''../assets/red_ball.png'')
        None None False 10)
       \<lparr>e_rect := \<lparr>rect_x = 670, rect_y = 257, rect_w = 40, rect_h = 30\<rparr>,
        e_x := 690, e_y := 272\<rparr> \<and>
   colliderect (e_rect (Entity_new Wall 8 702 272 5 145 ''brown'' None None))
     \<lparr>rect_x = 670, rect_y = 257, rect_w = 40, rect_h = 30\<rparr>"
proof -
  let ?wall = "Entity_new Wall 1 102 250 5 400 ''black'' None None"
  let ?door = "Entity_hide (Entity_new Wall 8 702 272 5 145 ''brown'' None None)"
  let ?player = "MovableEntity_new Player 0 680 272 40 30 ''black''
                   (Some ''../assets/red_ball.png'') None None False 10"
  have 1: "e_on_screen ?player" by (simp add: entity_eval)
  have trial: "trial_rect (1280, 720) ?player 10 0
                 = \<lparr>rect_x = 670, rect_y = 257, rect_w = 40, rect_h = 30\<rparr>"
    by (simp add: entity_eval Let_def)
  have clamp: "clamped (1280, 720) ?player 10 0 = (10, 0)"
    by (simp add: entity_eval Let_def)
  have x: "e_x ?player = 680" and y: "e_y ?player = 272"
    by (simp_all add: entity_eval)
  have 2: "\<forall>wall\<in>set [?wall, ?door]. e_on_screen wall \<longrightarrow>
             \<not> colliderect (e_rect wall) (trial_rect (1280, 720) ?player 10 0)"
    unfolding trial by (simp add: entity_eval)
  have 3: "colliderect (e_rect (Entity_new Wall 8 702 272 5 145 ''brown'' None None))
             \<lparr>rect_x = 670, rect_y = 257, rect_w = 40, rect_h = 30\<rparr>"
    by (simp add: entity_eval)
  from hidden_wall_never_blocks [OF 1 2]
  have "MovableEntity_move (1280, 720) [?wall, ?door] ?player 10 0 =
          ?player\<lparr>e_rect := trial_rect (1280, 720) ?player 10 0,
                e_x := e_x ?player + fst (clamped (1280, 720) ?player 10 0),
                e_y := e_y ?player + snd (clamped (1280, 720) ?player 10 0)\<rparr>"
    by blast
  then show ?thesis
    unfolding trial clamp x y using 3 by simp
qed

text \<open>Three moves of an entity of size 40 by 30 made at \<open>(100, 100)\<close> in a display of
  1280 by 720, with no wall: by one half, by one half again, by \<open>-81\<close>.\<close>

lemma drift_step1:
  "MovableEntity_move (1280, 720) []
     (MovableEntity_new Enemy 0 100 100 40 30 ''black'' None None None False 10) (1 / 2) 0
   = (MovableEntity_new Enemy 0 100 100 40 30 ''black'' None None None False 10)
       \<lparr>e_x := 201 / 2\<rparr>"
  by (simp add: MovableEntity_move_def entity_eval Let_def)

lemma drift_step2:
  "MovableEntity_move (1280, 720) []
     ((MovableEntity_new Enemy 0 100 100 40 30 ''black'' None None None False 10)
        \<lparr>e_x := 201 / 2\<rparr>) (1 / 2) 0
   = (MovableEntity_new Enemy 0 100 100 40 30 ''black'' None None None False 10)
       \<lparr>e_x := 101\<rparr>"
  by (simp add: MovableEntity_move_def entity_eval Let_def)

lemma drift_step3:
  "e_rect (MovableEntity_move (1280, 720) []
     ((MovableEntity_new Enemy 0 100 100 40 30 ''black'' None None None False 10)
        \<lparr>e_x := 101\<rparr>) (- 81) 0)
   = \<lparr>rect_x = - 1, rect_y = 85, rect_w = 40, rect_h = 30\<rparr>"
  by (simp add: MovableEntity_move_def entity_eval Let_def)

text \<open>
  Claim C2. After \<^verbatim>\<open>move\<close> the rectangle of an entity kept on screen is unchanged or
  lies within the display. The clamp that is to see to it reads the position fields
  \<open>x\<close>, \<open>y\<close>, while what moves is the rectangle, and the two do not stay together:
  \<^verbatim>\<open>rect.move\<close> drops the fraction of a displacement, \<^verbatim>\<open>self.x += x\<close> keeps it (the
  first diagonal key press of the player, a step of \<open>sqrt 50\<close> on each axis, already
  parts them). Here an entity of size 40 by 30 is made at \<open>(100, 100)\<close>, inside a
  display of 1280 by 720. Two moves by one half leave its rectangle where it was and
  its \<open>x\<close> at 101. A move by \<open>-81\<close> is then taken for one to the left edge at 0 and is
  not clamped; it takes the rectangle from 80 to \<open>-1\<close>, out of the display. No wall is
  involved, and every sum is exact in floats as well.
\<close>

theorem clamp_misses_drifted_rectangle:
  "(let res = (1280, 720);
        e0 = MovableEntity_new Enemy 0 100 100 40 30 ''black'' None None None False 10;
        e1 = MovableEntity_move res [] e0 (1 / 2) 0;
        e2 = MovableEntity_move res [] e1 (1 / 2) 0;
        e3 = MovableEntity_move res [] e2 (- 81) 0
    in e_only_on_screen e0 \<and> e_on_screen e0 \<and>
       e_rect e0 = \<lparr>rect_x = 80, rect_y = 85, rect_w = 40, rect_h = 30\<rparr> \<and>
       within_display res (e_rect e0) \<and>
       e_rect e2 = e_rect e0 \<and> e_x e2 = e_x e0 + 1 \<and>
       e_rect e3 = \<lparr>rect_x = - 1, rect_y = 85, rect_w = 40, rect_h = 30\<rparr> \<and>
       e_rect e3 \<noteq> e_rect e2 \<and> \<not> within_display res (e_rect e3))"
proof -
  let ?e0 = "MovableEntity_new Enemy 0 100 100 40 30 ''black'' None None None False 10"
  have e0: "e_only_on_screen ?e0" "e_on_screen ?e0"
    "e_rect ?e0 = \<lparr>rect_x = 80, rect_y = 85, rect_w = 40, rect_h = 30\<rparr>"
    "e_rect (?e0\<lparr>e_x := 101\<rparr>) = \<lparr>rect_x = 80, rect_y = 85, rect_w = 40, rect_h = 30\<rparr>"
    "e_x (?e0\<lparr>e_x := 101\<rparr>) = e_x ?e0 + 1"
    by (simp_all add: entity_eval)
  show ?thesis
    unfolding Let_def drift_step1 drift_step2 drift_step3
    using e0 by (simp add: within_display_def)
qed

text \<open>An entity larger than the display is a second way out of it, one that no clamp
  could close: of height 800 in a display of height 720, at rest with its top edge at
  0, it is pushed up by 80.\<close>

lemma oversize_pushed_out:
  "e_rect (MovableEntity_move (1280, 720) []
     (MovableEntity_new Enemy 0 640 400 100 800 ''black'' None None None False 10) 0 0)
   = \<lparr>rect_x = 590, rect_y = - 80, rect_w = 100, rect_h = 800\<rparr>"
  by (simp add: MovableEntity_move_def entity_eval Let_def)


section \<open>Claims about steps and edges\<close>

text \<open>A route step that the clamp of \<^verbatim>\<open>move\<close> lengthens: an enemy of size 40 by 30 at
  \<open>(10, 10)\<close>, with speed 5 and the node \<open>(10, 12)\<close>.\<close>

lemma route_clamped_move:
  "follow_route (1280, 720) []
     (MovableEntity_new Enemy 0 10 10 40 30 ''black'' None None
        (Some (Route (10, 12) None)) True 5)
   = (MovableEntity_new Enemy 0 10 10 40 30 ''black'' None None
        (Some (Route (10, 12) None)) True 5)
       \<lparr>e_rect := \<lparr>rect_x = 0, rect_y = 0, rect_w = 40, rect_h = 30\<rparr>, e_x := 20, e_y := 15\<rparr>"
  by (simp add: follow_route_def route_step_def Rect_center_def MovableEntity_move_def
      entity_eval Let_def)

text \<open>
  Claim C3, as stated. The step of the route logic on one axis is \<open>min(speed, distance)\<close>
  when the distance is not negative and \<open>max(-speed, distance)\<close> otherwise, hence its
  magnitude is at most the speed and at most the distance left, and the entity never
  overshoots a waypoint. The formula is the code's. The bound needs a speed that is not
  negative, which nothing in \<^verbatim>\<open>MovableEntity.__init__\<close> asks for: with speed \<open>-5\<close> and 3
  left to go the step is \<open>-5\<close>, away from the target and longer than both. And the step
  is what \<^verbatim>\<open>frame\<close> hands to \<^verbatim>\<open>move\<close>, whose clamp to the display comes after it: an
  entity of size 40 by 30 at \<open>(10, 10)\<close>, partly outside the display, with speed 5 and
  the node \<open>(10, 12)\<close>, is handed the step \<open>(0, 2)\<close> and moved to \<open>(20, 15)\<close>, past the
  node.
\<close>

theorem route_step_negative_speed_counterexample:
  "\<not> (\<forall>speed d. \<bar>route_step speed d\<bar> \<le> of_int speed \<and> \<bar>route_step speed d\<bar> \<le> \<bar>d\<bar>) \<and>
   \<not> (\<forall>res walls self route.
        0 \<le> e_speed self \<and> e_on_screen self \<and> e_on_route self \<and> e_route self = Some route \<longrightarrow>
        0 \<le> (of_int (snd (route_coords route)) - e_y (follow_route res walls self)) *
            (of_int (snd (route_coords route)) - e_y self))"
proof
  show "\<not> (\<forall>speed d. \<bar>route_step speed d\<bar> \<le> of_int speed \<and> \<bar>route_step speed d\<bar> \<le> \<bar>d\<bar>)"
  proof
    assume "\<forall>speed d. \<bar>route_step speed d\<bar> \<le> of_int speed \<and> \<bar>route_step speed d\<bar> \<le> \<bar>d\<bar>"
    then have "\<bar>route_step (- 5) 3\<bar> \<le> \<bar>3 :: real\<bar>"
      by blast
    then show False
      by (simp add: route_step_def)
  qed
next
  let ?e = "MovableEntity_new Enemy 0 10 10 40 30 ''black'' None None
              (Some (Route (10, 12) None)) True 5"
  show "\<not> (\<forall>res walls self route.
        0 \<le> e_speed self \<and> e_on_screen self \<and> e_on_route self \<and> e_route self = Some route \<longrightarrow>
        0 \<le> (of_int (snd (route_coords route)) - e_y (follow_route res walls self)) *
            (of_int (snd (route_coords route)) - e_y self))"
  proof
    assume claim: "\<forall>res walls self route.
        0 \<le> e_speed self \<and> e_on_screen self \<and> e_on_route self \<and> e_route self = Some route \<longrightarrow>
        0 \<le> (of_int (snd (route_coords route)) - e_y (follow_route res walls self)) *
            (of_int (snd (route_coords route)) - e_y self)"
    have "0 \<le> e_speed ?e \<and> e_on_screen ?e \<and> e_on_route ?e \<and>
          e_route ?e = Some (Route (10, 12) None)"
      by (simp add: entity_eval)
    with claim have "0 \<le> (of_int (snd (route_coords (Route (10, 12) None))) -
                          e_y (follow_route (1280, 720) [] ?e)) *
                         (of_int (snd (route_coords (Route (10, 12) None))) - e_y ?e)"
      by blast
    then show False
      unfolding route_clamped_move by (simp add: entity_eval)
  qed
qed

text \<open>
  Claim C3, amended. For a route-following entity that is on screen and whose
  rectangle's centre is not on the current node, \<^verbatim>\<open>frame\<close> hands to \<^verbatim>\<open>move\<close>, on each
  axis, the step \<open>min(speed, distance)\<close> (distance not negative) or
  \<open>max(-speed, distance)\<close>, the distance being the node's coordinate minus the position
  field. When the speed is not negative, this step has the sign of the distance and
  its magnitude is at most the speed and at most the distance left. The entity itself
  then does not pass the node on either axis provided \<^verbatim>\<open>move\<close>'s clamp to the display
  leaves the step as it is; where the clamp changes the step, nothing is promised.
  (Distances and sums in exact arithmetic.)
\<close>

theorem route_step_never_overshoots:
  assumes "0 \<le> e_speed self"
    and "e_on_screen self" and "e_on_route self" and "e_route self = Some route"
    and "Rect_center (e_rect self) \<noteq> route_coords route"
    and "x_dist = of_int (fst (route_coords route)) - e_x self"
    and "y_dist = of_int (snd (route_coords route)) - e_y self"
    and "x_move = route_step (e_speed self) x_dist"
    and "y_move = route_step (e_speed self) y_dist"
  shows "follow_route res walls self = MovableEntity_move res walls self x_move y_move \<and>
         x_move = (if x_dist \<ge> 0 then min (of_int (e_speed self)) x_dist
                   else max (- of_int (e_speed self)) x_dist) \<and>
         y_move = (if y_dist \<ge> 0 then min (of_int (e_speed self)) y_dist
                   else max (- of_int (e_speed self)) y_dist) \<and>
         \<bar>x_move\<bar> \<le> of_int (e_speed self) \<and> \<bar>x_move\<bar> \<le> \<bar>x_dist\<bar> \<and> 0 \<le> x_move * x_dist \<and>
         \<bar>y_move\<bar> \<le> of_int (e_speed self) \<and> \<bar>y_move\<bar> \<le> \<bar>y_dist\<bar> \<and> 0 \<le> y_move * y_dist \<and>
         (clamped res self x_move y_move = (x_move, y_move) \<longrightarrow>
            \<bar>of_int (fst (route_coords route)) - e_x (follow_route res walls self)\<bar> \<le> \<bar>x_dist\<bar> \<and>
            0 \<le> (of_int (fst (route_coords route)) - e_x (follow_route res walls self)) * x_dist \<and>
            \<bar>of_int (snd (route_coords route)) - e_y (follow_route res walls self)\<bar> \<le> \<bar>y_dist\<bar> \<and>
            0 \<le> (of_int (snd (route_coords route)) - e_y (follow_route res walls self)) * y_dist)"
proof -
  have step: "\<bar>route_step (e_speed self) d\<bar> \<le> of_int (e_speed self) \<and>
              \<bar>route_step (e_speed self) d\<bar> \<le> \<bar>d\<bar> \<and>
              0 \<le> route_step (e_speed self) d * d \<and>
              \<bar>d - route_step (e_speed self) d\<bar> \<le> \<bar>d\<bar> \<and>
              0 \<le> (d - route_step (e_speed self) d) * d" for d
  proof (cases "0 \<le> d")
    case True
    then have r: "route_step (e_speed self) d = min (of_int (e_speed self)) d"
      by (simp add: route_step_def)
    have "0 \<le> min (real_of_int (e_speed self)) d" "min (real_of_int (e_speed self)) d \<le> d"
      using True assms(1) by simp_all
    then show ?thesis
      unfolding r using True by (auto simp: zero_le_mult_iff)
  next
    case False
    then have r: "route_step (e_speed self) d = max (- of_int (e_speed self)) d"
      by (simp add: route_step_def)
    have "max (- real_of_int (e_speed self)) d \<le> 0" "d \<le> max (- real_of_int (e_speed self)) d"
      using False assms(1) by simp_all
    then show ?thesis
      unfolding r using False by (auto simp: zero_le_mult_iff)
  qed
  have follow: "follow_route res walls self = MovableEntity_move res walls self x_move y_move"
    using assms(2-9) by (simp add: follow_route_def Let_def)
  have ent: "\<bar>of_int (fst (route_coords route)) - e_x (follow_route res walls self)\<bar> \<le> \<bar>x_dist\<bar> \<and>
            0 \<le> (of_int (fst (route_coords route)) - e_x (follow_route res walls self)) * x_dist \<and>
            \<bar>of_int (snd (route_coords route)) - e_y (follow_route res walls self)\<bar> \<le> \<bar>y_dist\<bar> \<and>
            0 \<le> (of_int (snd (route_coords route)) - e_y (follow_route res walls self)) * y_dist"
    if c: "clamped res self x_move y_move = (x_move, y_move)"
  proof (cases "hits_wall walls (self\<lparr>e_rect := Rect_move (e_rect self) x_move y_move\<rparr>)")
    case True
    then have "follow_route res walls self = self"
      unfolding follow move_try_move [OF assms(2)] c by (simp add: try_move_rejected)
    then show ?thesis
      using assms(6,7) by simp
  next
    case False
    then have "follow_route res walls self =
                 self\<lparr>e_rect := Rect_move (e_rect self) x_move y_move,
                      e_x := e_x self + x_move, e_y := e_y self + y_move\<rparr>"
      unfolding follow move_try_move [OF assms(2)] c by (simp add: try_move_committed)
    then have "of_int (fst (route_coords route)) - e_x (follow_route res walls self)
                 = x_dist - x_move"
      "of_int (snd (route_coords route)) - e_y (follow_route res walls self)
                 = y_dist - y_move"
      using assms(6,7) by simp_all
    then show ?thesis
      using step [of x_dist] step [of y_dist] assms(8,9) by simp
  qed
  from follow ent step [of x_dist] step [of y_dist] assms(8,9) show ?thesis
    by (simp add: route_step_def)
qed

text \<open>The enemy of the levels, as \<^verbatim>\<open>create_enemy\<close> makes it but placed at
  \<open>(810, 300)\<close>, with the far node \<open>(810, 500)\<close> of its patrol as the current one and
  speed 5: the step is \<open>(0, 5)\<close>, the clamp leaves it alone, and the enemy is at
  \<open>(810, 305)\<close> afterwards.\<close>

theorem route_step_never_overshoots_witness:
  "follow_route (1280, 720) []
     (MovableEntity_new EnemyTouch 10 810 300 120 105 ''black'' (Some ''../assets/monster_3.png'')
        None (Some (patrol True)) True 5)
   = MovableEntity_move (1280, 720) []
       (MovableEntity_new EnemyTouch 10 810 300 120 105 ''black'' (Some ''../assets/monster_3.png'')
          None (Some (patrol True)) True 5) 0 5 \<and>
   \<bar>5 :: real\<bar> \<le> \<bar>200\<bar> \<and>
   \<bar>of_int (snd (route_coords (patrol True))) -
     e_y (follow_route (1280, 720) []
            (MovableEntity_new EnemyTouch 10 810 300 120 105 ''black''
               (Some ''../assets/monster_3.png'') None (Some (patrol True)) True 5))\<bar> \<le> \<bar>200 :: real\<bar>"
proof -
  let ?enemy = "MovableEntity_new EnemyTouch 10 810 300 120 105 ''black''
                  (Some ''../assets/monster_3.png'') None (Some (patrol True)) True 5"
  have 1: "0 \<le> e_speed ?enemy" by (simp add: entity_eval)
  have 2: "e_on_screen ?enemy" by (simp add: entity_eval)
  have 3: "e_on_route ?enemy" by (simp add: entity_eval)
  have 4: "e_route ?enemy = Some (patrol True)" by (simp add: entity_eval)
  have 5: "Rect_center (e_rect ?enemy) \<noteq> route_coords (patrol True)"
    by (simp add: entity_eval Rect_center_def)
  have 6: "(0 :: real) = of_int (fst (route_coords (patrol True))) - e_x ?enemy"
    by (simp add: entity_eval)
  have 7: "(200 :: real) = of_int (snd (route_coords (patrol True))) - e_y ?enemy"
    by (simp add: entity_eval)
  have 8: "(0 :: real) = route_step (e_speed ?enemy) 0"
    by (simp add: entity_eval route_step_def)
  have 9: "(5 :: real) = route_step (e_speed ?enemy) 200"
    by (simp add: entity_eval route_step_def)
  have c: "clamped (1280, 720) ?enemy 0 5 = (0, 5)"
    by (simp add: entity_eval Let_def)
  have b: "\<bar>5 :: real\<bar> \<le> \<bar>200\<bar>" by simp
  from route_step_never_overshoots [OF 1 2 3 4 5 6 7 8 9, of "(1280, 720)" "[]"] c b
  show ?thesis by blast
qed

text \<open>A route step on both axes at once: an enemy of speed 5 at \<open>(100, 100)\<close> whose
  node is \<open>(200, 200)\<close>.\<close>

lemma route_diagonal_move:
  "follow_route (1280, 720) []
     (MovableEntity_new Enemy 0 100 100 40 30 ''black'' None None
        (Some (Route (200, 200) None)) True 5)
   = (MovableEntity_new Enemy 0 100 100 40 30 ''black'' None None
        (Some (Route (200, 200) None)) True 5)
       \<lparr>e_rect := \<lparr>rect_x = 85, rect_y = 90, rect_w = 40, rect_h = 30\<rparr>, e_x := 105, e_y := 105\<rparr>"
proof -
  let ?e = "MovableEntity_new Enemy 0 100 100 40 30 ''black'' None None
              (Some (Route (200, 200) None)) True 5"
  have "follow_route (1280, 720) [] ?e = MovableEntity_move (1280, 720) [] ?e 5 5"
    by (simp add: follow_route_def route_step_def Rect_center_def entity_eval Let_def)
  also have "\<dots> = ?e\<lparr>e_rect := \<lparr>rect_x = 85, rect_y = 90, rect_w = 40, rect_h = 30\<rparr>,
                        e_x := 105, e_y := 105\<rparr>"
    by (simp add: MovableEntity_move_def entity_eval Let_def)
  finally show ?thesis .
qed

text \<open>
  Claim C4, as stated. Diagonal step capping applies to keyboard input and to route
  following alike: when both axes want a full-speed step, each component is scaled to
  \<open>speed / sqrt 2\<close>, so that the step has magnitude \<open>speed\<close>. The route logic has no
  such scaling: it steps each axis on its own. An entity of speed 5 at \<open>(100, 100)\<close>
  whose node is \<open>(200, 200)\<close> moves by \<open>(5, 5)\<close>, a step of squared length 50, not 25.
\<close>

theorem route_diagonal_not_capped_counterexample:
  "\<not> (\<forall>res walls self route.
        e_on_screen self \<and> e_on_route self \<and> e_route self = Some route \<and>
        \<bar>of_int (fst (route_coords route)) - e_x self\<bar> \<ge> of_int (e_speed self) \<and>
        \<bar>of_int (snd (route_coords route)) - e_y self\<bar> \<ge> of_int (e_speed self) \<and>
        0 < e_speed self \<longrightarrow>
        (e_x (follow_route res walls self) - e_x self)\<^sup>2 +
        (e_y (follow_route res walls self) - e_y self)\<^sup>2 \<le> (of_int (e_speed self))\<^sup>2)"
proof
  assume claim: "\<forall>res walls self route.
        e_on_screen self \<and> e_on_route self \<and> e_route self = Some route \<and>
        \<bar>of_int (fst (route_coords route)) - e_x self\<bar> \<ge> of_int (e_speed self) \<and>
        \<bar>of_int (snd (route_coords route)) - e_y self\<bar> \<ge> of_int (e_speed self) \<and>
        0 < e_speed self \<longrightarrow>
        (e_x (follow_route res walls self) - e_x self)\<^sup>2 +
        (e_y (follow_route res walls self) - e_y self)\<^sup>2 \<le> (of_int (e_speed self))\<^sup>2"
  let ?e = "MovableEntity_new Enemy 0 100 100 40 30 ''black'' None None
              (Some (Route (200, 200) None)) True 5"
  have "e_on_screen ?e \<and> e_on_route ?e \<and> e_route ?e = Some (Route (200, 200) None) \<and>
        \<bar>of_int (fst (route_coords (Route (200, 200) None))) - e_x ?e\<bar> \<ge> of_int (e_speed ?e) \<and>
        \<bar>of_int (snd (route_coords (Route (200, 200) None))) - e_y ?e\<bar> \<ge> of_int (e_speed ?e) \<and>
        0 < e_speed ?e"
    by (simp add: entity_eval)
  with claim have "(e_x (follow_route (1280, 720) [] ?e) - e_x ?e)\<^sup>2 +
        (e_y (follow_route (1280, 720) [] ?e) - e_y ?e)\<^sup>2 \<le> (of_int (e_speed ?e))\<^sup>2"
    by blast
  then show False
    unfolding route_diagonal_move by (simp add: entity_eval)
qed

text \<open>
  Claim C4, amended. Diagonal capping is the keyboard's alone. Whenever
  \<^verbatim>\<open>Player.handle_keyboard\<close> asks for a movement on both axes, each component has
  magnitude \<open>speed / sqrt 2\<close> (the absolute value of the speed, should it be negative)
  and the step has magnitude \<open>speed\<close>, squared: \<open>x\<^sup>2 + y\<^sup>2 = speed\<^sup>2\<close>. This is exact in
  real numbers; the floats of the program round it. Route following is not capped:
  each axis steps by up to \<open>speed\<close> on its own.
\<close>

theorem keyboard_diagonal_capped:
  assumes "keyboard_step speed ks = (x, y)" and "x \<noteq> 0" and "y \<noteq> 0"
  shows "\<bar>x\<bar> = \<bar>of_int speed\<bar> / sqrt 2 \<and> \<bar>y\<bar> = \<bar>of_int speed\<bar> / sqrt 2 \<and>
         x\<^sup>2 + y\<^sup>2 = (of_int speed)\<^sup>2"
proof -
  let ?n = "sqrt (of_int (speed ^ 2) / 2)"
  have n: "?n = \<bar>of_int speed\<bar> / sqrt 2"
    by (simp add: real_sqrt_divide)
  have n0: "0 \<le> ?n" by simp
  have "\<bar>x\<bar> = ?n \<and> \<bar>y\<bar> = ?n"
    using assms n0 unfolding keyboard_step_def Let_def
    by (auto split: if_splits)
  then have a: "\<bar>x\<bar> = \<bar>of_int speed\<bar> / sqrt 2" "\<bar>y\<bar> = \<bar>of_int speed\<bar> / sqrt 2"
    using n by simp_all
  have "x\<^sup>2 = \<bar>x\<bar>\<^sup>2" "y\<^sup>2 = \<bar>y\<bar>\<^sup>2" by simp_all
  then have "x\<^sup>2 + y\<^sup>2 = (\<bar>of_int speed\<bar> / sqrt 2)\<^sup>2 + (\<bar>of_int speed\<bar> / sqrt 2)\<^sup>2"
    using a by simp
  also have "\<dots> = (of_int speed)\<^sup>2"
    by (simp add: power_divide)
  finally show ?thesis using a by simp
qed

text \<open>Down and right held at speed 10: the step is \<open>(sqrt 50, sqrt 50)\<close>.\<close>

theorem keyboard_diagonal_capped_witness:
  "keyboard_step 10 \<lparr>K_UP = False, K_DOWN = True, K_LEFT = False, K_RIGHT = True\<rparr>
     = (sqrt 50, sqrt 50) \<and>
   \<bar>sqrt 50\<bar> = \<bar>real_of_int 10\<bar> / sqrt 2 \<and>
   (sqrt 50)\<^sup>2 + (sqrt 50)\<^sup>2 = (real_of_int 10)\<^sup>2"
proof -
  have step: "keyboard_step 10 \<lparr>K_UP = False, K_DOWN = True, K_LEFT = False, K_RIGHT = True\<rparr>
              = (sqrt 50, sqrt 50)"
    by (simp add: keyboard_step_def Let_def)
  have nz: "sqrt 50 \<noteq> 0" by simp
  from keyboard_diagonal_capped [OF step nz nz] step
  show ?thesis by blast
qed

text \<open>
  Claim C9, as stated. The derived left edge is \<open>x - width / 2\<close> and the top edge
  \<open>y - height / 2\<close>, in exact arithmetic, odd sizes included. The code halves with
  \<^verbatim>\<open>//\<close>, the floor division: the first wall of the levels, \<^verbatim>\<open>Wall(102, 250, 5, 400)\<close>,
  has its left edge at 100, not at 99.5.
\<close>

theorem left_of_odd_width_counterexample:
  "\<not> (\<forall>e. Entity_left e = e_x e - of_int (e_width e) / 2 \<and>
           Entity_top e = e_y e - of_int (e_height e) / 2)"
proof
  assume "\<forall>e. Entity_left e = e_x e - of_int (e_width e) / 2 \<and>
              Entity_top e = e_y e - of_int (e_height e) / 2"
  then have "Entity_left (Entity_new Wall 1 102 250 5 400 ''black'' None None) =
             e_x (Entity_new Wall 1 102 250 5 400 ''black'' None None) -
             of_int (e_width (Entity_new Wall 1 102 250 5 400 ''black'' None None)) / 2"
    by blast
  then show False
    by (simp add: entity_eval)
qed

text \<open>
  Claim C9, amended. For every entity the derived left edge is \<open>x\<close> minus the floor of
  half the width and the top edge is \<open>y\<close> minus the floor of half the height: that is
  \<open>x - width / 2\<close> exactly when the width is even, and half a unit more when it is odd
  (likewise for the top edge and the height).
\<close>

theorem left_top_floor_half:
  "Entity_left e = e_x e - of_int \<lfloor>of_int (e_width e) / (2 :: real)\<rfloor> \<and>
   Entity_top e = e_y e - of_int \<lfloor>of_int (e_height e) / (2 :: real)\<rfloor> \<and>
   Entity_left e = e_x e - of_int (e_width e) / 2 + (if even (e_width e) then 0 else 1 / 2) \<and>
   Entity_top e = e_y e - of_int (e_height e) / 2 + (if even (e_height e) then 0 else 1 / 2)"
proof -
  have half: "of_int (n div 2) = of_int n / (2 :: real) - (if even n then 0 else 1 / 2)" for n :: int
  proof (cases "even n")
    case True
    then obtain k where "n = 2 * k" by (elim evenE)
    then show ?thesis by simp
  next
    case False
    then obtain k where "n = 2 * k + 1" by (elim oddE)
    then show ?thesis by (simp add: field_simps)
  qed
  have fl: "\<lfloor>of_int n / (2 :: real)\<rfloor> = n div 2" for n :: int
    by (simp add: floor_divide_of_int_eq [of n 2, where ?'a = real, simplified])
  show ?thesis
    unfolding fl by (simp add: Entity_left_def Entity_top_def half)
qed

section \<open>Facts about level transitions\<close>

lemma and_then_Done [simp]: "and_then (Done s) f = f s"
  by (simp add: and_then_def)

lemma and_then_Raised [simp]: "and_then (Raised e s) f = Raised e s"
  by (simp add: and_then_def)

lemma class_of_set_on_screen [simp]: "class_of (set_on_screen b lv) = class_of lv"
  by (cases lv) simp_all

lemma level_ids_set_on_screen [simp]: "level_ids (set_on_screen b lv) = level_ids lv"
  by (cases lv) simp_all

lemma getitem_Some: "getitem xs n = Some x \<longleftrightarrow> n < length xs \<and> xs ! n = x"
  by (auto simp: getitem_def)

lemma getitem_update:
  "getitem (xs[m := y]) n = (if n < length xs then Some (if n = m then y else xs ! n) else None)"
  by (simp add: getitem_def nth_list_update)

text \<open>Leaving the current level, when its cell holds a level object whose \<^verbatim>\<open>clear\<close>
  goes through: the cell receives the type of the target cell.\<close>

lemma leave_level_Done:
  assumes "getitem (levels g) (current_level g) = Some (Instance lv)"
    and "Level_clear lv w = Done w1"
    and "getitem (levels g) level = Some sl"
  shows "leave_level level (w, g) =
           Done (w1, g\<lparr>levels := (levels g)[current_level g :=
                           type_of (if level = current_level g then Instance lv else sl)],
                        current_level := level\<rparr>)"
proof -
  from assms(1) have len: "current_level g < length (levels g)"
    by (simp add: getitem_Some)
  have 1: "clear_current (w, g) = Done (w1, g)"
    using assms(1,2) by (simp add: clear_current_def)
  have 2: "hide_current (w1, g) =
             Done (w1, g\<lparr>levels := (levels g)[current_level g := Instance (set_on_screen False lv)]\<rparr>)"
    using assms(1) by (simp add: hide_current_def)
  have 3: "getitem ((levels g)[current_level g := Instance (set_on_screen False lv)]) level =
             Some (if level = current_level g then Instance (set_on_screen False lv) else sl)"
    using assms(3) by (auto simp: getitem_update getitem_Some)
  show ?thesis
    unfolding leave_level_def 1 and_then_Done 2
    using 3 len by (simp add: retype_current_def)
qed

lemma leave_level_IndexError:
  assumes "getitem (levels g) (current_level g) = Some (Instance lv)"
    and "Level_clear lv w = Done w1"
    and "getitem (levels g) level = None"
  shows "\<exists>s. leave_level level (w, g) = Raised IndexError s"
proof -
  have 1: "clear_current (w, g) = Done (w1, g)"
    using assms(1,2) by (simp add: clear_current_def)
  have 2: "hide_current (w1, g) =
             Done (w1, g\<lparr>levels := (levels g)[current_level g := Instance (set_on_screen False lv)]\<rparr>)"
    using assms(1) by (simp add: hide_current_def)
  have 3: "getitem ((levels g)[current_level g := Instance (set_on_screen False lv)]) level = None"
    using assms(3) by (simp add: getitem_def split: if_splits)
  show ?thesis
    unfolding leave_level_def 1 and_then_Done 2
    using 3 by (simp add: retype_current_def)
qed

lemma leave_level_Raised:
  assumes "getitem (levels g) (current_level g) = Some (Instance lv)"
    and "Level_clear lv w = Raised e w1"
  shows "leave_level level (w, g) = Raised e (w1, g)"
  using assms by (simp add: leave_level_def clear_current_def)

text \<open>\<^verbatim>\<open>_go_to_level\<close> to another index whose cell holds a class.\<close>

lemma go_to_level_other:
  assumes "getitem (levels g) (current_level g) = Some (Instance lv)"
    and "Level_clear lv w = Done w1"
    and "getitem (levels g) level = Some (Class c)"
  shows "go_to_level level (w, g) =
           Done (snd (construct c w1),
                 g\<lparr>levels := (levels g)[current_level g := ABCMeta,
                                 level := Instance (set_on_screen True (fst (construct c w1)))],
                   current_level := level\<rparr>)"
proof -
  from assms(1,3) have ne: "level \<noteq> current_level g" by auto
  from assms(3) have len: "level < length (levels g)" by (simp add: getitem_Some)
  from assms(3) have sl: "levels g ! level = Class c" by (simp add: getitem_Some)
  show ?thesis
    unfolding go_to_level_def leave_level_Done [OF assms]
    using ne len sl
    by (simp add: enter_level_def init_level_def show_level_def getitem_update split_beta)
qed

text \<open>\<^verbatim>\<open>_go_to_level\<close> to the current index: the cell receives the class of the
  object it held, and a new object of that class.\<close>

lemma go_to_level_same:
  assumes "getitem (levels g) (current_level g) = Some (Instance lv)"
    and "Level_clear lv w = Done w1"
  shows "go_to_level (current_level g) (w, g) =
           Done (snd (construct (class_of lv) w1),
                 g\<lparr>levels := (levels g)[current_level g :=
                       Instance (set_on_screen True (fst (construct (class_of lv) w1)))]\<rparr>)"
proof -
  from assms(1) have len: "current_level g < length (levels g)" by (simp add: getitem_Some)
  show ?thesis
    unfolding go_to_level_def leave_level_Done [OF assms assms(1)]
    using len
    by (simp add: enter_level_def init_level_def show_level_def getitem_update split_beta)
qed

text \<open>\<^verbatim>\<open>_go_to_level\<close> to another index whose cell holds no class: \<^verbatim>\<open>_init_level\<close>
  raises, after the current level was cleared.\<close>

lemma go_to_level_no_class:
  assumes "getitem (levels g) (current_level g) = Some (Instance lv)"
    and "Level_clear lv w = Done w1"
    and "getitem (levels g) level = Some sl"
    and "level \<noteq> current_level g"
    and "\<forall>c. sl \<noteq> Class c"
  shows "go_to_level level (w, g) =
           Raised TypeError (w1, g\<lparr>levels := (levels g)[current_level g := type_of sl],
                                   current_level := level\<rparr>)"
proof -
  from assms(3) have len: "level < length (levels g)" and sl: "levels g ! level = sl"
    by (simp_all add: getitem_Some)
  show ?thesis
    unfolding go_to_level_def leave_level_Done [OF assms(1-3)]
    using len sl assms(4,5)
    by (cases sl) (simp_all add: enter_level_def init_level_def getitem_update)
qed

lemma go_to_level_on_class:
  assumes "getitem (levels g) (current_level g) = Some (Class c)"
  shows "go_to_level level (w, g) = Raised TypeError (w, g)"
  using assms by (simp add: go_to_level_def leave_level_def clear_current_def)

section \<open>Claims about the game's levels\<close>

lemma distinct_singleton:
  assumes "distinct xs" and "set xs = {k}"
  shows "xs = [k]"
proof (cases xs)
  case Nil
  with assms(2) show ?thesis by simp
next
  case outer: (Cons a list)
  with assms(2) have a: "a = k" by auto
  have "list = []"
  proof (cases list)
    case Nil
    then show ?thesis .
  next
    case (Cons b rest)
    with outer assms(2) have "b = k" by auto
    with outer Cons a assms(1) show ?thesis by simp
  qed
  then show ?thesis using outer a by simp
qed

lemma singleton_filter_upt:
  "filter P [0..<n] = [k] \<longleftrightarrow> k < n \<and> P k \<and> (\<forall>m<n. P m \<longrightarrow> m = k)"
proof
  assume eq: "filter P [0..<n] = [k]"
  then have "set (filter P [0..<n]) = {k}" by simp
  then show "k < n \<and> P k \<and> (\<forall>m<n. P m \<longrightarrow> m = k)" by auto
next
  assume a: "k < n \<and> P k \<and> (\<forall>m<n. P m \<longrightarrow> m = k)"
  have d: "distinct (filter P [0..<n])" by simp
  have s: "set (filter P [0..<n]) = {k}" using a by auto
  from d s show "filter P [0..<n] = [k]"
    by (rule distinct_singleton)
qed

lemma one_live_iff:
  "one_live g \<longleftrightarrow>
     current_level g < length (levels g) \<and> is_Instance (levels g ! current_level g) \<and>
     (\<forall>m<length (levels g). is_Instance (levels g ! m) \<longrightarrow> m = current_level g)"
  by (simp add: one_live_def live_indices_def singleton_filter_upt)

lemma is_Instance_type_of [simp]: "\<not> is_Instance (type_of sl)"
  by (cases sl) simp_all

text \<open>A transition that returns keeps the invariant.\<close>

lemma go_to_level_keeps_one_live:
  assumes "one_live g" and "go_to_level level (w, g) = Done (w', g')"
  shows "one_live g'"
proof -
  from assms(1) obtain lv where cur: "getitem (levels g) (current_level g) = Some (Instance lv)"
    and only: "\<forall>m<length (levels g). is_Instance (levels g ! m) \<longrightarrow> m = current_level g"
    unfolding one_live_iff getitem_Some
    by (cases "levels g ! current_level g") auto
  from cur have len: "current_level g < length (levels g)" by (simp add: getitem_Some)
  obtain w1 where clr: "Level_clear lv w = Done w1"
  proof (cases "Level_clear lv w")
    case (Done w1)
    then show ?thesis by (rule that)
  next
    case (Raised e w1)
    with cur assms(2) show ?thesis
      by (simp add: go_to_level_def leave_level_Raised)
  qed
  show ?thesis
  proof (cases "level = current_level g")
    case True
    with assms(2) go_to_level_same [OF cur clr]
    have "g' = g\<lparr>levels := (levels g)[current_level g :=
                 Instance (set_on_screen True (fst (construct (class_of lv) w1)))]\<rparr>"
      by simp
    then show ?thesis
      using len only by (auto simp: one_live_iff nth_list_update)
  next
    case False
    show ?thesis
    proof (cases "getitem (levels g) level")
      case None
      with assms(2) leave_level_IndexError [OF cur clr None] show ?thesis
        by (auto simp: go_to_level_def)
    next
      case (Some sl)
      show ?thesis
      proof (cases "\<exists>c. sl = Class c")
        case True
        then obtain c where "sl = Class c" ..
        with Some have new: "getitem (levels g) level = Some (Class c)" by simp
        from new have l2: "level < length (levels g)" by (simp add: getitem_Some)
        from assms(2) go_to_level_other [OF cur clr new]
        have "g' = g\<lparr>levels := (levels g)[current_level g := ABCMeta,
                        level := Instance (set_on_screen True (fst (construct c w1)))],
                      current_level := level\<rparr>"
          by simp
        then show ?thesis
          using len l2 only False by (auto simp: one_live_iff nth_list_update)
      next
        case no: False
        with go_to_level_no_class [OF cur clr Some False] assms(2) show ?thesis
          by simp
      qed
    qed
  qed
qed

lemma Game_init_eq:
  "Game_init w = (snd (Level1_init w),
     \<lparr>current_level = 1,
      levels = [Instance (fst (Level1_init w)), Class Level2, Class WinMap],
      screen = [], win_time = None\<rparr>)"
  by (simp add: Game_init_def split_beta)

text \<open>A pass of the loop over a game whose current cell holds a class does not
  complete: whatever the ticks do, showing the level or leaving it raises.\<close>

lemma start_pass_on_class:
  assumes "getitem (levels g) (current_level g) = Some (Class c)" and "win_time g = None"
  shows "\<exists>e s. start_pass quit ks (w, g) = Raised e s"
proof (cases quit)
  case True
  then show ?thesis by (simp add: start_pass_def)
next
  case False
  let ?g = "g\<lparr>screen := []\<rparr>"
  have cur: "getitem (levels ?g) (current_level ?g) = Some (Class c)"
    using assms(1) by simp
  show ?thesis
  proof (cases "handle_entities ks w")
    case (Done w1)
    then have "Game_frame ks (w, ?g) = Raised TypeError (w1, ?g)"
      using cur by (simp add: Game_frame_def show_current_def)
    then show ?thesis
      using False assms(2) go_to_level_on_class [OF cur]
      by (simp add: start_pass_def handle_signal_def)
  next
    case (Raised e w1)
    then have fr: "Game_frame ks (w, ?g) = Raised e (w1, ?g)"
      by (simp add: Game_frame_def)
    have "\<exists>e' s. handle_signal e (w1, ?g) = Raised e' s"
      using go_to_level_on_class [OF cur]
      by (cases e) (simp_all add: handle_signal_def)
    then show ?thesis
      using False assms(2) fr by (simp add: start_pass_def)
  qed
qed

text \<open>
  Claim C5. The game keeps at most one level object, and the cell at
  \<^verbatim>\<open>current_level\<close> is the one that holds it: in the state \<^verbatim>\<open>Game.__init__\<close> leaves and
  after every \<^verbatim>\<open>_go_to_level\<close>. Transitions that return keep this
  (\<open>go_to_level_keeps_one_live\<close>); the constructor does not establish it. It builds
  \<^verbatim>\<open>Level1()\<close> in cell 0 and sets \<^verbatim>\<open>current_level = 1\<close>, whose cell holds the class
  \<^verbatim>\<open>Level2\<close>: the live level is not the current one, and the first pass of
  \<^verbatim>\<open>Game.start\<close> ends in an exception, since \<^verbatim>\<open>Level2.show(screen)\<close> and
  \<^verbatim>\<open>Level2.clear()\<close> are calls on a class.
\<close>

theorem Game_init_current_level_not_live:
  "current_level (snd (Game_init w)) = 1 \<and>
   levels (snd (Game_init w)) = [Instance (fst (Level1_init w)), Class Level2, Class WinMap] \<and>
   live_indices (snd (Game_init w)) = [0] \<and>
   \<not> one_live (snd (Game_init w)) \<and>
   (\<exists>e s. start_pass quit ks (Game_init w) = Raised e s)"
proof -
  let ?g = "\<lparr>current_level = 1,
            levels = [Instance (fst (Level1_init w)), Class Level2, Class WinMap],
            screen = [], win_time = None\<rparr>"
  have live: "live_indices ?g = [0]"
    by (simp add: live_indices_def upt_rec)
  have "getitem (levels ?g) (current_level ?g) = Some (Class Level2)"
    by (simp add: getitem_def)
  then have "\<exists>e s. start_pass quit ks (snd (Level1_init w), ?g) = Raised e s"
    by (rule start_pass_on_class) simp
  with live show ?thesis
    by (simp add: Game_init_eq one_live_def)
qed

section \<open>Claims about \<^verbatim>\<open>clear\<close>\<close>

lemma shrinks_refl: "shrinks w w"
  by (simp add: shrinks_def)

lemma shrinks_trans: "shrinks w w1 \<Longrightarrow> shrinks w1 w2 \<Longrightarrow> shrinks w w2"
  unfolding shrinks_def by (auto simp: subset_iff)

lemma gone_shrinks: "gone w e \<Longrightarrow> shrinks w w' \<Longrightarrow> gone w' e"
  unfolding gone_def shrinks_def by (auto simp: subset_iff)

lemma gone_cong: "e_id e' = e_id e \<Longrightarrow> e_cls e' = e_cls e \<Longrightarrow> gone w e' = gone w e"
  by (simp add: gone_def)

lemma shrinks_obj:
  assumes "shrinks w w'" and "objs w' j = Some e'"
  shows "\<exists>e. objs w j = Some e \<and> e_id e = e_id e' \<and> e_cls e = e_cls e'"
proof -
  from assms have "map_option e_id (objs w j) = Some (e_id e')"
    "map_option e_cls (objs w j) = Some (e_cls e')"
    unfolding shrinks_def by (metis option.simps(9))+
  then show ?thesis by auto
qed

lemma modify_alive_shrinks: "shrinks w (modify i (\<lambda>s. s\<lparr>e_alive := False\<rparr>) w)"
  by (simp add: shrinks_def modify_def split: option.split)

lemma dict_pop_Some: "dict_pop k ks = Some ks' \<Longrightarrow> ks' = removeAll k ks"
  by (simp add: dict_pop_def split: if_splits)

lemma Entity_clear_Done:
  assumes "Entity_clear self w = Done w'"
  shows "shrinks w w' \<and> e_id self \<notin> set (entities_by_id w')"
proof -
  from assms obtain ks where ks: "dict_pop (e_id self) (entities_by_id w) = Some ks"
    and w': "w' = modify (e_id self) (\<lambda>s. s\<lparr>e_alive := False\<rparr>) (w\<lparr>entities_by_id := ks\<rparr>)"
    by (auto simp: Entity_clear_def split: option.splits)
  from ks have "ks = removeAll (e_id self) (entities_by_id w)" by (rule dict_pop_Some)
  then show ?thesis
    unfolding w' by (simp add: shrinks_def modify_def split: option.split)
qed

lemma Wall_clear_Done:
  assumes "Wall_clear self w = Done w'"
  shows "shrinks w w' \<and> e_id self \<notin> set (entities_by_id w') \<and> e_id self \<notin> set (walls_by_id w')"
proof -
  from assms obtain ks where ks: "dict_pop (e_id self) (walls_by_id w) = Some ks"
    and rest: "Entity_clear self (w\<lparr>walls_by_id := ks\<rparr>) = Done w'"
    by (auto simp: Wall_clear_def split: option.splits)
  from ks have k: "ks = removeAll (e_id self) (walls_by_id w)" by (rule dict_pop_Some)
  from Entity_clear_Done [OF rest] k show ?thesis
    unfolding shrinks_def by auto
qed

lemma MovableEntity_clear_Done:
  assumes "MovableEntity_clear self w = Done w'"
  shows "shrinks w w' \<and> e_id self \<notin> set (entities_by_id w') \<and>
         e_id self \<notin> set (movable_entities_by_id w')"
proof -
  from assms obtain ks where ks: "dict_pop (e_id self) (movable_entities_by_id w) = Some ks"
    and rest: "Entity_clear self (w\<lparr>movable_entities_by_id := ks\<rparr>) = Done w'"
    by (auto simp: MovableEntity_clear_def split: option.splits)
  from ks have k: "ks = removeAll (e_id self) (movable_entities_by_id w)" by (rule dict_pop_Some)
  from Entity_clear_Done [OF rest] k show ?thesis
    unfolding shrinks_def by auto
qed

lemma Player_clear_Done:
  assumes "Player_clear self w = Done w'"
  shows "shrinks w w' \<and> e_id self \<notin> set (entities_by_id w') \<and>
         e_id self \<notin> set (movable_entities_by_id w') \<and> e_id self \<notin> set (players_by_id w')"
proof -
  from assms obtain ks where ks: "dict_pop (e_id self) (players_by_id w) = Some ks"
    and rest: "MovableEntity_clear self (w\<lparr>players_by_id := ks\<rparr>) = Done w'"
    by (auto simp: Player_clear_def split: option.splits)
  from ks have k: "ks = removeAll (e_id self) (players_by_id w)" by (rule dict_pop_Some)
  from MovableEntity_clear_Done [OF rest] k show ?thesis
    unfolding shrinks_def by auto
qed

text \<open>\<^verbatim>\<open>obj.clear()\<close> that returns has taken the object out of its registries.\<close>

lemma clear_Done:
  assumes "clear i w = Done w'"
  shows "shrinks w w' \<and> (\<exists>e. objs w i = Some e \<and> gone w' e)"
proof -
  from assms obtain self where self: "objs w i = Some self"
    by (auto simp: clear_def split: option.splits)
  have "shrinks w w' \<and> gone w' self"
  proof (cases "e_cls self")
    case Entity
    with assms self have "Entity_clear self w = Done w'" by (simp add: clear_def)
    from Entity_clear_Done [OF this] Entity show ?thesis by (simp add: gone_def)
  next
    case Wall
    with assms self have "Wall_clear self w = Done w'" by (simp add: clear_def)
    from Wall_clear_Done [OF this] Wall show ?thesis by (simp add: gone_def)
  next
    case MovableEntity
    with assms self have "MovableEntity_clear self w = Done w'" by (simp add: clear_def)
    from MovableEntity_clear_Done [OF this] MovableEntity show ?thesis by (simp add: gone_def)
  next
    case Enemy
    with assms self have "MovableEntity_clear self w = Done w'" by (simp add: clear_def)
    from MovableEntity_clear_Done [OF this] Enemy show ?thesis by (simp add: gone_def)
  next
    case EnemyTouch
    with assms self have "MovableEntity_clear self w = Done w'" by (simp add: clear_def)
    from MovableEntity_clear_Done [OF this] EnemyTouch show ?thesis by (simp add: gone_def)
  next
    case Player
    with assms self have "Player_clear self w = Done w'" by (simp add: clear_def)
    from Player_clear_Done [OF this] Player show ?thesis by (simp add: gone_def)
  qed
  with self show ?thesis by simp
qed

lemma clear_each_Done:
  "clear_each ids w = Done w' \<Longrightarrow>
     shrinks w w' \<and> (\<forall>i\<in>set ids. \<exists>e. objs w i = Some e \<and> gone w' e)"
proof (induction ids arbitrary: w)
  case Nil
  then show ?case by (simp add: shrinks_refl)
next
  case (Cons i ids)
  from Cons.prems obtain w1 where first: "clear i w = Done w1"
    and rest: "clear_each ids w1 = Done w'"
    by (cases "clear i w") simp_all
  from clear_Done [OF first] obtain e where s1: "shrinks w w1"
    and e: "objs w i = Some e" "gone w1 e"
    by blast
  from Cons.IH [OF rest] have s2: "shrinks w1 w'"
    and later: "\<forall>j\<in>set ids. \<exists>e1. objs w1 j = Some e1 \<and> gone w' e1"
    by simp_all
  have "\<exists>e0. objs w j = Some e0 \<and> gone w' e0" if "j \<in> set ids" for j
  proof -
    from later that obtain e1 where e1: "objs w1 j = Some e1" "gone w' e1" by blast
    from shrinks_obj [OF s1 e1(1)] obtain e0 where
      e0: "objs w j = Some e0" "e_id e0 = e_id e1" "e_cls e0 = e_cls e1"
      by blast
    from e1(2) gone_cong [OF e0(2,3), of w'] have "gone w' e0" by simp
    with e0(1) show ?thesis by blast
  qed
  moreover have "gone w' e" using e(2) s2 by (rule gone_shrinks)
  ultimately have "\<forall>j\<in>set (i # ids). \<exists>e0. objs w j = Some e0 \<and> gone w' e0"
    using e(1) by simp
  with shrinks_trans [OF s1 s2] show ?case by blast
qed

lemma clear_each_append:
  "clear_each (xs @ ys) w = and_then (clear_each xs w) (clear_each ys)"
  by (induction xs arbitrary: w) (simp_all add: and_then_def split: outcome.split)

text \<open>\<^verbatim>\<open>clear\<close> of a level that returns has taken every entity of the level out of the
  registries.\<close>

lemma Level_clear_Done:
  assumes "Level_clear lv w = Done w'"
  shows "shrinks w w' \<and> (\<forall>i\<in>set (level_ids lv). \<exists>e. objs w i = Some e \<and> gone w' e)"
proof -
  have "clear_each (level_ids lv) w = Done w'"
  proof (cases lv)
    case (Level1_obj player walls entities on)
    with assms show ?thesis
      by (cases "clear player w"; cases "clear_each walls (case clear player w of Done s \<Rightarrow> s | Raised _ s \<Rightarrow> s)")
         (simp_all add: clear_each_append)
  next
    case (Level2_obj player walls entities on)
    with assms show ?thesis
      by (cases "clear player w"; cases "clear_each walls (case clear player w of Done s \<Rightarrow> s | Raised _ s \<Rightarrow> s)")
         (simp_all add: clear_each_append)
  next
    case (WinMap_obj title on)
    with assms show ?thesis
      by (cases "clear title w") simp_all
  qed
  then show ?thesis by (rule clear_each_Done)
qed

section \<open>Facts about the constructors\<close>

lemma grows_refl: "grows w w"
  by (simp add: grows_def)

lemma grows_trans:
  assumes "grows w w1" and "grows w1 w2"
  shows "grows w w2"
proof -
  from assms have n: "next_id w \<le> next_id w1" "next_id w1 \<le> next_id w2"
    by (simp_all add: grows_def)
  have sub: "A2 \<subseteq> A \<union> {next_id w..<next_id w2}"
    if "A1 \<subseteq> A \<union> {next_id w..<next_id w1}" "A2 \<subseteq> A1 \<union> {next_id w1..<next_id w2}"
    for A A1 A2 :: "nat set"
  proof
    fix x assume "x \<in> A2"
    with that(2) have "x \<in> A1 \<or> (next_id w1 \<le> x \<and> x < next_id w2)" by auto
    then show "x \<in> A \<union> {next_id w..<next_id w2}"
    proof
      assume "x \<in> A1"
      with that(1) have "x \<in> A \<or> (next_id w \<le> x \<and> x < next_id w1)" by auto
      with n show ?thesis by auto
    next
      assume "next_id w1 \<le> x \<and> x < next_id w2"
      with n show ?thesis by auto
    qed
  qed
  have objs: "\<forall>j<next_id w. objs w2 j = objs w j"
    using assms n by (simp add: grows_def)
  have "set (entities_by_id w2) \<subseteq> set (entities_by_id w) \<union> {next_id w..<next_id w2}"
    by (rule sub [of "set (entities_by_id w1)"]) (use assms in \<open>simp_all add: grows_def\<close>)
  moreover
  have "set (walls_by_id w2) \<subseteq> set (walls_by_id w) \<union> {next_id w..<next_id w2}"
    by (rule sub [of "set (walls_by_id w1)"]) (use assms in \<open>simp_all add: grows_def\<close>)
  moreover
  have "set (movable_entities_by_id w2)
          \<subseteq> set (movable_entities_by_id w) \<union> {next_id w..<next_id w2}"
    by (rule sub [of "set (movable_entities_by_id w1)"]) (use assms in \<open>simp_all add: grows_def\<close>)
  moreover
  have "set (players_by_id w2) \<subseteq> set (players_by_id w) \<union> {next_id w..<next_id w2}"
    by (rule sub [of "set (players_by_id w1)"]) (use assms in \<open>simp_all add: grows_def\<close>)
  ultimately show ?thesis
    using n objs by (simp add: grows_def)
qed

lemma grows_modify:
  assumes "grows w w'" and "next_id w \<le> i"
  shows "grows w (modify i f w')"
  using assms by (simp add: grows_def modify_def split: option.split)

lemma grows_now: "grows w w' \<Longrightarrow> grows w (snd (now w'))"
  by (simp add: grows_def now_def)

lemma set_dict_set: "set (dict_set k ks) = insert k (set ks)"
  by (auto simp: dict_set_def)

lemma Entity_init_facts:
  "fst (Entity_init c x y width height color img cb w) = next_id w"
  "next_id (snd (Entity_init c x y width height color img cb w)) = Suc (next_id w)"
  "grows w (snd (Entity_init c x y width height color img cb w))"
  "objs (snd (Entity_init c x y width height color img cb w)) (next_id w) =
     Some (Entity_new c (next_id w) x y width height color img cb)"
  by (auto simp: Entity_init_def Let_def grows_def set_dict_set)

lemma Wall_init_facts:
  "fst (Wall_init x y width height color img cb w) = next_id w"
  "next_id (snd (Wall_init x y width height color img cb w)) = Suc (next_id w)"
  "grows w (snd (Wall_init x y width height color img cb w))"
  using Entity_init_facts [where c = Wall and x = x and y = y and width = width
      and height = height and color = color and img = img and cb = cb and w = w]
  by (auto simp: Wall_init_def split_beta grows_def set_dict_set)

lemma MovableEntity_init_facts:
  "fst (MovableEntity_init c x y width height color img cb route on_route speed w) = next_id w"
  "next_id (snd (MovableEntity_init c x y width height color img cb route on_route speed w))
     = Suc (next_id w)"
  "grows w (snd (MovableEntity_init c x y width height color img cb route on_route speed w))"
  "objs (snd (MovableEntity_init c x y width height color img cb route on_route speed w))
     (next_id w)
     = Some (MovableEntity_new c (next_id w) x y width height color img cb route on_route speed)"
  using Entity_init_facts [where c = c and x = x and y = y and width = width
      and height = height and color = color and img = img and cb = cb and w = w]
  by (auto simp: MovableEntity_init_def split_beta grows_def set_dict_set modify_def
      MovableEntity_new_def)

lemma Player_init_facts:
  "fst (Player_init x y width height color img cb w) = next_id w"
  "next_id (snd (Player_init x y width height color img cb w)) = Suc (next_id w)"
  "grows w (snd (Player_init x y width height color img cb w))"
  "objs (snd (Player_init x y width height color img cb w)) (next_id w)
     = Some (MovableEntity_new Player (next_id w) x y width height color img cb None False 10)"
  using MovableEntity_init_facts [where c = Player and x = x and y = y and width = width
      and height = height and color = color and img = img and cb = cb and route = None
      and on_route = False and speed = 10 and w = w]
  by (auto simp: Player_init_def split_beta grows_def set_dict_set)

lemma Wall_list_grows: "grows w (snd (Wall_list args w))"
proof (induction args arbitrary: w)
  case Nil
  then show ?case by (simp add: grows_refl)
next
  case (Cons a args)
  obtain x y width height color where a: "a = (x, y, width, height, color)"
    by (cases a)
  let ?w1 = "snd (Wall_init x y width height color None None w)"
  have "snd (Wall_list (a # args) w) = snd (Wall_list args ?w1)"
    by (simp add: a split_beta)
  moreover have "grows w ?w1" by (rule Wall_init_facts)
  moreover have "grows ?w1 (snd (Wall_list args ?w1))" by (rule Cons.IH)
  ultimately show ?case by (simp add: grows_trans)
qed

lemma create_walls_grows: "grows w (snd (create_walls w))"
  unfolding create_walls_def by (rule Wall_list_grows)

lemma create_facts:
  "grows w (snd (create_enemy w))"
  "grows w (snd (create_key player door door_opened w))"
  "grows w (snd (create_graal player signal w))"
  by (simp_all add: create_enemy_def create_key_def create_graal_def
      MovableEntity_init_facts Entity_init_facts)

lemma create_enemy2_grows: "grows w (snd (create_enemy2 w))"
proof -
  let ?m = "MovableEntity_init EnemyTouch 600 530 200 200 ''black''
              (Some ''../assets/spikes.png'') (Some (SpikesFrame (next_id w))) None False 10 w"
  have i: "fst ?m = next_id w" and g: "grows w (snd ?m)"
    by (rule MovableEntity_init_facts)+
  have "grows w (modify (next_id w) Entity_hide
          (modify (next_id w) (\<lambda>s. s\<lparr>e_last_active := Some (fst (now (snd ?m)))\<rparr>)
             (snd (now (snd ?m)))))"
    by (intro grows_modify grows_now g order_refl)
  then show ?thesis
    by (simp add: create_enemy2_def split_beta Let_def i)
qed

lemma create_player_facts:
  "fst (create_player w) = next_id w"
  "next_id (snd (create_player w)) = Suc (next_id w)"
  "grows w (snd (create_player w))"
  "objs (snd (create_player w)) (next_id w)
     = Some (MovableEntity_new Player (next_id w) 10 10 40 30 ''black''
               (Some ''../assets/red_ball.png'') None None False 10)"
  by (simp_all add: create_player_def Player_init_facts)

lemma Level1_create_entities_grows: "grows w (snd (Level1_create_entities player w))"
proof -
  let ?d = "Wall_init 702 272 5 145 ''brown'' None None w"
  let ?o = "Wall_init 627 202 145 5 ''brown'' None None (snd ?d)"
  let ?w3 = "modify (fst ?o) Entity_hide (snd ?o)"
  let ?e = "create_enemy ?w3"
  let ?k = "create_key player (fst ?d) (fst ?o) (snd ?e)"
  let ?g = "create_graal player NextLevel (snd ?k)"
  have 1: "grows w (snd ?d)" by (rule Wall_init_facts)
  have n1: "next_id w \<le> next_id (snd ?d)" using 1 by (simp add: grows_def)
  have 2: "grows w (snd ?o)" by (rule grows_trans [OF 1]) (rule Wall_init_facts)
  have "fst ?o = next_id (snd ?d)" by (rule Wall_init_facts)
  with n1 have 3: "grows w ?w3" by (intro grows_modify 2) simp
  have 4: "grows w (snd ?e)" by (rule grows_trans [OF 3]) (rule create_facts)
  have 5: "grows w (snd ?k)" by (rule grows_trans [OF 4]) (rule create_facts)
  have 6: "grows w (snd ?g)" by (rule grows_trans [OF 5]) (rule create_facts)
  have "snd (Level1_create_entities player w) = snd ?g"
    by (simp add: Level1_create_entities_def split_beta Let_def)
  with 6 show ?thesis by simp
qed

lemma Level2_create_entities_grows: "grows w (snd (Level2_create_entities player w))"
proof -
  let ?d = "Wall_init 702 272 5 145 ''brown'' None None w"
  let ?o = "Wall_init 627 202 145 5 ''brown'' None None (snd ?d)"
  let ?w3 = "modify (fst ?o) Entity_hide (snd ?o)"
  let ?e = "create_enemy ?w3"
  let ?s = "create_enemy2 (snd ?e)"
  let ?k = "create_key player (fst ?d) (fst ?o) (snd ?s)"
  let ?g = "create_graal player Win (snd ?k)"
  have 1: "grows w (snd ?d)" by (rule Wall_init_facts)
  have n1: "next_id w \<le> next_id (snd ?d)" using 1 by (simp add: grows_def)
  have 2: "grows w (snd ?o)" by (rule grows_trans [OF 1]) (rule Wall_init_facts)
  have "fst ?o = next_id (snd ?d)" by (rule Wall_init_facts)
  with n1 have 3: "grows w ?w3" by (intro grows_modify 2) simp
  have 4: "grows w (snd ?e)" by (rule grows_trans [OF 3]) (rule create_facts)
  have 7: "grows w (snd ?s)" by (rule grows_trans [OF 4]) (rule create_enemy2_grows)
  have 5: "grows w (snd ?k)" by (rule grows_trans [OF 7]) (rule create_facts)
  have 6: "grows w (snd ?g)" by (rule grows_trans [OF 5]) (rule create_facts)
  have "snd (Level2_create_entities player w) = snd ?g"
    by (simp add: Level2_create_entities_def split_beta Let_def)
  with 6 show ?thesis by simp
qed

text \<open>A new level 1 or level 2: the player is the first object made, it stands at
  \<open>(10, 10)\<close>, and nothing made after it touches it.\<close>

lemma Level_init_player:
  assumes "c = Level1 \<or> c = Level2"
  shows "l_player (fst (construct c w)) = next_id w \<and>
         objs (snd (construct c w)) (next_id w)
           = Some (MovableEntity_new Player (next_id w) 10 10 40 30 ''black''
                     (Some ''../assets/red_ball.png'') None None False 10) \<and>
         grows w (snd (construct c w))"
proof -
  let ?p = "create_player w"
  let ?ws = "create_walls (snd ?p)"
  have p: "grows w (snd ?p)" and n: "next_id (snd ?p) = Suc (next_id w)"
    and o: "objs (snd ?p) (next_id w)
              = Some (MovableEntity_new Player (next_id w) 10 10 40 30 ''black''
                     (Some ''../assets/red_ball.png'') None None False 10)"
    and f: "fst ?p = next_id w"
    by (rule create_player_facts)+
  have ws: "grows (snd ?p) (snd ?ws)" by (rule create_walls_grows)
  have keep: "objs w' (next_id w) = objs (snd ?p) (next_id w)" if "grows (snd ?p) w'" for w'
    using that n by (simp add: grows_def)
  from assms show ?thesis
  proof
    assume c: "c = Level1"
    let ?es = "Level1_create_entities (fst ?p) (snd ?ws)"
    have es: "grows (snd ?p) (snd ?es)"
      by (rule grows_trans [OF ws]) (rule Level1_create_entities_grows)
    have eq: "construct c w = (Level1_obj (fst ?p) (fst ?ws) (fst ?es) True, snd ?es)"
      by (simp add: c Level1_init_def split_beta Let_def)
    show ?thesis
      unfolding eq using keep [OF es] o f grows_trans [OF p es] by simp
  next
    assume c: "c = Level2"
    let ?es = "Level2_create_entities (fst ?p) (snd ?ws)"
    have es: "grows (snd ?p) (snd ?es)"
      by (rule grows_trans [OF ws]) (rule Level2_create_entities_grows)
    have eq: "construct c w = (Level2_obj (fst ?p) (fst ?ws) (fst ?es) True, snd ?es)"
      by (simp add: c Level2_init_def split_beta Let_def)
    show ?thesis
      unfolding eq using keep [OF es] o f grows_trans [OF p es] by simp
  qed
qed

lemma construct_grows: "grows w (snd (construct c w))"
proof (cases c)
  case Level1
  then show ?thesis using Level_init_player [of c w] by simp
next
  case Level2
  then show ?thesis using Level_init_player [of c w] by simp
next
  case WinMap
  then show ?thesis
    by (simp add: WinMap_init_def split_beta Let_def Entity_init_facts)
qed

section \<open>Facts about registration\<close>

lemma made_refl: "made w [] w"
  by (simp add: made_def)

lemma made_trans:
  assumes "made w ids1 w1" and "made w1 ids2 w2"
  shows "made w (ids1 @ ids2) w2"
proof -
  from assms have n: "next_id w \<le> next_id w1" "next_id w1 \<le> next_id w2"
    and d: "distinct ids1" "distinct ids2"
    and a1: "\<forall>i\<in>set ids1. next_id w \<le> i \<and> i < next_id w1 \<and> registered w1 i"
    and a2: "\<forall>i\<in>set ids2. next_id w1 \<le> i \<and> i < next_id w2 \<and> registered w2 i"
    and k1: "\<forall>j<next_id w. registered w j \<longrightarrow> registered w1 j"
    and k2: "\<forall>j<next_id w1. registered w1 j \<longrightarrow> registered w2 j"
    by (simp_all add: made_def list_all_iff)
  have disj: "set ids1 \<inter> set ids2 = {}"
  proof (rule ccontr)
    assume "set ids1 \<inter> set ids2 \<noteq> {}"
    then obtain i where "i \<in> set ids1" "i \<in> set ids2" by blast
    with a1 a2 have "i < next_id w1" "next_id w1 \<le> i" by blast+
    then show False by simp
  qed
  have "next_id w \<le> i \<and> i < next_id w2 \<and> registered w2 i" if "i \<in> set (ids1 @ ids2)" for i
  proof (cases "i \<in> set ids1")
    case True
    with a1 have "next_id w \<le> i" "i < next_id w1" "registered w1 i" by blast+
    with k2 n show ?thesis by auto
  next
    case False
    with that have "i \<in> set ids2" by simp
    with a2 n show ?thesis by auto
  qed
  moreover have "registered w2 j" if "j < next_id w" "registered w j" for j
    using that k1 k2 n by auto
  ultimately show ?thesis
    using n d disj by (simp add: made_def list_all_iff)
qed

lemma made_perm:
  assumes "made w ids w'" and "set ids' = set ids" and "distinct ids'"
  shows "made w ids' w'"
  using assms by (simp add: made_def list_all_iff)

lemma registered_modify:
  assumes "registered w j" and "\<And>s. e_id (f s) = e_id s" and "\<And>s. e_cls (f s) = e_cls s"
  shows "registered (modify i f w) j"
  using assms by (auto simp: registered_def modify_def split: option.splits)

lemma made_modify:
  assumes "made w ids w'" and "\<And>s. e_id (f s) = e_id s" and "\<And>s. e_cls (f s) = e_cls s"
  shows "made w ids (modify i f w')"
proof -
  have n: "next_id (modify i f w') = next_id w'"
    by (simp add: modify_def split: option.split)
  have r: "registered (modify i f w') j" if "registered w' j" for j
    using that assms(2,3) by (rule registered_modify)
  from assms(1) show ?thesis
    unfolding made_def list_all_iff n using r by blast
qed

lemma made_now:
  assumes "made w ids w'"
  shows "made w ids (snd (now w'))"
proof -
  have "registered (snd (now w')) j = registered w' j" for j
    by (simp add: registered_def now_def split: option.split)
  moreover have "next_id (snd (now w')) = next_id w'"
    by (simp add: now_def)
  ultimately show ?thesis
    using assms by (simp add: made_def)
qed

lemma Entity_new_fields [simp]:
  "e_id (Entity_new c i x y width height color img cb) = i"
  "e_cls (Entity_new c i x y width height color img cb) = c"
  by (simp_all add: Entity_new_def Let_def)

lemma MovableEntity_new_fields [simp]:
  "e_id (MovableEntity_new c i x y width height color img cb route on_route speed) = i"
  "e_cls (MovableEntity_new c i x y width height color img cb route on_route speed) = c"
  by (simp_all add: MovableEntity_new_def)

lemma Entity_init_registry:
  "entities_by_id (snd (Entity_init c x y width height color img cb w))
     = dict_set (next_id w) (entities_by_id w)"
  "walls_by_id (snd (Entity_init c x y width height color img cb w)) = walls_by_id w"
  "movable_entities_by_id (snd (Entity_init c x y width height color img cb w))
     = movable_entities_by_id w"
  "players_by_id (snd (Entity_init c x y width height color img cb w)) = players_by_id w"
  "objs (snd (Entity_init c x y width height color img cb w))
     = (objs w)(next_id w \<mapsto> Entity_new c (next_id w) x y width height color img cb)"
  by (simp_all add: Entity_init_def Let_def)

text \<open>The four constructors register what they make, each class in its registries.\<close>

lemma Entity_init_made:
  "made w [next_id w] (snd (Entity_init Entity x y width height color img cb w))"
  by (auto simp: made_def registered_def Entity_init_registry Entity_init_facts set_dict_set
      split: option.splits)

lemma Wall_init_made:
  "made w [next_id w] (snd (Wall_init x y width height color img cb w))"
  by (auto simp: made_def registered_def Wall_init_def split_beta Entity_init_registry
      Entity_init_facts set_dict_set split: option.splits)

lemma MovableEntity_init_made:
  assumes "c \<in> {MovableEntity, Enemy, EnemyTouch}"
  shows "made w [next_id w]
           (snd (MovableEntity_init c x y width height color img cb route on_route speed w))"
  using assms
  by (auto simp: made_def registered_def MovableEntity_init_def split_beta modify_def
      Entity_init_registry Entity_init_facts set_dict_set split: option.splits)

lemma Player_init_made:
  "made w [next_id w] (snd (Player_init x y width height color img cb w))"
  by (auto simp: made_def registered_def Player_init_def MovableEntity_init_def split_beta
      modify_def Entity_init_registry Entity_init_facts set_dict_set split: option.splits)

lemma Wall_list_made: "made w (fst (Wall_list args w)) (snd (Wall_list args w))"
proof (induction args arbitrary: w)
  case Nil
  then show ?case by (simp add: made_refl)
next
  case (Cons a args)
  obtain x y width height color where a: "a = (x, y, width, height, color)"
    by (cases a)
  let ?i = "Wall_init x y width height color None None w"
  have eq: "Wall_list (a # args) w = (fst ?i # fst (Wall_list args (snd ?i)), snd (Wall_list args (snd ?i)))"
    by (simp add: a split_beta)
  have "made w [next_id w] (snd ?i)" by (rule Wall_init_made)
  from made_trans [OF this Cons.IH [of "snd ?i"]] show ?case
    unfolding eq by (simp add: Wall_init_facts)
qed

lemma create_made:
  "made w (fst (create_walls w)) (snd (create_walls w))"
  "made w [fst (create_player w)] (snd (create_player w))"
  "made w [fst (create_enemy w)] (snd (create_enemy w))"
  "made w [fst (create_key player door door_opened w)] (snd (create_key player door door_opened w))"
  "made w [fst (create_graal player signal w)] (snd (create_graal player signal w))"
proof -
  show "made w (fst (create_walls w)) (snd (create_walls w))"
    unfolding create_walls_def by (rule Wall_list_made)
  show "made w [fst (create_player w)] (snd (create_player w))"
    by (simp add: create_player_def Player_init_facts Player_init_made)
  show "made w [fst (create_enemy w)] (snd (create_enemy w))"
    by (simp add: create_enemy_def MovableEntity_init_facts MovableEntity_init_made)
  show "made w [fst (create_key player door door_opened w)]
          (snd (create_key player door door_opened w))"
    by (simp add: create_key_def Entity_init_facts Entity_init_made)
  show "made w [fst (create_graal player signal w)] (snd (create_graal player signal w))"
    by (simp add: create_graal_def Entity_init_facts Entity_init_made)
qed

lemma Entity_hide_fields [simp]:
  "e_id (Entity_hide s) = e_id s" "e_cls (Entity_hide s) = e_cls s"
  by (simp_all add: Entity_hide_def)

lemma create_enemy2_made: "made w [fst (create_enemy2 w)] (snd (create_enemy2 w))"
proof -
  let ?m = "MovableEntity_init EnemyTouch 600 530 200 200 ''black''
              (Some ''../assets/spikes.png'') (Some (SpikesFrame (next_id w))) None False 10 w"
  have i: "fst ?m = next_id w" by (rule MovableEntity_init_facts)
  have "made w [next_id w] (snd ?m)"
    by (rule MovableEntity_init_made) simp
  then have "made w [next_id w] (modify (next_id w) Entity_hide
          (modify (next_id w) (\<lambda>s. s\<lparr>e_last_active := Some (fst (now (snd ?m)))\<rparr>)
             (snd (now (snd ?m)))))"
    by (intro made_modify made_now) simp_all
  then show ?thesis
    by (simp add: create_enemy2_def split_beta Let_def i)
qed

lemma Level1_create_entities_made:
  "made w (fst (Level1_create_entities player w)) (snd (Level1_create_entities player w))"
proof -
  let ?d = "Wall_init 702 272 5 145 ''brown'' None None w"
  let ?o = "Wall_init 627 202 145 5 ''brown'' None None (snd ?d)"
  let ?w3 = "modify (fst ?o) Entity_hide (snd ?o)"
  let ?e = "create_enemy ?w3"
  let ?k = "create_key player (fst ?d) (fst ?o) (snd ?e)"
  let ?g = "create_graal player NextLevel (snd ?k)"
  have fd: "fst ?d = next_id w" and fo: "fst ?o = next_id (snd ?d)"
    by (rule Wall_init_facts)+
  have 1: "made w [fst ?d] (snd ?d)" unfolding fd by (rule Wall_init_made)
  have 2: "made (snd ?d) [fst ?o] (snd ?o)" unfolding fo by (rule Wall_init_made)
  have 3: "made (snd ?d) [fst ?o] ?w3" by (rule made_modify [OF 2]) simp_all
  have 4: "made ?w3 [fst ?e] (snd ?e)" by (rule create_made)
  have 5: "made (snd ?e) [fst ?k] (snd ?k)" by (rule create_made)
  have 6: "made (snd ?k) [fst ?g] (snd ?g)" by (rule create_made)
  have all: "made w [fst ?d, fst ?o, fst ?e, fst ?k, fst ?g] (snd ?g)"
    using made_trans [OF 1 made_trans [OF 3 made_trans [OF 4 made_trans [OF 5 6]]]]
    by simp
  then have "distinct [fst ?d, fst ?o, fst ?e, fst ?k, fst ?g]" by (simp add: made_def)
  then have d: "distinct [fst ?e, fst ?d, fst ?o, fst ?k, fst ?g]" by auto
  have eq: "Level1_create_entities player w = ([fst ?e, fst ?d, fst ?o, fst ?k, fst ?g], snd ?g)"
    by (simp add: Level1_create_entities_def split_beta Let_def)
  show ?thesis
    unfolding eq fst_conv snd_conv by (rule made_perm [OF all _ d]) auto
qed

lemma Level2_create_entities_made:
  "made w (fst (Level2_create_entities player w)) (snd (Level2_create_entities player w))"
proof -
  let ?d = "Wall_init 702 272 5 145 ''brown'' None None w"
  let ?o = "Wall_init 627 202 145 5 ''brown'' None None (snd ?d)"
  let ?w3 = "modify (fst ?o) Entity_hide (snd ?o)"
  let ?e = "create_enemy ?w3"
  let ?s = "create_enemy2 (snd ?e)"
  let ?k = "create_key player (fst ?d) (fst ?o) (snd ?s)"
  let ?g = "create_graal player Win (snd ?k)"
  have fd: "fst ?d = next_id w" and fo: "fst ?o = next_id (snd ?d)"
    by (rule Wall_init_facts)+
  have 1: "made w [fst ?d] (snd ?d)" unfolding fd by (rule Wall_init_made)
  have 2: "made (snd ?d) [fst ?o] (snd ?o)" unfolding fo by (rule Wall_init_made)
  have 3: "made (snd ?d) [fst ?o] ?w3" by (rule made_modify [OF 2]) simp_all
  have 4: "made ?w3 [fst ?e] (snd ?e)" by (rule create_made)
  have 7: "made (snd ?e) [fst ?s] (snd ?s)" by (rule create_enemy2_made)
  have 5: "made (snd ?s) [fst ?k] (snd ?k)" by (rule create_made)
  have 6: "made (snd ?k) [fst ?g] (snd ?g)" by (rule create_made)
  have all: "made w [fst ?d, fst ?o, fst ?e, fst ?s, fst ?k, fst ?g] (snd ?g)"
    using made_trans [OF 1 made_trans [OF 3 made_trans [OF 4 made_trans [OF 7 made_trans [OF 5 6]]]]]
    by simp
  then have "distinct [fst ?d, fst ?o, fst ?e, fst ?s, fst ?k, fst ?g]" by (simp add: made_def)
  then have d: "distinct [fst ?e, fst ?s, fst ?d, fst ?o, fst ?k, fst ?g]" by auto
  have eq: "Level2_create_entities player w
              = ([fst ?e, fst ?s, fst ?d, fst ?o, fst ?k, fst ?g], snd ?g)"
    by (simp add: Level2_create_entities_def split_beta Let_def)
  show ?thesis
    unfolding eq fst_conv snd_conv by (rule made_perm [OF all _ d]) auto
qed

text \<open>A level object, as its constructor leaves it: the entities it owns are distinct
  objects, made by the constructor and registered.\<close>

lemma construct_made: "made w (level_ids (fst (construct c w))) (snd (construct c w))"
proof (cases c)
  case Level1
  let ?p = "create_player w"
  let ?ws = "create_walls (snd ?p)"
  let ?es = "Level1_create_entities (fst ?p) (snd ?ws)"
  have eq: "construct c w = (Level1_obj (fst ?p) (fst ?ws) (fst ?es) True, snd ?es)"
    by (simp add: Level1 Level1_init_def split_beta Let_def)
  have 1: "made w [fst ?p] (snd ?p)" by (rule create_made)
  have 2: "made (snd ?p) (fst ?ws) (snd ?ws)" by (rule create_made)
  have 3: "made (snd ?ws) (fst ?es) (snd ?es)" by (rule Level1_create_entities_made)
  from made_trans [OF 1 made_trans [OF 2 3]] show ?thesis
    unfolding eq by simp
next
  case Level2
  let ?p = "create_player w"
  let ?ws = "create_walls (snd ?p)"
  let ?es = "Level2_create_entities (fst ?p) (snd ?ws)"
  have eq: "construct c w = (Level2_obj (fst ?p) (fst ?ws) (fst ?es) True, snd ?es)"
    by (simp add: Level2 Level2_init_def split_beta Let_def)
  have 1: "made w [fst ?p] (snd ?p)" by (rule create_made)
  have 2: "made (snd ?p) (fst ?ws) (snd ?ws)" by (rule create_made)
  have 3: "made (snd ?ws) (fst ?es) (snd ?es)" by (rule Level2_create_entities_made)
  from made_trans [OF 1 made_trans [OF 2 3]] show ?thesis
    unfolding eq by simp
next
  case WinMap
  let ?t = "Entity_init Entity (of_int (fst (DISPLAY_RESOLUTION w) div 2))
              (of_int (snd (DISPLAY_RESOLUTION w) div 2)) 1280 720 ''black''
              (Some ''../assets/win.png'') None w"
  have eq: "construct c w = (WinMap_obj (fst ?t) False, snd ?t)"
    by (simp add: WinMap WinMap_init_def split_beta Let_def)
  show ?thesis
    unfolding eq by (simp add: Entity_init_facts Entity_init_made)
qed

text \<open>\<^verbatim>\<open>clear\<close> of a registered object returns and leaves the other registered objects
  registered.\<close>

lemma clear_registered:
  assumes "registered w i"
  shows "\<exists>w'. clear i w = Done w' \<and> (\<forall>j. j \<noteq> i \<longrightarrow> registered w j \<longrightarrow> registered w' j)"
proof -
  from assms obtain e where e: "objs w i = Some e" "e_id e = i"
    by (auto simp: registered_def split: option.splits)
  show ?thesis
  proof (cases "e_cls e")
    case Entity
    with assms e show ?thesis
      by (auto simp: registered_def clear_def Entity_clear_def dict_pop_def modify_def
          split: option.splits)
  next
    case Wall
    with assms e show ?thesis
      by (auto simp: registered_def clear_def Wall_clear_def Entity_clear_def dict_pop_def
          modify_def split: option.splits)
  next
    case MovableEntity
    with assms e show ?thesis
      by (auto simp: registered_def clear_def MovableEntity_clear_def Entity_clear_def
          dict_pop_def modify_def split: option.splits)
  next
    case Enemy
    with assms e show ?thesis
      by (auto simp: registered_def clear_def MovableEntity_clear_def Entity_clear_def
          dict_pop_def modify_def split: option.splits)
  next
    case EnemyTouch
    with assms e show ?thesis
      by (auto simp: registered_def clear_def MovableEntity_clear_def Entity_clear_def
          dict_pop_def modify_def split: option.splits)
  next
    case Player
    with assms e show ?thesis
      by (auto simp: registered_def clear_def Player_clear_def MovableEntity_clear_def
          Entity_clear_def dict_pop_def modify_def split: option.splits)
  qed
qed

lemma clear_each_registered:
  "distinct ids \<Longrightarrow> \<forall>i\<in>set ids. registered w i \<Longrightarrow> \<exists>w'. clear_each ids w = Done w'"
proof (induction ids arbitrary: w)
  case Nil
  then show ?case by simp
next
  case (Cons i ids)
  from Cons.prems(2) have "registered w i" by simp
  from clear_registered [OF this] obtain w1 where w1: "clear i w = Done w1"
    and keep: "\<forall>j. j \<noteq> i \<longrightarrow> registered w j \<longrightarrow> registered w1 j"
    by blast
  from Cons.prems keep have "\<forall>j\<in>set ids. registered w1 j" by auto
  with Cons.IH [of w1] Cons.prems(1) obtain w' where "clear_each ids w1 = Done w'" by auto
  with w1 show ?case by simp
qed

lemma Level_clear_eq: "Level_clear lv w = clear_each (level_ids lv) w"
proof -
  have "and_then (clear p w) (\<lambda>w1. and_then (clear_each ws w1) (clear_each es))
          = clear_each (p # ws @ es) w" for p ws es
    by (cases "clear p w") (simp_all add: clear_each_append)
  moreover have "and_then m (clear_each []) = m" for m :: "world outcome"
    by (cases m) simp_all
  ultimately show ?thesis by (cases lv) simp_all
qed

text \<open>\<^verbatim>\<open>clear\<close> of a level returns whenever the level's entities are distinct and
  registered: so for a level its constructor has just made.\<close>

lemma made_clearable:
  assumes "made w (level_ids lv) w'"
  shows "\<exists>w1. Level_clear lv w' = Done w1"
  unfolding Level_clear_eq
  by (rule clear_each_registered) (use assms in \<open>simp_all add: made_def list_all_iff\<close>)

lemma construct_clearable:
  "\<exists>w1. Level_clear (fst (construct c w)) (snd (construct c w)) = Done w1"
  by (rule made_clearable) (rule construct_made)

lemma enter_level_grows:
  assumes "enter_level (w1, g1) = Done (w2, g2)"
  shows "grows w1 w2"
proof (cases "getitem (levels g1) (current_level g1)")
  case None
  with assms show ?thesis by (simp add: enter_level_def init_level_def)
next
  case (Some sl)
  show ?thesis
  proof (cases sl)
    case (Class c)
    let ?g = "g1\<lparr>levels := (levels g1)[current_level g1 := Instance (fst (construct c w1))]\<rparr>"
    from Some Class assms
    have "show_level (current_level g1) (snd (construct c w1), ?g) = Done (w2, g2)"
      by (simp add: enter_level_def init_level_def split_beta)
    then have "w2 = snd (construct c w1)"
      by (auto simp: show_level_def split: option.splits slot.splits)
    then show ?thesis by (simp add: construct_grows)
  qed (use Some assms in \<open>simp_all add: enter_level_def init_level_def\<close>)
qed

lemma gone_grows:
  assumes "gone w e" and "grows w w'" and "e_id e < next_id w"
  shows "gone w' e"
proof -
  have h: "e_id e \<notin> A'" if "e_id e \<notin> A" "A' \<subseteq> A \<union> {next_id w..<next_id w'}"
    for A A' :: "nat set"
    using that assms(3) by auto
  from assms(2) have
    1: "set (entities_by_id w') \<subseteq> set (entities_by_id w) \<union> {next_id w..<next_id w'}" and
    2: "set (walls_by_id w') \<subseteq> set (walls_by_id w) \<union> {next_id w..<next_id w'}" and
    3: "set (movable_entities_by_id w')
          \<subseteq> set (movable_entities_by_id w) \<union> {next_id w..<next_id w'}" and
    4: "set (players_by_id w') \<subseteq> set (players_by_id w) \<union> {next_id w..<next_id w'}"
    by (simp_all add: grows_def)
  from assms(1) have
    a: "e_id e \<notin> set (entities_by_id w)" and
    b: "e_cls e = Wall \<longrightarrow> e_id e \<notin> set (walls_by_id w)" and
    c: "e_cls e \<in> {MovableEntity, Enemy, EnemyTouch, Player} \<longrightarrow>
          e_id e \<notin> set (movable_entities_by_id w)" and
    d: "e_cls e = Player \<longrightarrow> e_id e \<notin> set (players_by_id w)"
    by (simp_all add: gone_def)
  have "e_id e \<notin> set (entities_by_id w')" using a 1 by (rule h)
  moreover have "e_cls e = Wall \<longrightarrow> e_id e \<notin> set (walls_by_id w')"
    using b h [OF _ 2] by blast
  moreover have "e_cls e \<in> {MovableEntity, Enemy, EnemyTouch, Player} \<longrightarrow>
          e_id e \<notin> set (movable_entities_by_id w')"
    using c h [OF _ 3] by blast
  moreover have "e_cls e = Player \<longrightarrow> e_id e \<notin> set (players_by_id w')"
    using d h [OF _ 4] by blast
  ultimately show ?thesis by (simp add: gone_def)
qed

lemma construct_owned_live: "owned_live (snd (construct c w)) (fst (construct c w))"
  using construct_made [of w c] by (simp add: owned_live_def made_def list_all_iff)

lemma owned_live_clearable:
  assumes "owned_live w lv"
  shows "\<exists>w1. Level_clear lv w = Done w1"
  unfolding Level_clear_eq
  by (rule clear_each_registered) (use assms in \<open>simp_all add: owned_live_def list_all_iff\<close>)

text \<open>
  Claim C6. A transition is exhaustive. Let the current cell of the game hold a level
  object whose entities are live (distinct, registered objects, as the level's
  constructor leaves them), and let \<^verbatim>\<open>_go_to_level\<close> be called with an index of the
  list. Then its first half, leaving the old level, returns, and \<^verbatim>\<open>_go_to_level\<close> is
  that half followed by the construction of the new level. In the state between the
  two, every entity the old level owned (its player, its walls, its other entities)
  is gone from the registry of all entities and from the registries of its class, the
  walls from the wall registry. If the construction returns, they are still gone after
  it.
\<close>

theorem transition_clears_outgoing_level:
  assumes "getitem (levels g) (current_level g) = Some (Instance lv)"
    and "owned_live w lv"
    and "level < length (levels g)"
  shows "\<exists>w1 g1. leave_level level (w, g) = Done (w1, g1) \<and>
                 go_to_level level (w, g) = enter_level (w1, g1) \<and>
                 (\<forall>i\<in>set (level_ids lv).
                    \<exists>e. objs w i = Some e \<and> e_id e = i \<and> gone w1 e \<and>
                        (\<forall>w2 g2. enter_level (w1, g1) = Done (w2, g2) \<longrightarrow> gone w2 e))"
proof -
  from owned_live_clearable [OF assms(2)] obtain w1 where clr: "Level_clear lv w = Done w1" ..
  from assms(3) have tgt: "getitem (levels g) level = Some (levels g ! level)"
    by (simp add: getitem_def)
  let ?g1 = "g\<lparr>levels := (levels g)[current_level g :=
                 type_of (if level = current_level g then Instance lv else levels g ! level)],
               current_level := level\<rparr>"
  have leave: "leave_level level (w, g) = Done (w1, ?g1)"
    by (rule leave_level_Done [OF assms(1) clr tgt])
  then have go: "go_to_level level (w, g) = enter_level (w1, ?g1)"
    by (simp add: go_to_level_def)
  from Level_clear_Done [OF clr] have sh: "shrinks w w1"
    and all: "\<forall>i\<in>set (level_ids lv). \<exists>e. objs w i = Some e \<and> gone w1 e"
    by simp_all
  from sh have n: "next_id w1 = next_id w" by (simp add: shrinks_def)
  have "\<exists>e. objs w i = Some e \<and> e_id e = i \<and> gone w1 e \<and>
            (\<forall>w2 g2. enter_level (w1, ?g1) = Done (w2, g2) \<longrightarrow> gone w2 e)"
    if i: "i \<in> set (level_ids lv)" for i
  proof -
    from all i obtain e where e: "objs w i = Some e" "gone w1 e" by blast
    from assms(2) i have "i < next_id w" "registered w i"
      by (simp_all add: owned_live_def list_all_iff)
    with e(1) have id: "e_id e = i" "e_id e < next_id w1"
      using n by (simp_all add: registered_def)
    have "gone w2 e" if "enter_level (w1, ?g1) = Done (w2, g2)" for w2 g2
      using e(2) enter_level_grows [OF that] id(2) by (rule gone_grows)
    with e id(1) show ?thesis by blast
  qed
  with leave go show ?thesis by blast
qed

text \<open>Level 1, as its constructor makes it in the empty world, left for level 2.\<close>

theorem transition_clears_outgoing_level_witness:
  "\<exists>w1 g1.
     leave_level 1
       (snd (construct Level1 (empty_world (1280, 720) (\<lambda>n. 0))),
        \<lparr>current_level = 0,
         levels = [Instance (fst (construct Level1 (empty_world (1280, 720) (\<lambda>n. 0)))),
                   Class Level2, Class WinMap],
         screen = [], win_time = None\<rparr>) = Done (w1, g1) \<and>
     (\<forall>i\<in>set (level_ids (fst (construct Level1 (empty_world (1280, 720) (\<lambda>n. 0))))).
        \<exists>e. objs (snd (construct Level1 (empty_world (1280, 720) (\<lambda>n. 0)))) i = Some e \<and>
            e_id e = i \<and> gone w1 e)"
proof -
  let ?w0 = "empty_world (1280, 720) (\<lambda>n. 0)"
  let ?lv = "fst (construct Level1 ?w0)"
  let ?g = "\<lparr>current_level = 0, levels = [Instance ?lv, Class Level2, Class WinMap],
             screen = [], win_time = None\<rparr>"
  have cur: "getitem (levels ?g) (current_level ?g) = Some (Instance ?lv)"
    by (simp add: getitem_def)
  have live: "owned_live (snd (construct Level1 ?w0)) ?lv"
    by (rule construct_owned_live)
  have len: "1 < length (levels ?g)" by simp
  from transition_clears_outgoing_level [OF cur live len]
  show ?thesis by blast
qed

section \<open>Claims about the frame\<close>

text \<open>The loop of \<^verbatim>\<open>EnemyTouch.frame\<close> finds a player exactly when the rectangle of a
  registered player collides.\<close>

lemma touches_iff:
  "touches self players \<longleftrightarrow> (\<exists>pl\<in>set players. colliderect (e_rect self) (e_rect pl))"
  by (induction players) auto

lemma set_dict_values: "set (dict_values w ks) = {e. \<exists>k\<in>set ks. objs w k = Some e}"
  unfolding dict_values_def
  by (induction ks) (auto split: option.splits)

lemma move_keeps_callback [simp]:
  "e_frame_callback (MovableEntity_move res walls self x y) = e_frame_callback self"
  by (simp add: MovableEntity_move_def try_move_def Let_def split_beta)

lemma follow_route_keeps_callback [simp]:
  "e_frame_callback (follow_route res walls self) = e_frame_callback self"
  by (simp add: follow_route_def Let_def split: option.split)

lemma run_callback_GameOver:
  assumes "run_callback cb i w = Raised GameOver w'"
  shows "\<exists>p. cb = GraalFrame p GameOver"
proof (cases cb)
  case (KeyFrame player door door_opened)
  with assms show ?thesis
    by (simp add: run_callback_def split: option.splits if_splits)
next
  case (GraalFrame player signal)
  with assms show ?thesis
    by (simp add: run_callback_def split: option.splits if_splits)
next
  case (SpikesFrame spikes)
  with assms show ?thesis
    by (simp add: run_callback_def split_beta Let_def split: option.splits if_splits)
qed

lemma Entity_frame_GameOver:
  assumes "Entity_frame i w = Raised GameOver w'" and "objs w i = Some self"
  shows "\<exists>p. e_frame_callback self = Some (GraalFrame p GameOver)"
proof -
  from assms obtain cb where "e_frame_callback self = Some cb"
    "run_callback cb i w = Raised GameOver w'"
    by (auto simp: Entity_frame_def split: option.splits if_splits)
  with run_callback_GameOver show ?thesis by blast
qed

lemma MovableEntity_frame_GameOver:
  assumes "MovableEntity_frame i w = Raised GameOver w'" and "objs w i = Some self"
  shows "\<exists>p. e_frame_callback self = Some (GraalFrame p GameOver)"
proof -
  let ?f = "follow_route (DISPLAY_RESOLUTION w) (dict_values w (walls_by_id w))"
  have "objs (modify i ?f w) i = Some (?f self)"
    using assms(2) by (simp add: modify_def)
  from Entity_frame_GameOver [OF _ this] assms(1) show ?thesis
    by (simp add: MovableEntity_frame_def)
qed

lemma EnemyTouch_frame_GameOver:
  assumes "objs w i = Some self"
    and "\<forall>p. e_frame_callback self \<noteq> Some (GraalFrame p GameOver)"
  shows "(\<exists>w'. EnemyTouch_frame i w = Raised GameOver w') \<longleftrightarrow>
           e_on_screen self \<and>
           (\<exists>p\<in>set (players_by_id w). \<exists>pl. objs w p = Some pl \<and>
              colliderect (e_rect self) (e_rect pl))"
    and "e_on_screen self \<and>
           (\<exists>p\<in>set (players_by_id w). \<exists>pl. objs w p = Some pl \<and>
              colliderect (e_rect self) (e_rect pl)) \<Longrightarrow>
         EnemyTouch_frame i w = Raised GameOver w"
proof -
  have t: "touches self (dict_values w (players_by_id w)) \<longleftrightarrow>
             (\<exists>p\<in>set (players_by_id w). \<exists>pl. objs w p = Some pl \<and>
                colliderect (e_rect self) (e_rect pl))"
    by (auto simp: touches_iff set_dict_values)
  have no: "MovableEntity_frame i w \<noteq> Raised GameOver w'" for w'
    using MovableEntity_frame_GameOver [OF _ assms(1)] assms(2) by blast
  show "(\<exists>w'. EnemyTouch_frame i w = Raised GameOver w') \<longleftrightarrow>
           e_on_screen self \<and>
           (\<exists>p\<in>set (players_by_id w). \<exists>pl. objs w p = Some pl \<and>
              colliderect (e_rect self) (e_rect pl))"
    unfolding t [symmetric] using assms(1) no
    by (auto simp: EnemyTouch_frame_def)
  show "EnemyTouch_frame i w = Raised GameOver w"
    if "e_on_screen self \<and>
           (\<exists>p\<in>set (players_by_id w). \<exists>pl. objs w p = Some pl \<and>
              colliderect (e_rect self) (e_rect pl))"
    using that assms(1) unfolding t [symmetric]
    by (simp add: EnemyTouch_frame_def)
qed

lemma frame_each_append:
  "frame_each ks (xs @ ys) w = and_then (frame_each ks xs w) (frame_each ks ys)"
  by (induction xs arbitrary: w) (simp_all add: and_then_def split: outcome.split)

lemma handle_entities_raise:
  assumes "entities_by_id w = pre @ i # post"
    and "frame_each ks pre w = Done w1"
    and "frame ks i w1 = Raised e w2"
  shows "handle_entities ks w = Raised e w2"
  using assms by (simp add: handle_entities_def frame_each_append)

lemma class_of_construct [simp]: "class_of (fst (construct c w)) = c"
  by (cases c) (simp_all add: Level1_init_def Level2_init_def WinMap_init_def split_beta Let_def)

lemma owned_live_set_on_screen [simp]: "owned_live w (set_on_screen b lv) = owned_live w lv"
  by (simp add: owned_live_def)

lemma l_player_set_on_screen:
  "class_of lv \<noteq> WinMap \<Longrightarrow> l_player (set_on_screen b lv) = l_player lv"
  by (cases lv) simp_all

lemma l_player_owned: "class_of lv \<noteq> WinMap \<Longrightarrow> l_player lv \<in> set (level_ids lv)"
  by (cases lv) simp_all

lemma made_fresh:
  assumes "made w ids w'" and "i \<in> set ids"
  shows "next_id w \<le> i"
  using assms by (simp add: made_def list_all_iff)

text \<open>
  Claim C7. A hazard, an \<^verbatim>\<open>EnemyTouch\<close>, raises \<^verbatim>\<open>GameOver\<close> exactly when it is on screen
  and its rectangle collides (pygame's \<^verbatim>\<open>colliderect\<close>) with the rectangle of a player of
  the player registry; the raise ends the ticks of that frame, and the loop reloads the
  current level: the index is the same, the level object is a new one, its player at
  the spawn coordinates.

  The statement follows one pass of the loop of \<^verbatim>\<open>Game.start\<close> over \<open>(w, g)\<close>, outside the
  win hold. The hazard is the entity \<open>i\<close> of the registry, \<open>pre\<close> are the entities ticked
  before it and \<open>w1\<close> is the world they leave, in which the hazard is \<open>self\<close>. As in claim
  C6 the current cell holds a level object whose entities are live. The callbacks of the
  source raise \<^verbatim>\<open>NextLevel\<close> and \<^verbatim>\<open>Win\<close> only; the model carries the signal of a graal's
  callback as a parameter, so the callback of the hazard is asked not to be one that
  raises \<^verbatim>\<open>GameOver\<close> itself. Then:
  \<^item> the tick of the hazard raises \<^verbatim>\<open>GameOver\<close> exactly when the hazard is on screen and
    collides with a registered player;
  \<^item> in that case the raise leaves the world as it was when the tick began, and
    \<^verbatim>\<open>_handle_entities\<close> ends with it: the entities \<open>post\<close> are not ticked;
  \<^item> the pass returns: the old level is cleared (every entity it owned is gone from the
    registries), \<^verbatim>\<open>current_level\<close> and the other cells are unchanged, and the current
    cell holds a new object of the same class, on screen, whose entities are new
    objects, live;
  \<^item> for a level with a player, the new player is the first object made, registered, and
    as \<^verbatim>\<open>create_player\<close> makes it: at \<open>(10, 10)\<close>.
\<close>

theorem hazard_touch_restarts_level:
  assumes "entities_by_id w = pre @ i # post"
    and "frame_each ks pre w = Done w1"
    and "objs w1 i = Some self" and "e_cls self = EnemyTouch"
    and "\<forall>p. e_frame_callback self \<noteq> Some (GraalFrame p GameOver)"
    and "win_time g = None"
    and "getitem (levels g) (current_level g) = Some (Instance lv)"
    and "owned_live w1 lv"
  shows "((\<exists>w'. frame ks i w1 = Raised GameOver w') \<longleftrightarrow>
            e_on_screen self \<and>
            (\<exists>p\<in>set (players_by_id w1). \<exists>pl. objs w1 p = Some pl \<and>
               colliderect (e_rect self) (e_rect pl))) \<and>
         (e_on_screen self \<and>
          (\<exists>p\<in>set (players_by_id w1). \<exists>pl. objs w1 p = Some pl \<and>
             colliderect (e_rect self) (e_rect pl)) \<longrightarrow>
          frame ks i w1 = Raised GameOver w1 \<and>
          handle_entities ks w = Raised GameOver w1 \<and>
          (\<exists>w2 w3 lv'.
             Level_clear lv w1 = Done w2 \<and> construct (class_of lv) w2 = (lv', w3) \<and>
             start_pass False ks (w, g) =
               Done (w3, g\<lparr>screen := [],
                           levels := (levels g)[current_level g :=
                                        Instance (set_on_screen True lv')]\<rparr>) \<and>
             class_of lv' = class_of lv \<and> owned_live w3 lv' \<and>
             (\<forall>j\<in>set (level_ids lv'). next_id w1 \<le> j) \<and>
             (\<forall>j\<in>set (level_ids lv). \<exists>e. objs w1 j = Some e \<and> gone w3 e) \<and>
             (class_of lv \<noteq> WinMap \<longrightarrow>
                l_player lv' = next_id w1 \<and>
                objs w3 (l_player lv') =
                  Some (MovableEntity_new Player (next_id w1) 10 10 40 30 ''black''
                          (Some ''../assets/red_ball.png'') None None False 10) \<and>
                registered w3 (l_player lv'))))"
proof -
  let ?touch = "e_on_screen self \<and>
            (\<exists>p\<in>set (players_by_id w1). \<exists>pl. objs w1 p = Some pl \<and>
               colliderect (e_rect self) (e_rect pl))"
  have fr: "frame ks i w1 = EnemyTouch_frame i w1"
    using assms(3,4) by (simp add: frame_def)
  have iff: "(\<exists>w'. frame ks i w1 = Raised GameOver w') \<longleftrightarrow> ?touch"
    unfolding fr by (rule EnemyTouch_frame_GameOver(1) [OF assms(3,5)])
  have rest: "frame ks i w1 = Raised GameOver w1 \<and>
          handle_entities ks w = Raised GameOver w1 \<and>
          (\<exists>w2 w3 lv'.
             Level_clear lv w1 = Done w2 \<and> construct (class_of lv) w2 = (lv', w3) \<and>
             start_pass False ks (w, g) =
               Done (w3, g\<lparr>screen := [],
                           levels := (levels g)[current_level g :=
                                        Instance (set_on_screen True lv')]\<rparr>) \<and>
             class_of lv' = class_of lv \<and> owned_live w3 lv' \<and>
             (\<forall>j\<in>set (level_ids lv'). next_id w1 \<le> j) \<and>
             (\<forall>j\<in>set (level_ids lv). \<exists>e. objs w1 j = Some e \<and> gone w3 e) \<and>
             (class_of lv \<noteq> WinMap \<longrightarrow>
                l_player lv' = next_id w1 \<and>
                objs w3 (l_player lv') =
                  Some (MovableEntity_new Player (next_id w1) 10 10 40 30 ''black''
                          (Some ''../assets/red_ball.png'') None None False 10) \<and>
                registered w3 (l_player lv')))"
    if touch: ?touch
  proof -
    have raise: "frame ks i w1 = Raised GameOver w1"
      unfolding fr by (rule EnemyTouch_frame_GameOver(2) [OF assms(3,5) touch])
    have he: "handle_entities ks w = Raised GameOver w1"
      by (rule handle_entities_raise [OF assms(1,2) raise])
    let ?g = "g\<lparr>screen := []\<rparr>"
    have gf: "Game_frame ks (w, ?g) = Raised GameOver (w1, ?g)"
      by (simp add: Game_frame_def he)
    from owned_live_clearable [OF assms(8)] obtain w2 where clr: "Level_clear lv w1 = Done w2" ..
    have cur: "getitem (levels ?g) (current_level ?g) = Some (Instance lv)"
      using assms(7) by simp
    let ?c = "class_of lv"
    let ?lv' = "fst (construct ?c w2)"
    let ?w3 = "snd (construct ?c w2)"
    have go: "go_to_level (current_level ?g) (w1, ?g) =
                Done (?w3, ?g\<lparr>levels := (levels ?g)[current_level ?g :=
                                  Instance (set_on_screen True ?lv')]\<rparr>)"
      by (rule go_to_level_same [OF cur clr])
    have pass: "start_pass False ks (w, g) =
                  Done (?w3, g\<lparr>screen := [],
                                levels := (levels g)[current_level g :=
                                            Instance (set_on_screen True ?lv')]\<rparr>)"
      using assms(6) gf go by (simp add: start_pass_def handle_signal_def)
    from Level_clear_Done [OF clr] have sh: "shrinks w1 w2"
      and all: "\<forall>j\<in>set (level_ids lv). \<exists>e. objs w1 j = Some e \<and> gone w2 e"
      by simp_all
    from sh have n: "next_id w2 = next_id w1" by (simp add: shrinks_def)
    have fresh: "\<forall>j\<in>set (level_ids ?lv'). next_id w1 \<le> j"
      using made_fresh [OF construct_made [of w2 ?c]] n by simp
    have gone: "\<exists>e. objs w1 j = Some e \<and> gone ?w3 e" if j: "j \<in> set (level_ids lv)" for j
    proof -
      from all j obtain e where e: "objs w1 j = Some e" "gone w2 e" by blast
      from assms(8) j have "j < next_id w1" "registered w1 j"
        by (simp_all add: owned_live_def list_all_iff)
      with e(1) have id: "e_id e < next_id w2"
        using n by (simp add: registered_def)
      have "gone ?w3 e"
        using e(2) construct_grows id by (rule gone_grows)
      with e(1) show ?thesis by blast
    qed
    have live: "owned_live ?w3 ?lv'" by (rule construct_owned_live)
    have player: "l_player ?lv' = next_id w1 \<and>
                objs ?w3 (l_player ?lv') =
                  Some (MovableEntity_new Player (next_id w1) 10 10 40 30 ''black''
                          (Some ''../assets/red_ball.png'') None None False 10) \<and>
                registered ?w3 (l_player ?lv')"
      if nw: "?c \<noteq> WinMap"
    proof -
      from nw have c: "?c = Level1 \<or> ?c = Level2" by (cases ?c) simp_all
      from Level_init_player [OF c, of w2] have p: "l_player ?lv' = next_id w1"
        and o: "objs ?w3 (next_id w1) =
                  Some (MovableEntity_new Player (next_id w1) 10 10 40 30 ''black''
                          (Some ''../assets/red_ball.png'') None None False 10)"
        using n by simp_all
      have "l_player ?lv' \<in> set (level_ids ?lv')"
        by (rule l_player_owned) (use nw in simp)
      with live have "registered ?w3 (l_player ?lv')"
        by (simp add: owned_live_def list_all_iff)
      with p o show ?thesis by simp
    qed
    have body: "Level_clear lv w1 = Done w2 \<and> construct ?c w2 = (?lv', ?w3) \<and>
             start_pass False ks (w, g) =
               Done (?w3, g\<lparr>screen := [],
                           levels := (levels g)[current_level g :=
                                        Instance (set_on_screen True ?lv')]\<rparr>) \<and>
             class_of ?lv' = class_of lv \<and> owned_live ?w3 ?lv' \<and>
             (\<forall>j\<in>set (level_ids ?lv'). next_id w1 \<le> j) \<and>
             (\<forall>j\<in>set (level_ids lv). \<exists>e. objs w1 j = Some e \<and> gone ?w3 e) \<and>
             (class_of lv \<noteq> WinMap \<longrightarrow>
                l_player ?lv' = next_id w1 \<and>
                objs ?w3 (l_player ?lv') =
                  Some (MovableEntity_new Player (next_id w1) 10 10 40 30 ''black''
                          (Some ''../assets/red_ball.png'') None None False 10) \<and>
                registered ?w3 (l_player ?lv'))"
    proof -
      have con: "construct ?c w2 = (?lv', ?w3)" by simp
      have cls: "class_of ?lv' = class_of lv" by simp
      have gone': "\<forall>j\<in>set (level_ids lv). \<exists>e. objs w1 j = Some e \<and> gone ?w3 e"
        using gone by blast
      have player': "class_of lv \<noteq> WinMap \<longrightarrow>
                l_player ?lv' = next_id w1 \<and>
                objs ?w3 (l_player ?lv') =
                  Some (MovableEntity_new Player (next_id w1) 10 10 40 30 ''black''
                          (Some ''../assets/red_ball.png'') None None False 10) \<and>
                registered ?w3 (l_player ?lv')"
        using player by blast
      from clr con pass cls live fresh gone' player' show ?thesis
        by (intro conjI)
    qed
    have "\<exists>w2 w3 lv'.
             Level_clear lv w1 = Done w2 \<and> construct (class_of lv) w2 = (lv', w3) \<and>
             start_pass False ks (w, g) =
               Done (w3, g\<lparr>screen := [],
                           levels := (levels g)[current_level g :=
                                        Instance (set_on_screen True lv')]\<rparr>) \<and>
             class_of lv' = class_of lv \<and> owned_live w3 lv' \<and>
             (\<forall>j\<in>set (level_ids lv'). next_id w1 \<le> j) \<and>
             (\<forall>j\<in>set (level_ids lv). \<exists>e. objs w1 j = Some e \<and> gone w3 e) \<and>
             (class_of lv \<noteq> WinMap \<longrightarrow>
                l_player lv' = next_id w1 \<and>
                objs w3 (l_player lv') =
                  Some (MovableEntity_new Player (next_id w1) 10 10 40 30 ''black''
                          (Some ''../assets/red_ball.png'') None None False 10) \<and>
                registered w3 (l_player lv'))"
      using body by - ((rule exI)+)
    with raise he show ?thesis by simp
  qed
  from iff rest show ?thesis by blast
qed

text \<open>A level 1 reduced to a player, at \<open>(800, 200)\<close>, and the enemy that \<^verbatim>\<open>create_enemy\<close>
  makes, at \<open>(810, 202)\<close>, in a world that holds nothing else; no key is pressed. The
  player is ticked first and stays where it is; the tick of the enemy raises; the pass
  returns with a new level 1 in cell 0, whose player is the object 2, at \<open>(10, 10)\<close>.\<close>

lemma modify_id: "objs w i = Some e \<Longrightarrow> f e = e \<Longrightarrow> modify i f w = w"
  by (simp add: modify_def fun_upd_idem)

lemmas world_eval = empty_world_def Player_init_def MovableEntity_init_def Entity_init_def
  create_enemy_def modify_def dict_set_def Let_def split_beta

theorem hazard_touch_restarts_level_witness:
  "(let ks = \<lparr>K_UP = False, K_DOWN = False, K_LEFT = False, K_RIGHT = False\<rparr>;
        w = snd (create_enemy (snd (Player_init 800 200 40 30 ''black''
                   (Some ''../assets/red_ball.png'') None (empty_world (1280, 720) (\<lambda>n. 0)))));
        g = \<lparr>current_level = 0,
             levels = [Instance (Level1_obj 0 [] [1] True), Class Level2, Class WinMap],
             screen = [], win_time = None\<rparr>
    in entities_by_id w = [0, 1] \<and>
       frame_each ks [0] w = Done w \<and>
       handle_entities ks w = Raised GameOver w \<and>
       (\<exists>w3 lv'. start_pass False ks (w, g) =
                     Done (w3, g\<lparr>levels := [Instance (set_on_screen True lv'),
                                             Class Level2, Class WinMap]\<rparr>) \<and>
                   class_of lv' = Level1 \<and> l_player lv' = 2 \<and>
                   (\<exists>pl. objs w3 2 = Some pl \<and> e_x pl = 10 \<and> e_y pl = 10)))"
proof -
  let ?ks = "\<lparr>K_UP = False, K_DOWN = False, K_LEFT = False, K_RIGHT = False\<rparr>"
  let ?w = "snd (create_enemy (snd (Player_init 800 200 40 30 ''black''
                   (Some ''../assets/red_ball.png'') None (empty_world (1280, 720) (\<lambda>n. 0)))))"
  let ?g = "\<lparr>current_level = 0,
             levels = [Instance (Level1_obj 0 [] [1] True), Class Level2, Class WinMap],
             screen = [], win_time = None\<rparr>"
  let ?player = "MovableEntity_new Player 0 800 200 40 30 ''black''
                   (Some ''../assets/red_ball.png'') None None False 10"
  let ?enemy = "MovableEntity_new EnemyTouch 1 810 202 120 105 ''black''
                  (Some ''../assets/monster_3.png'') None (Some (patrol False)) True 5"
  have reg: "entities_by_id ?w = [0, 1]" "players_by_id ?w = [0]" "walls_by_id ?w = []"
    "movable_entities_by_id ?w = [0, 1]" "next_id ?w = 2" "DISPLAY_RESOLUTION ?w = (1280, 720)"
    by (simp_all add: world_eval)
  have o: "objs ?w = [0 \<mapsto> ?player, 1 \<mapsto> ?enemy]"
    by (simp add: world_eval MovableEntity_new_def)
  have o0: "objs ?w 0 = Some ?player" and o1: "objs ?w 1 = Some ?enemy"
    by (simp_all add: o)
  have kb: "keyboard_step (e_speed ?player) ?ks = (0, 0)"
    by (simp add: keyboard_step_def)
  have mv: "MovableEntity_move (1280, 720) [] ?player 0 0 = ?player"
    by (simp add: MovableEntity_move_def entity_eval Let_def)
  have hk: "handle_keyboard ?ks 0 ?w = ?w"
    unfolding handle_keyboard_def
    by (rule modify_id [OF o0]) (simp add: kb reg dict_values_def mv)
  have fr: "follow_route (1280, 720) [] ?player = ?player"
    by (simp add: follow_route_def MovableEntity_new_def)
  have mf: "MovableEntity_frame 0 ?w = Done ?w"
  proof -
    have "modify 0 (follow_route (DISPLAY_RESOLUTION ?w) (dict_values ?w (walls_by_id ?w))) ?w = ?w"
      by (rule modify_id [OF o0]) (simp add: reg dict_values_def fr)
    then show ?thesis
      unfolding MovableEntity_frame_def
      by (simp add: Entity_frame_def o0 MovableEntity_new_def Entity_new_def Let_def)
  qed
  have 2: "frame_each ?ks [0] ?w = Done ?w"
    by (simp add: frame_def o0 Player_frame_def hk mf)
  have 1: "entities_by_id ?w = [0] @ 1 # []"
    by (simp add: reg)
  have 4: "e_cls ?enemy = EnemyTouch" by simp
  have 5: "\<forall>p. e_frame_callback ?enemy \<noteq> Some (GraalFrame p GameOver)"
    by (simp add: MovableEntity_new_def Entity_new_def Let_def)
  have 6: "win_time ?g = None" by simp
  have 7: "getitem (levels ?g) (current_level ?g) = Some (Instance (Level1_obj 0 [] [1] True))"
    by (simp add: getitem_def)
  have 8: "owned_live ?w (Level1_obj 0 [] [1] True)"
    by (simp add: owned_live_def registered_def reg o)
  have touch: "e_on_screen ?enemy \<and>
          (\<exists>p\<in>set (players_by_id ?w). \<exists>pl. objs ?w p = Some pl \<and>
             colliderect (e_rect ?enemy) (e_rect pl))"
    by (simp add: reg o entity_eval)
  from hazard_touch_restarts_level [OF 1 2 o1 4 5 6 7 8] touch
  obtain w3 lv' where he: "handle_entities ?ks ?w = Raised GameOver ?w"
    and pass: "start_pass False ?ks (?w, ?g) =
               Done (w3, ?g\<lparr>screen := [],
                           levels := (levels ?g)[current_level ?g :=
                                        Instance (set_on_screen True lv')]\<rparr>)"
    and cls: "class_of lv' = class_of (Level1_obj 0 [] [1] True)"
    and pl: "class_of (Level1_obj 0 [] [1] True) \<noteq> WinMap \<longrightarrow>
                l_player lv' = next_id ?w \<and>
                objs w3 (l_player lv') =
                  Some (MovableEntity_new Player (next_id ?w) 10 10 40 30 ''black''
                          (Some ''../assets/red_ball.png'') None None False 10) \<and>
                registered w3 (l_player lv')"
    by blast
  from pl have p2: "l_player lv' = 2"
    and p3: "objs w3 2 = Some (MovableEntity_new Player 2 10 10 40 30 ''black''
                          (Some ''../assets/red_ball.png'') None None False 10)"
    unfolding reg by auto
  have p4: "\<exists>pl. objs w3 2 = Some pl \<and> e_x pl = 10 \<and> e_y pl = 10"
    unfolding p3 by (simp add: MovableEntity_new_def Entity_new_def Let_def)
  have "start_pass False ?ks (?w, ?g) =
               Done (w3, ?g\<lparr>levels := [Instance (set_on_screen True lv'),
                                             Class Level2, Class WinMap]\<rparr>)"
    unfolding pass by simp
  with cls p2 p4 have "\<exists>w3 lv'. start_pass False ?ks (?w, ?g) =
                     Done (w3, ?g\<lparr>levels := [Instance (set_on_screen True lv'),
                                             Class Level2, Class WinMap]\<rparr>) \<and>
                   class_of lv' = Level1 \<and> l_player lv' = 2 \<and>
                   (\<exists>pl. objs w3 2 = Some pl \<and> e_x pl = 10 \<and> e_y pl = 10)"
    by auto
  with reg(1) 2 he show ?thesis
    unfolding Let_def by blast
qed


section \<open>Claims about the win hold\<close>

lemma no_way_back_screen [simp]: "no_way_back (g\<lparr>screen := scr\<rparr>) = no_way_back g"
  by (simp add: no_way_back_def)

lemma is_Class_iff: "is_Class sl \<longleftrightarrow> (\<exists>c. sl = Class c)"
  by (cases sl) simp_all

lemma go_to_level_Done:
  assumes "go_to_level level (w, g) = Done (w', g')"
  shows "\<exists>lv w1. getitem (levels g) (current_level g) = Some (Instance lv) \<and>
           Level_clear lv w = Done w1 \<and>
           (if level = current_level g
            then g' = g\<lparr>levels := (levels g)[current_level g :=
                          Instance (set_on_screen True (fst (construct (class_of lv) w1)))]\<rparr>
            else \<exists>c. getitem (levels g) level = Some (Class c) \<and>
                   g' = g\<lparr>levels := (levels g)[current_level g := ABCMeta,
                            level := Instance (set_on_screen True (fst (construct c w1)))],
                          current_level := level\<rparr>)"
proof -
  from assms obtain lv where cur: "getitem (levels g) (current_level g) = Some (Instance lv)"
    by (cases "getitem (levels g) (current_level g)"; cases "the (getitem (levels g) (current_level g))")
       (auto simp: go_to_level_def leave_level_def clear_current_def)
  obtain w1 where clr: "Level_clear lv w = Done w1"
  proof (cases "Level_clear lv w")
    case (Done w1)
    then show ?thesis by (rule that)
  next
    case (Raised e w1)
    with cur assms show ?thesis
      by (simp add: go_to_level_def leave_level_Raised)
  qed
  show ?thesis
  proof (cases "level = current_level g")
    case True
    with assms go_to_level_same [OF cur clr] cur clr show ?thesis by simp
  next
    case False
    show ?thesis
    proof (cases "getitem (levels g) level")
      case None
      with assms leave_level_IndexError [OF cur clr None] show ?thesis
        by (auto simp: go_to_level_def)
    next
      case (Some sl)
      show ?thesis
      proof (cases "\<exists>c. sl = Class c")
        case True
        then obtain c where "sl = Class c" ..
        with Some have new: "getitem (levels g) level = Some (Class c)" by simp
        from assms go_to_level_other [OF cur clr new] cur clr new False show ?thesis by simp
      next
        case no: False
        with go_to_level_no_class [OF cur clr Some False] assms show ?thesis
          by simp
      qed
    qed
  qed
qed

lemma go_to_level_no_way_back:
  assumes "length (levels g) = 3"
    and "current_level g \<noteq> 0 \<longrightarrow> \<not> is_Class (levels g ! 0)"
    and "go_to_level level (w, g) = Done (w', g')"
  shows "length (levels g') = 3 \<and> (current_level g' \<noteq> 0 \<longrightarrow> \<not> is_Class (levels g' ! 0)) \<and>
         current_level g' = level \<and> win_time g' = win_time g"
proof -
  from go_to_level_Done [OF assms(3)] obtain lv w1 where
    cur: "getitem (levels g) (current_level g) = Some (Instance lv)"
    and g': "if level = current_level g
            then g' = g\<lparr>levels := (levels g)[current_level g :=
                          Instance (set_on_screen True (fst (construct (class_of lv) w1)))]\<rparr>
            else \<exists>c. getitem (levels g) level = Some (Class c) \<and>
                   g' = g\<lparr>levels := (levels g)[current_level g := ABCMeta,
                            level := Instance (set_on_screen True (fst (construct c w1)))],
                          current_level := level\<rparr>"
    by blast
  show ?thesis
  proof (cases "level = current_level g")
    case True
    with g' assms(1,2) show ?thesis
      by (auto simp: nth_list_update)
  next
    case False
    with g' obtain c where "getitem (levels g) level = Some (Class c)"
      and "g' = g\<lparr>levels := (levels g)[current_level g := ABCMeta,
                            level := Instance (set_on_screen True (fst (construct c w1)))],
                          current_level := level\<rparr>"
      by auto
    moreover from cur have "current_level g < length (levels g)"
      by (simp add: getitem_Some)
    ultimately show ?thesis
      using assms(1,2) False by (auto simp: nth_list_update getitem_Some)
  qed
qed

lemma Game_init_no_way_back: "no_way_back (snd (Game_init w))"
  by (simp add: Game_init_eq no_way_back_def)

lemma show_current_Done:
  "show_current (w, g) = Done (w', g') \<Longrightarrow> \<exists>scr. g' = g\<lparr>screen := scr\<rparr>"
  by (auto simp: show_current_def split: option.splits slot.splits)

lemma show_current_Raised:
  "show_current s = Raised e s' \<Longrightarrow> e \<in> {IndexError, TypeError, AttributeError}"
  by (auto simp: show_current_def split: prod.splits option.splits slot.splits)

lemma start_pass_no_way_back:
  assumes "no_way_back g" and "start_pass quit ks (w, g) = Done (w', g')"
  shows "no_way_back g'"
proof (cases "win_time g")
  case (Some since)
  let ?g = "g\<lparr>screen := []\<rparr>"
  from assms(2) have nq: "\<not> quit" by (auto simp: start_pass_def)
  show ?thesis
  proof (cases "fst (now w) - since > 10000000")
    case True
    with assms(2) Some nq obtain w2 g2 where
      go: "go_to_level 0 (snd (now w), ?g\<lparr>win_time := None\<rparr>) = Done (w2, g2)"
      and sh: "show_current (w2, g2) = Done (w', g')"
      by (cases "go_to_level 0 (snd (now w), ?g\<lparr>win_time := None\<rparr>)")
         (auto simp: start_pass_def split_beta Let_def)
    from assms(1) have "length (levels (?g\<lparr>win_time := None\<rparr>)) = 3"
      "current_level (?g\<lparr>win_time := None\<rparr>) \<noteq> 0 \<longrightarrow>
         \<not> is_Class (levels (?g\<lparr>win_time := None\<rparr>) ! 0)"
      by (simp_all add: no_way_back_def)
    from go_to_level_no_way_back [OF this go] have "no_way_back g2"
      by (simp add: no_way_back_def)
    with show_current_Done [OF sh] show ?thesis by auto
  next
    case False
    with assms(2) Some nq have "show_current (snd (now w), ?g) = Done (w', g')"
      by (simp add: start_pass_def split_beta Let_def)
    from show_current_Done [OF this] assms(1) show ?thesis by auto
  qed
next
  case None
  let ?g = "g\<lparr>screen := []\<rparr>"
  from assms(2) have nq: "\<not> quit" by (auto simp: start_pass_def)
  have inv: "length (levels ?g) = 3" "current_level ?g \<noteq> 0 \<longrightarrow> \<not> is_Class (levels ?g ! 0)"
    using assms(1) by (simp_all add: no_way_back_def)
  show ?thesis
  proof (cases "handle_entities ks w")
    case (Done w1)
    have "show_current (w1, ?g) = Done (w', g')"
    proof (cases "show_current (w1, ?g)")
      case d: (Done s1)
      with assms(2) None nq Done show ?thesis
        by (simp add: start_pass_def Let_def Game_frame_def)
    next
      case r: (Raised e s1)
      from show_current_Raised [OF r] have "handle_signal e s1 = Raised e s1"
        by (auto simp: handle_signal_def)
      with assms(2) None nq Done r show ?thesis
        by (simp add: start_pass_def Let_def Game_frame_def)
    qed
    from show_current_Done [OF this] assms(1) show ?thesis by auto
  next
    case (Raised e w1)
    with assms(2) None nq have hs: "handle_signal e (w1, ?g) = Done (w', g')"
      by (simp add: start_pass_def Let_def Game_frame_def)
    show ?thesis
    proof (cases "e = GameOver \<or> e = NextLevel")
      case True
      then obtain level where "go_to_level level (w1, ?g) = Done (w', g')"
        using hs by (auto simp: handle_signal_def)
      from go_to_level_no_way_back [OF inv this] None show ?thesis
        by (simp add: no_way_back_def)
    next
      case False
      show ?thesis
      proof (cases "e = Win")
        case True
        with hs obtain w2 g2 where
          go: "go_to_level (length (levels ?g) - 1) (w1, ?g) = Done (w2, g2)"
          and g': "g' = g2\<lparr>win_time := Some (fst (now w2))\<rparr>"
          by (cases "go_to_level (length (levels ?g) - 1) (w1, ?g)")
             (auto simp: handle_signal_def split_beta Let_def)
        from go_to_level_no_way_back [OF inv go] inv(1) g' show ?thesis
          by (simp add: no_way_back_def)
      next
        case nw: False
        with False hs show ?thesis
          by (cases e) (simp_all add: handle_signal_def)
      qed
    qed
  qed
qed

lemma registered_now [simp]: "registered (snd (now w)) i = registered w i"
  unfolding registered_def now_def by (simp split: option.split)

lemma owned_live_now [simp]: "owned_live (snd (now w)) lv = owned_live w lv"
proof -
  have "next_id (snd (now w)) = next_id w" by (simp add: now_def)
  then show ?thesis by (simp add: owned_live_def)
qed

text \<open>During a win hold the game is at a cell other than 0, and cell 0 holds no
  class.\<close>

lemma no_way_back_hold:
  assumes "no_way_back g" and "win_time g = Some since"
  shows "current_level g \<noteq> 0 \<and>
         (\<exists>sl. getitem (levels g) 0 = Some sl \<and> (\<forall>c. sl \<noteq> Class c))"
  using assms by (auto simp: no_way_back_def getitem_def is_Class_iff)

text \<open>The way to a win hold from a game at cell 0 of the list that \<^verbatim>\<open>Game.__init__\<close>
  builds: the graal of level 1 raises \<^verbatim>\<open>NextLevel\<close>, the graal of level 2 raises \<^verbatim>\<open>Win\<close>.
  Each transition stores the type of the class it goes to in the cell it leaves.\<close>

lemma play_through_levels:
  assumes "levels g = [Instance lv, Class Level2, Class WinMap]"
    and "current_level g = 0" and "owned_live w lv"
  shows "\<exists>w1 g1 w2 g2 lv3 t.
           handle_signal NextLevel (w, g) = Done (w1, g1) \<and>
           handle_signal Win (w1, g1) = Done (w2, g2) \<and>
           levels g2 = [ABCMeta, ABCMeta, Instance lv3] \<and> current_level g2 = 2 \<and>
           win_time g2 = Some t \<and> owned_live w2 lv3"
proof -
  from owned_live_clearable [OF assms(3)] obtain wa where clr: "Level_clear lv w = Done wa" ..
  have cur: "getitem (levels g) (current_level g) = Some (Instance lv)"
    using assms(1,2) by (simp add: getitem_def)
  have new: "getitem (levels g) (current_level g + 1) = Some (Class Level2)"
    using assms(1,2) by (simp add: getitem_def)
  let ?lv2 = "set_on_screen True (fst (construct Level2 wa))"
  let ?w1 = "snd (construct Level2 wa)"
  let ?g1 = "g\<lparr>levels := [ABCMeta, Instance ?lv2, Class WinMap], current_level := 1\<rparr>"
  have 1: "handle_signal NextLevel (w, g) = Done (?w1, ?g1)"
    using go_to_level_other [OF cur clr new] assms(1,2) by (simp add: handle_signal_def)
  have live2: "owned_live ?w1 ?lv2"
    using construct_owned_live [of Level2 wa] by simp
  from owned_live_clearable [OF live2] obtain wb where clr2: "Level_clear ?lv2 ?w1 = Done wb" ..
  have cur2: "getitem (levels ?g1) (current_level ?g1) = Some (Instance ?lv2)"
    by (simp add: getitem_def)
  have new2: "getitem (levels ?g1) (length (levels ?g1) - 1) = Some (Class WinMap)"
    by (simp add: getitem_def)
  let ?lv3 = "set_on_screen True (fst (construct WinMap wb))"
  let ?w2 = "snd (construct WinMap wb)"
  let ?g2 = "g\<lparr>levels := [ABCMeta, ABCMeta, Instance ?lv3], current_level := 2,
               win_time := Some (fst (now ?w2))\<rparr>"
  have 2: "handle_signal Win (?w1, ?g1) = Done (snd (now ?w2), ?g2)"
    using go_to_level_other [OF cur2 clr2 new2] by (simp add: handle_signal_def split_beta)
  have live3: "owned_live (snd (now ?w2)) ?lv3"
    using construct_owned_live [of WinMap wb] by simp
  from 1 2 live3 show ?thesis by simp
qed

text \<open>
  Claim C8. While the win hold lasts, a pass of the loop ticks no entity and shows the
  current level only, the win map; once more than ten seconds have passed since the
  hold began, the timer is cleared and the game goes to the level of index 0.

  The first half is what the code does: the pass reads the clock, changes no object
  and no registry, and the display receives the drawing of the current level alone. The
  second half the code attempts and misses. On expiry \<^verbatim>\<open>_go_to_level(0)\<close> clears the
  current level, clears the timer and sets \<^verbatim>\<open>current_level = 0\<close>; then \<^verbatim>\<open>_init_level\<close>
  calls the cell 0, and that cell holds no class. \<^verbatim>\<open>_go_to_level\<close> stores
  \<^verbatim>\<open>type(self.levels[level])\<close> in the cell it leaves, the type of a class, so that cell 0
  holds \<^verbatim>\<open>ABCMeta\<close> once level 1 was left (\<open>play_through_levels\<close>); before that it holds
  the level object of \<^verbatim>\<open>Game.__init__\<close>. No pass of the loop puts a class there while
  the game is elsewhere (\<open>Game_init_no_way_back\<close>, \<open>start_pass_no_way_back\<close>,
  \<open>no_way_back_hold\<close>). The call raises \<^verbatim>\<open>TypeError\<close>, which \<^verbatim>\<open>Game.start\<close> does not
  catch: the game ends with no level at index 0.
\<close>

theorem win_hold_expiry_raises:
  assumes "win_time g = Some since"
    and "getitem (levels g) (current_level g) = Some (Instance lv)"
    and "owned_live w lv"
    and "current_level g \<noteq> 0"
    and "getitem (levels g) 0 = Some sl"
    and "\<forall>c. sl \<noteq> Class c"
  shows "(clock w (clock_reads w) - since \<le> 10000000 \<longrightarrow>
            start_pass False ks (w, g) =
              Done (snd (now w), g\<lparr>screen := Level_show lv (snd (now w)) []\<rparr>)) \<and>
         (clock w (clock_reads w) - since > 10000000 \<longrightarrow>
            (\<exists>w1. Level_clear lv (snd (now w)) = Done w1 \<and>
               start_pass False ks (w, g) =
                 Raised TypeError
                   (w1, g\<lparr>screen := [], win_time := None,
                          levels := (levels g)[current_level g := type_of sl],
                          current_level := 0\<rparr>)))"
proof -
  let ?g = "g\<lparr>screen := []\<rparr>"
  have t: "fst (now w) = clock w (clock_reads w)" by (simp add: now_def)
  have hold: "start_pass False ks (w, g) =
              Done (snd (now w), g\<lparr>screen := Level_show lv (snd (now w)) []\<rparr>)"
    if "clock w (clock_reads w) - since \<le> 10000000"
    using that assms(1,2) by (simp add: start_pass_def split_beta Let_def t show_current_def)
  have expiry: "\<exists>w1. Level_clear lv (snd (now w)) = Done w1 \<and>
               start_pass False ks (w, g) =
                 Raised TypeError
                   (w1, g\<lparr>screen := [], win_time := None,
                          levels := (levels g)[current_level g := type_of sl],
                          current_level := 0\<rparr>)"
    if late: "clock w (clock_reads w) - since > 10000000"
  proof -
    let ?g1 = "?g\<lparr>win_time := None\<rparr>"
    have live: "owned_live (snd (now w)) lv" using assms(3) by simp
    from owned_live_clearable [OF live] obtain w1
      where clr: "Level_clear lv (snd (now w)) = Done w1" ..
    have cur: "getitem (levels ?g1) (current_level ?g1) = Some (Instance lv)"
      using assms(2) by simp
    have z: "getitem (levels ?g1) 0 = Some sl" using assms(5) by simp
    have ne: "0 \<noteq> current_level ?g1" using assms(4) by simp
    have go: "go_to_level 0 (snd (now w), ?g1) =
                Raised TypeError (w1, ?g1\<lparr>levels := (levels ?g1)[current_level ?g1 := type_of sl],
                                        current_level := 0\<rparr>)"
      by (rule go_to_level_no_class [OF cur clr z ne assms(6)])
    have "start_pass False ks (w, g) =
                 Raised TypeError
                   (w1, g\<lparr>screen := [], win_time := None,
                          levels := (levels g)[current_level g := type_of sl],
                          current_level := 0\<rparr>)"
      using late assms(1) go by (simp add: start_pass_def split_beta Let_def t)
    with clr show ?thesis by blast
  qed
  from hold expiry show ?thesis by blast
qed

text \<open>The win map as its constructor makes it, shown, in cell 2 of a game whose cells 0
  and 1 hold \<^verbatim>\<open>ABCMeta\<close>, the hold begun at time 0. Read at five seconds, the clock lets
  the pass draw the title and nothing else. Read just after ten seconds, it makes the
  pass raise \<^verbatim>\<open>TypeError\<close>, leaving \<^verbatim>\<open>type\<close> in cell 2 and \<^verbatim>\<open>current_level = 0\<close>.\<close>

lemmas win_eval = WinMap_init_def Entity_init_def empty_world_def dict_set_def Let_def split_beta

theorem win_hold_expiry_raises_witness:
  "(let ks = \<lparr>K_UP = False, K_DOWN = False, K_LEFT = False, K_RIGHT = False\<rparr>;
        early = construct WinMap (empty_world (1280, 720) (\<lambda>n. 5000000));
        late = construct WinMap (empty_world (1280, 720) (\<lambda>n. 10000001));
        g = (\<lambda>lv. \<lparr>current_level = 2,
                    levels = [ABCMeta, ABCMeta, Instance (set_on_screen True lv)],
                    screen = [], win_time = Some 0\<rparr>)
    in start_pass False ks (snd early, g (fst early)) =
         Done (snd (now (snd early)),
               (g (fst early))\<lparr>screen := [Blit ''../assets/win.png''
                                             \<lparr>rect_x = 0, rect_y = 0, rect_w = 1280, rect_h = 720\<rparr>]\<rparr>) \<and>
       (\<exists>w1. start_pass False ks (snd late, g (fst late)) =
               Raised TypeError
                 (w1, (g (fst late))\<lparr>win_time := None,
                                      levels := [ABCMeta, ABCMeta, TypeType],
                                      current_level := 0\<rparr>)))"
proof -
  let ?ks = "\<lparr>K_UP = False, K_DOWN = False, K_LEFT = False, K_RIGHT = False\<rparr>"
  let ?early = "construct WinMap (empty_world (1280, 720) (\<lambda>n. 5000000))"
  let ?late = "construct WinMap (empty_world (1280, 720) (\<lambda>n. 10000001))"
  let ?g = "\<lambda>lv. \<lparr>current_level = 2,
                    levels = [ABCMeta, ABCMeta, Instance (set_on_screen True lv)],
                    screen = [], win_time = Some 0\<rparr>"
  have lv: "fst ?early = WinMap_obj 0 False" "fst ?late = WinMap_obj 0 False"
    by (simp_all add: win_eval)
  have clk: "clock (snd ?early) (clock_reads (snd ?early)) = 5000000"
    "clock (snd ?late) (clock_reads (snd ?late)) = 10000001"
    by (simp_all add: win_eval)
  have 1: "win_time (?g lv) = Some 0" for lv by simp
  have 2: "getitem (levels (?g lv)) (current_level (?g lv)) = Some (Instance (set_on_screen True lv))"
    for lv by (simp add: getitem_def)
  have 3: "owned_live (snd ?early) (set_on_screen True (fst ?early))"
    "owned_live (snd ?late) (set_on_screen True (fst ?late))"
    using construct_owned_live [of WinMap] by simp_all
  have 4: "current_level (?g lv) \<noteq> 0" for lv by simp
  have 5: "getitem (levels (?g lv)) 0 = Some ABCMeta" for lv by (simp add: getitem_def)
  have 6: "\<forall>c. ABCMeta \<noteq> Class c" by simp
  have title: "Level_show (set_on_screen True (fst ?early)) (snd (now (snd ?early))) [] =
                 [Blit ''../assets/win.png'' \<lparr>rect_x = 0, rect_y = 0, rect_w = 1280, rect_h = 720\<rparr>]"
    by (simp add: win_eval now_def dict_values_def List.map_filter_def Entity_show_def entity_eval)
  from win_hold_expiry_raises [OF 1 2 3(1) 4 5 6, of ?ks] clk(1)
  have hold: "start_pass False ?ks (snd ?early, ?g (fst ?early)) =
         Done (snd (now (snd ?early)),
               (?g (fst ?early))\<lparr>screen := [Blit ''../assets/win.png''
                                             \<lparr>rect_x = 0, rect_y = 0, rect_w = 1280, rect_h = 720\<rparr>]\<rparr>)"
    unfolding title by simp
  from win_hold_expiry_raises [OF 1 2 3(2) 4 5 6, of ?ks] clk(2)
  have expiry: "\<exists>w1. start_pass False ?ks (snd ?late, ?g (fst ?late)) =
               Raised TypeError
                 (w1, (?g (fst ?late))\<lparr>win_time := None,
                                      levels := [ABCMeta, ABCMeta, TypeType],
                                      current_level := 0\<rparr>)"
    by auto
  from hold expiry show ?thesis
    unfolding Let_def by blast
qed

end
